theory Spec2Isabelle
  imports Complex_Main "HOL-Library.AList" "HOL-Library.Word"
begin

section \<open>Retention-aware load balancer (pkg/lb/serverpool/resource.go)\<close>

text \<open>
  A backend TSDB server, as seen through the methods of the \<open>backend.Server\<close> interface
  that \<open>resourceBased.Target\<close> calls: \<open>IsAlive()\<close>, \<open>RetentionPeriod()\<close> (a
  \<open>time.Duration\<close>, a signed count of nanoseconds) and \<open>ActiveConnections()\<close> (an
  \<open>int\<close>). No arithmetic is done on either number, only comparisons, so both are
  modelled as \<open>int\<close>. The model is sequential: each method returns the same value every
  time it is called during one call of \<open>Target\<close>.
\<close>

record backend =
  url :: string
  IsAlive :: bool
  RetentionPeriod :: int
  ActiveConnections :: int

text \<open>\<open>resourceBased.backends\<close>: a Go map from cluster ID to the slice of its backends.\<close>

type_synonym serverpool = "string \<rightharpoonup> backend list"

text \<open>\<open>Add\<close> appends to the slice of the cluster (a missing key reads as the nil slice).\<close>

definition Add :: "serverpool \<Rightarrow> string \<Rightarrow> backend \<Rightarrow> serverpool" where
  "Add s cid b = s(cid \<mapsto> (case s cid of None \<Rightarrow> [] | Some bs \<Rightarrow> bs) @ [b])"

definition Size :: "serverpool \<Rightarrow> string \<Rightarrow> nat" where
  "Size s cid = (case s cid of None \<Rightarrow> 0 | Some bs \<Rightarrow> length bs)"

definition MaxInt32 :: int where
  "MaxInt32 = 2147483647"

text \<open>
  The first loop of \<open>Target\<close>: walk the cluster's backends in registration order and
  append every backend that is alive and whose retention period is strictly greater
  than the query duration to \<open>targetBackends\<close>, and its retention period to
  \<open>retentionPeriods\<close>. The accumulator is the pair of the two slices.
\<close>

fun collectTargets :: "int \<Rightarrow> backend list \<Rightarrow> backend list \<times> int list \<Rightarrow> backend list \<times> int list" where
  "collectTargets d [] acc = acc"
| "collectTargets d (b # bs) (targetBackends, retentionPeriods) =
     (if \<not> IsAlive b then collectTargets d bs (targetBackends, retentionPeriods)
      else if d < RetentionPeriod b
        then collectTargets d bs (targetBackends @ [b], retentionPeriods @ [RetentionPeriod b])
        else collectTargets d bs (targetBackends, retentionPeriods))"

text \<open>\<open>slices.Min\<close>: panics on the empty slice (here \<open>None\<close>), else folds \<open>min\<close> from the left.\<close>

fun slices_Min :: "int list \<Rightarrow> int option" where
  "slices_Min [] = None"
| "slices_Min (x # xs) = Some (fold min xs x)"

text \<open>
  The second loop of \<open>Target\<close>, over the indices of \<open>targetBackends\<close>, reading
  \<open>retentionPeriods\<close> at the same index. The state is \<open>(targetBackend, activeConnections)\<close>.
\<close>

fun leastConnections ::
  "int \<Rightarrow> (backend \<times> int) list \<Rightarrow> backend option \<times> int \<Rightarrow> backend option \<times> int" where
  "leastConnections minRetentionPeriod [] st = st"
| "leastConnections minRetentionPeriod ((b, r) # rest) (targetBackend, activeConnections) =
     (if \<not> IsAlive b then leastConnections minRetentionPeriod rest (targetBackend, activeConnections)
      else if r = minRetentionPeriod then
        (let backendActiveConnections = ActiveConnections b in
         if activeConnections > backendActiveConnections
           then leastConnections minRetentionPeriod rest (Some b, backendActiveConnections)
           else leastConnections minRetentionPeriod rest (targetBackend, activeConnections))
      else leastConnections minRetentionPeriod rest (targetBackend, activeConnections))"

text \<open>\<open>resourceBased.Target\<close>; \<open>None\<close> is the nil interface value.\<close>

definition Target :: "serverpool \<Rightarrow> string \<Rightarrow> int \<Rightarrow> backend option" where
  "Target s cid d =
     (case s cid of
        None \<Rightarrow> None
      | Some bs \<Rightarrow>
          (let (targetBackends, retentionPeriods) = collectTargets d bs ([], []) in
           if length targetBackends = 0 then None
           else if length targetBackends = 1 then Some (hd targetBackends)
           else
             (case slices_Min retentionPeriods of
                None \<Rightarrow> None
              | Some minRetentionPeriod \<Rightarrow>
                  fst (leastConnections minRetentionPeriod
                         (zip targetBackends retentionPeriods) (None, MaxInt32)))))"

subsection \<open>Frontend (pkg/lb/frontend/frontend.go)\<close>

record QueryParams =
  uuids :: "string list"
  queryPeriod :: int

text \<open>
  Of the request, \<open>Serve\<close> reads only the context value stored under
  \<open>QueryParamsContextKey\<close>; \<open>None\<close> is the nil value.
\<close>

record request =
  queryParams :: "QueryParams option"

text \<open>
  What \<open>Serve\<close> does with the response writer: either the chosen backend serves the
  request, or \<open>http.Error\<close> writes a status code and a message.
\<close>

datatype response = Forwarded backend | HttpError nat string

definition StatusServiceUnavailable :: nat where
  "StatusServiceUnavailable = 503"

text \<open>
  \<open>loadBalancer.Serve\<close>. \<open>lb.manager\<close> is a \<open>serverpool.Manager\<close>, an interface;
  the \<open>Target\<close> method of the value behind it is the parameter \<open>target\<close>.
\<close>

definition Serve :: "(int \<Rightarrow> backend option) \<Rightarrow> request \<Rightarrow> response" where
  "Serve target r =
     (let queryPeriod = (case queryParams r of None \<Rightarrow> 0 | Some q \<Rightarrow> queryPeriod q) in
      case target queryPeriod of
        Some b \<Rightarrow> Forwarded b
      | None \<Rightarrow> HttpError StatusServiceUnavailable ''Service not available'')"

text \<open>The eligible backends of a cluster, in registration order.\<close>

definition eligible :: "int \<Rightarrow> backend list \<Rightarrow> backend list" where
  "eligible d bs = filter (\<lambda>b. IsAlive b \<and> d < RetentionPeriod b) bs"

text \<open>The query window that \<open>Serve\<close> takes from a request.\<close>

definition requestWindow :: "request \<Rightarrow> int" where
  "requestWindow r = (case queryParams r of None \<Rightarrow> 0 | Some q \<Rightarrow> queryPeriod q)"

text \<open>A candidate of the second loop: an alive backend whose recorded retention is the minimum.\<close>

definition cand :: "int \<Rightarrow> backend \<times> int \<Rightarrow> bool" where
  "cand m p = (IsAlive (fst p) \<and> snd p = m)"

text \<open>
  A candidate among the registered backends: alive, of a retention period strictly
  greater than the window \<open>d\<close>, and equal to \<open>m\<close>.
\<close>

definition candidateAt :: "int \<Rightarrow> int \<Rightarrow> backend \<Rightarrow> bool" where
  "candidateAt d m b = (IsAlive b \<and> d < RetentionPeriod b \<and> RetentionPeriod b = m)"

section \<open>Compute-unit collector (package collector)\<close>

subsection \<open>Numbers and strings of the Go runtime\<close>

text \<open>
  The metric fields are \<open>float64\<close>. Their values are modelled as reals; the two
  floating-point operations the collector performs, the conversion of an integer and the
  division, are parameters of the model, so that nothing is assumed about rounding.
\<close>

type_synonym float64 = real

record fpu =
  float64_of :: "int \<Rightarrow> float64"
  fdiv :: "float64 \<Rightarrow> float64 \<Rightarrow> float64"

type_synonym uint64 = "64 word"
type_synonym uint32 = "32 word"

definition MaxUint64 :: uint64 where
  "MaxUint64 = 18446744073709551615"

definition MaxInt64 :: int where
  "MaxInt64 = 9223372036854775807"

definition MinInt64 :: int where
  "MinInt64 = - 9223372036854775808"

text \<open>Decimal printing of a natural number, as \<open>%d\<close> and \<open>strconv.Itoa\<close> do.\<close>

definition digitChar :: "nat \<Rightarrow> char" where
  "digitChar n = ''0123456789'' ! n"

function natToDec :: "nat \<Rightarrow> string" where
  "natToDec n = (if n < 10 then [digitChar n] else natToDec (n div 10) @ [digitChar (n mod 10)])"
  by pat_completeness auto
termination
  by (relation "measure id") auto

definition Itoa :: "int \<Rightarrow> string" where
  "Itoa i = (if i < 0 then CHR ''-'' # natToDec (nat (- i)) else natToDec (nat i))"

text \<open>\<open>fmt.Sprintf("%d:%d", major, minor)\<close> on two \<open>uint64\<close>.\<close>

definition devKey :: "uint64 \<Rightarrow> uint64 \<Rightarrow> string" where
  "devKey major minor = natToDec (unat major) @ '':'' @ natToDec (unat minor)"

datatype error =
    ErrEmptyCpuset      \<comment> \<open>\<open>errors.New("empty cpuset file")\<close>\<close>
  | ErrNum              \<comment> \<open>\<open>*strconv.NumError\<close>: syntax or range\<close>
  | ErrCpusetNotFound   \<comment> \<open>\<open>cpuset file ... not found\<close>\<close>
  | ErrReadFile         \<comment> \<open>the error of \<open>os.ReadFile\<close>\<close>
  | ErrWalk string      \<comment> \<open>a file system error met by \<open>filepath.WalkDir\<close>\<close>

text \<open>
  \<open>strconv.Atoi\<close>: an optional sign, then one or more decimal digits and nothing else;
  the value must fit the 64-bit \<open>int\<close>.
\<close>

definition isDigit :: "char \<Rightarrow> bool" where
  "isDigit c = (c \<in> set ''0123456789'')"

definition digitVal :: "char \<Rightarrow> nat" where
  "digitVal c = of_char c - 48"

definition decToNat :: "string \<Rightarrow> nat" where
  "decToNat ds = foldl (\<lambda>n c. n * 10 + digitVal c) 0 ds"

definition Atoi :: "string \<Rightarrow> error + int" where
  "Atoi s =
     (case s of
        [] \<Rightarrow> Inl ErrNum
      | c # cs \<Rightarrow>
          (let ds = (if c = CHR ''-'' \<or> c = CHR ''+'' then cs else s) in
           if ds = [] \<or> \<not> list_all isDigit ds then Inl ErrNum
           else
             (let n = (if c = CHR ''-'' then - int (decToNat ds) else int (decToNat ds)) in
              if n < MinInt64 \<or> MaxInt64 < n then Inl ErrNum else Inr n)))"

text \<open>\<open>strings.Split(s, sep)\<close> for a one-byte separator: never empty, one more piece than separators.\<close>

fun Split :: "string \<Rightarrow> char \<Rightarrow> string list" where
  "Split [] sep = [[]]"
| "Split (c # cs) sep =
     (if c = sep then [] # Split cs sep
      else (case Split cs sep of [] \<Rightarrow> [[c]] | p # ps \<Rightarrow> (c # p) # ps))"

text \<open>\<open>strings.TrimSuffix(s, "\n")\<close>.\<close>

definition TrimSuffixNL :: "string \<Rightarrow> string" where
  "TrimSuffixNL s = (if s \<noteq> [] \<and> last s = CHR 0x0A then butlast s else s)"

subsection \<open>cpuset parsing\<close>

text \<open>The increment \<open>e++\<close> of a 64-bit \<open>int\<close> wraps around.\<close>

definition incInt64 :: "int \<Rightarrow> int" where
  "incInt64 e = (if e = MaxInt64 then MinInt64 else e + 1)"

text \<open>
  The inner loop of \<open>parseCPUSet\<close>, \<open>for e := start; e <= end; e++\<close>, appending
  \<open>strconv.Itoa(e)\<close>. When \<open>end\<close> is the largest \<open>int\<close> the condition never fails, and
  the loop does not return: the result is then \<open>None\<close>.
\<close>

partial_function (option) cpuLoop :: "int \<Rightarrow> int \<Rightarrow> string list \<Rightarrow> string list option" where
  "cpuLoop e end cpus =
     (if e \<le> end then cpuLoop (incInt64 e) end (cpus @ [Itoa e]) else Some cpus)"

declare cpuLoop.simps [code]

text \<open>
  The outer loop of \<open>parseCPUSet\<close> over the comma-separated pieces. \<open>start\<close> and
  \<open>end\<close> are declared outside the loop: a piece with three or more boundaries assigns
  neither and the inner loop runs again over the values left by the piece before.
  \<open>None\<close>: the inner loop does not return.
\<close>

fun parseRanges :: "string list \<Rightarrow> int \<Rightarrow> int \<Rightarrow> string list \<Rightarrow> (error + string list) option" where
  "parseRanges [] start end cpus = Some (Inr cpus)"
| "parseRanges (r # ranges) start end cpus =
     (let boundaries = Split r (CHR ''-'') in
      if length boundaries = 1 then
        (case Atoi (boundaries ! 0) of
           Inl err \<Rightarrow> Some (Inl err)
         | Inr start' \<Rightarrow>
             (case cpuLoop start' start' cpus of
                None \<Rightarrow> None
              | Some cpus' \<Rightarrow> parseRanges ranges start' start' cpus'))
      else if length boundaries = 2 then
        (case Atoi (boundaries ! 0) of
           Inl err \<Rightarrow> Some (Inl err)
         | Inr start' \<Rightarrow>
             (case Atoi (boundaries ! 1) of
                Inl err \<Rightarrow> Some (Inl err)
              | Inr end' \<Rightarrow>
                  (case cpuLoop start' end' cpus of
                     None \<Rightarrow> None
                   | Some cpus' \<Rightarrow> parseRanges ranges start' end' cpus')))
      else
        (case cpuLoop start end cpus of
           None \<Rightarrow> None
         | Some cpus' \<Rightarrow> parseRanges ranges start end cpus'))"

definition parseCPUSet :: "string \<Rightarrow> (error + string list) option" where
  "parseCPUSet cpuset =
     (if cpuset = [] then Some (Inl ErrEmptyCpuset)
      else parseRanges (Split cpuset (CHR '','')) 0 0 [])"

subsection \<open>The cgroup statistics handed over by the cgroups library\<close>

text \<open>
  The records below are the parts of \<open>cgroup1/stats.Metrics\<close> and
  \<open>cgroup2/stats.Metrics\<close> that \<open>statsV1\<close> and \<open>statsV2\<close> read. A nil message
  is \<open>None\<close>; a getter on a nil message returns the zero value.
\<close>

record CPUUsage =
  cu_Total :: uint64
  cu_Kernel :: uint64
  cu_User :: uint64

record CPUStat1 =
  c1_Usage :: "CPUUsage option"

record MemoryEntry =
  me_Limit :: uint64
  me_Usage :: uint64
  me_Failcnt :: uint64

record MemoryStat1 =
  m1_TotalRSS :: uint64
  m1_TotalCache :: uint64
  m1_Usage :: "MemoryEntry option"
  m1_Swap :: "MemoryEntry option"

record BlkIOEntry =
  be_Op :: string
  be_Major :: uint64
  be_Minor :: uint64
  be_Value :: uint64

record BlkIOStat =
  b1_IoServiceBytesRecursive :: "BlkIOEntry list"
  b1_IoServicedRecursive :: "BlkIOEntry list"

record RdmaEntry =
  re_Device :: string
  re_HcaHandles :: uint32
  re_HcaObjects :: uint32

record RdmaStat =
  rd_Current :: "RdmaEntry list"

record Metrics1 =
  s1_CPU :: "CPUStat1 option"
  s1_Memory :: "MemoryStat1 option"
  s1_Blkio :: "BlkIOStat option"
  s1_Rdma :: "RdmaStat option"

record PSIData =
  psi_Total :: uint64

record PSIStats =
  psi_Full :: "PSIData option"

record CPUStat2 =
  c2_UsageUsec :: uint64
  c2_UserUsec :: uint64
  c2_SystemUsec :: uint64
  c2_PSI :: "PSIStats option"

record MemoryStat2 =
  m2_Anon :: uint64
  m2_File :: uint64
  m2_Usage :: uint64
  m2_UsageLimit :: uint64
  m2_SwapUsage :: uint64
  m2_SwapLimit :: uint64
  m2_PSI :: "PSIStats option"

record MemoryEvents =
  ev_Oom :: uint64

record IOEntry =
  ie_Major :: uint64
  ie_Minor :: uint64
  ie_Rbytes :: uint64
  ie_Wbytes :: uint64
  ie_Rios :: uint64
  ie_Wios :: uint64

record IOStat =
  i2_Usage :: "IOEntry list"
  i2_PSI :: "PSIStats option"

record Metrics2 =
  s2_CPU :: "CPUStat2 option"
  s2_Memory :: "MemoryStat2 option"
  s2_MemoryEvents :: "MemoryEvents option"
  s2_Io :: "IOStat option"
  s2_Rdma :: "RdmaStat option"

text \<open>\<open>GetPSI().GetFull().GetTotal()\<close> on a non-nil \<open>PSIStats\<close>.\<close>

definition fullTotal :: "PSIStats \<Rightarrow> uint64" where
  "fullTotal p = (case psi_Full p of None \<Rightarrow> 0 | Some f \<Rightarrow> psi_Total f)"

text \<open>
  The outcome of \<open>Load\<close> followed by \<open>Stat\<close> on a cgroup path: \<open>Load\<close> fails,
  \<open>Stat\<close> fails, \<open>Stat\<close> returns nil statistics, or the statistics.
\<close>

datatype 'a cgstat = LoadFailed | StatFailed | StatNil | Stats 'a

text \<open>A file of the host: absent, present but unreadable, or its contents.\<close>

datatype fileres = NoFile | Unreadable | Contents string

text \<open>What the stats reader sees of the host, by path.\<close>

record host =
  cgroup1 :: "string \<Rightarrow> Metrics1 cgstat"
  cgroup2 :: "string \<Rightarrow> Metrics2 cgstat"
  readFile :: "string \<Rightarrow> fileres"

subsection \<open>The collector\<close>

datatype CGMode = Unavailable | Legacy | Hybrid | Unified

text \<open>
  \<open>cgMetric\<close>. A Go map is an association list with distinct keys: assignment is
  \<open>AList.update\<close>, lookup is \<open>map_of\<close>, and \<open>range\<close> visits the entries in the order of
  the list, which stands for the order Go happens to pick.
\<close>

record cgMetric =
  path :: string
  cpuUser :: float64
  cpuSystem :: float64
  cpuTotal :: float64
  cpus :: int
  cpuPressure :: float64
  memoryRSS :: float64
  memoryCache :: float64
  memoryUsed :: float64
  memoryTotal :: float64
  memoryFailCount :: float64
  memswUsed :: float64
  memswTotal :: float64
  memswFailCount :: float64
  memoryPressure :: float64
  blkioReadBytes :: "(string \<times> float64) list"
  blkioWriteBytes :: "(string \<times> float64) list"
  blkioReadReqs :: "(string \<times> float64) list"
  blkioWriteReqs :: "(string \<times> float64) list"
  blkioPressure :: float64
  rdmaHCAHandles :: "(string \<times> float64) list"
  rdmaHCAObjects :: "(string \<times> float64) list"
  uuid :: string
  err :: bool

text \<open>The metric as it is allocated before the stats are read: the path, the uuid, zeros.\<close>

definition newMetric :: "string \<Rightarrow> string \<Rightarrow> cgMetric" where
  "newMetric p u =
     \<lparr>path = p, cpuUser = 0, cpuSystem = 0, cpuTotal = 0, cpus = 0, cpuPressure = 0,
      memoryRSS = 0, memoryCache = 0, memoryUsed = 0, memoryTotal = 0, memoryFailCount = 0,
      memswUsed = 0, memswTotal = 0, memswFailCount = 0, memoryPressure = 0,
      blkioReadBytes = [], blkioWriteBytes = [], blkioReadReqs = [], blkioWriteReqs = [],
      blkioPressure = 0, rdmaHCAHandles = [], rdmaHCAObjects = [], uuid = u, err = False\<rparr>"

record cgroupOpts =
  collectSwapMemStats :: bool
  collectBlockIOStats :: bool
  collectPSIStats :: bool

text \<open>
  \<open>cgroupCollector\<close>, without the logger and the metric descriptors: \<open>mode\<close> and
  \<open>manager\<close> are the fields of its \<open>cgroupManager\<close> that the collector reads,
  \<open>cgroupfsPath\<close> is the command-line flag of that name. The two maps are only read.
\<close>

record cgroupCollector =
  mode :: CGMode
  manager :: string
  opts :: cgroupOpts
  hostname :: string
  hostMemInfo :: "string \<rightharpoonup> float64"
  blockDevices :: "string \<rightharpoonup> string"
  cgroupfsPath :: string

text \<open>Reading a Go map at a key that may be missing gives the zero value.\<close>

definition memInfo :: "cgroupCollector \<Rightarrow> string \<Rightarrow> float64" where
  "memInfo c k = (case hostMemInfo c k of None \<Rightarrow> 0 | Some v \<Rightarrow> v)"

definition devName :: "cgroupCollector \<Rightarrow> uint64 \<Rightarrow> uint64 \<Rightarrow> string" where
  "devName c major minor = (case blockDevices c (devKey major minor) of None \<Rightarrow> [] | Some n \<Rightarrow> n)"

text \<open>The path of the cpuset file that \<open>getCPUs\<close> builds with \<open>fmt.Sprintf\<close>.\<close>

definition cpusetPath :: "cgroupCollector \<Rightarrow> string \<Rightarrow> string" where
  "cpusetPath c p =
     (if mode c = Unified then cgroupfsPath c @ p @ ''/cpuset.cpus.effective''
      else cgroupfsPath c @ ''/cpuset'' @ p @ ''/cpuset.cpus'')"

text \<open>\<open>getCPUs\<close>; \<open>fileExists\<close> is false exactly for an absent file.\<close>

definition getCPUs :: "cgroupCollector \<Rightarrow> host \<Rightarrow> string \<Rightarrow> (error + string list) option" where
  "getCPUs c h p =
     (case readFile h (cpusetPath c p) of
        NoFile \<Rightarrow> Some (Inl ErrCpusetNotFound)
      | Unreadable \<Rightarrow> Some (Inl ErrReadFile)
      | Contents cpusData \<Rightarrow> parseCPUSet (TrimSuffixNL cpusData))"

text \<open>
  The step \<open>if cpus, err := c.getCPUs(path); err == nil { metric.cpus = len(cpus) }\<close>,
  which both readers take. \<open>None\<close>: \<open>getCPUs\<close> does not return.
\<close>

definition setCPUs :: "cgroupCollector \<Rightarrow> host \<Rightarrow> cgMetric \<Rightarrow> cgMetric option" where
  "setCPUs c h metric =
     (case getCPUs c h (path metric) of
        None \<Rightarrow> None
      | Some (Inl e) \<Rightarrow> Some metric
      | Some (Inr cs) \<Rightarrow> Some (metric\<lparr>cpus := int (length cs)\<rparr>))"

definition readOp :: string where "readOp = ''Read''"
definition writeOp :: string where "writeOp = ''Write''"

subsubsection \<open>\<open>statsV1\<close>\<close>

definition v1CPU :: "fpu \<Rightarrow> Metrics1 \<Rightarrow> cgMetric \<Rightarrow> cgMetric" where
  "v1CPU fl stats metric =
     (case s1_CPU stats of
        None \<Rightarrow> metric
      | Some cpu \<Rightarrow>
          (case c1_Usage cpu of
             None \<Rightarrow> metric
           | Some usage \<Rightarrow>
               metric\<lparr>cpuUser := fdiv fl (float64_of fl (uint (cu_User usage))) 1000000000,
                      cpuSystem := fdiv fl (float64_of fl (uint (cu_Kernel usage))) 1000000000,
                      cpuTotal := fdiv fl (float64_of fl (uint (cu_Total usage))) 1000000000\<rparr>))"

definition v1MemoryUsage :: "fpu \<Rightarrow> cgroupCollector \<Rightarrow> MemoryStat1 \<Rightarrow> cgMetric \<Rightarrow> cgMetric" where
  "v1MemoryUsage fl c mem metric =
     (case m1_Usage mem of
        None \<Rightarrow> metric
      | Some usage \<Rightarrow>
          metric\<lparr>memoryUsed := float64_of fl (uint (me_Usage usage)),
                 memoryTotal :=
                   (if me_Limit usage = MaxUint64 \<and> memInfo c ''MemTotal_bytes'' > 0
                    then memInfo c ''MemTotal_bytes''
                    else float64_of fl (uint (me_Limit usage))),
                 memoryFailCount := float64_of fl (uint (me_Failcnt usage))\<rparr>)"

definition v1MemorySwap :: "fpu \<Rightarrow> cgroupCollector \<Rightarrow> MemoryStat1 \<Rightarrow> cgMetric \<Rightarrow> cgMetric" where
  "v1MemorySwap fl c mem metric =
     (case m1_Swap mem of
        None \<Rightarrow> metric
      | Some swap \<Rightarrow>
          metric\<lparr>memswUsed := float64_of fl (uint (me_Usage swap)),
                 memswTotal :=
                   (if me_Limit swap = MaxUint64 then
                      (if memInfo c ''SwapTotal_bytes'' > 0 then memInfo c ''SwapTotal_bytes''
                       else if memInfo c ''MemTotal_bytes'' > 0 then memInfo c ''MemTotal_bytes''
                       else float64_of fl (uint (me_Limit swap)))
                    else float64_of fl (uint (me_Limit swap))),
                 memswFailCount := float64_of fl (uint (me_Failcnt swap))\<rparr>)"

definition v1Memory :: "fpu \<Rightarrow> cgroupCollector \<Rightarrow> Metrics1 \<Rightarrow> cgMetric \<Rightarrow> cgMetric" where
  "v1Memory fl c stats metric =
     (case s1_Memory stats of
        None \<Rightarrow> metric
      | Some mem \<Rightarrow>
          v1MemorySwap fl c mem
            (v1MemoryUsage fl c mem
               (metric\<lparr>memoryRSS := float64_of fl (uint (m1_TotalRSS mem)),
                       memoryCache := float64_of fl (uint (m1_TotalCache mem))\<rparr>)))"

text \<open>One round of the loop over \<open>IoServiceBytesRecursive\<close>, and of the one over \<open>IoServicedRecursive\<close>.\<close>

definition v1BytesStep :: "fpu \<Rightarrow> cgroupCollector \<Rightarrow> cgMetric \<Rightarrow> BlkIOEntry \<Rightarrow> cgMetric" where
  "v1BytesStep fl c metric stat =
     (let dev = devName c (be_Major stat) (be_Minor stat) in
      if be_Op stat = readOp
        then metric\<lparr>blkioReadBytes := AList.update dev (float64_of fl (uint (be_Value stat))) (blkioReadBytes metric)\<rparr>
      else if be_Op stat = writeOp
        then metric\<lparr>blkioWriteBytes := AList.update dev (float64_of fl (uint (be_Value stat))) (blkioWriteBytes metric)\<rparr>
      else metric)"

definition v1ReqsStep :: "fpu \<Rightarrow> cgroupCollector \<Rightarrow> cgMetric \<Rightarrow> BlkIOEntry \<Rightarrow> cgMetric" where
  "v1ReqsStep fl c metric stat =
     (let dev = devName c (be_Major stat) (be_Minor stat) in
      if be_Op stat = readOp
        then metric\<lparr>blkioReadReqs := AList.update dev (float64_of fl (uint (be_Value stat))) (blkioReadReqs metric)\<rparr>
      else if be_Op stat = writeOp
        then metric\<lparr>blkioWriteReqs := AList.update dev (float64_of fl (uint (be_Value stat))) (blkioWriteReqs metric)\<rparr>
      else metric)"

definition v1Blkio :: "fpu \<Rightarrow> cgroupCollector \<Rightarrow> Metrics1 \<Rightarrow> cgMetric \<Rightarrow> cgMetric" where
  "v1Blkio fl c stats metric =
     (case s1_Blkio stats of
        None \<Rightarrow> metric
      | Some blkio \<Rightarrow>
          foldl (v1ReqsStep fl c)
            (foldl (v1BytesStep fl c)
               (metric\<lparr>blkioReadBytes := [], blkioReadReqs := [],
                       blkioWriteBytes := [], blkioWriteReqs := []\<rparr>)
               (b1_IoServiceBytesRecursive blkio))
            (b1_IoServicedRecursive blkio))"

text \<open>The RDMA block, written out the same way in both readers.\<close>

definition rdmaStep :: "fpu \<Rightarrow> cgMetric \<Rightarrow> RdmaEntry \<Rightarrow> cgMetric" where
  "rdmaStep fl metric device =
     metric\<lparr>rdmaHCAHandles := AList.update (re_Device device) (float64_of fl (uint (re_HcaHandles device))) (rdmaHCAHandles metric),
            rdmaHCAObjects := AList.update (re_Device device) (float64_of fl (uint (re_HcaObjects device))) (rdmaHCAObjects metric)\<rparr>"

definition rdmaStats :: "fpu \<Rightarrow> RdmaStat option \<Rightarrow> cgMetric \<Rightarrow> cgMetric" where
  "rdmaStats fl rdma metric =
     (case rdma of
        None \<Rightarrow> metric
      | Some r \<Rightarrow> foldl (rdmaStep fl) (metric\<lparr>rdmaHCAHandles := [], rdmaHCAObjects := []\<rparr>) (rd_Current r))"

text \<open>\<open>statsV1\<close>. \<open>None\<close>: the reader does not return (the cpuset loop runs forever).\<close>

definition statsV1 :: "fpu \<Rightarrow> cgroupCollector \<Rightarrow> host \<Rightarrow> cgMetric \<Rightarrow> cgMetric option" where
  "statsV1 fl c h metric =
     (case cgroup1 h (path metric) of
        LoadFailed \<Rightarrow> Some (metric\<lparr>err := True\<rparr>)
      | StatFailed \<Rightarrow> Some (metric\<lparr>err := True\<rparr>)
      | StatNil \<Rightarrow> Some (metric\<lparr>err := True\<rparr>)
      | Stats stats \<Rightarrow>
          (case setCPUs c h (v1CPU fl stats metric) of
             None \<Rightarrow> None
           | Some metric' \<Rightarrow>
               Some (rdmaStats fl (s1_Rdma stats) (v1Blkio fl c stats (v1Memory fl c stats metric')))))"

subsubsection \<open>\<open>statsV2\<close>\<close>

definition v2CPU :: "fpu \<Rightarrow> Metrics2 \<Rightarrow> cgMetric \<Rightarrow> cgMetric" where
  "v2CPU fl stats metric =
     (case s2_CPU stats of
        None \<Rightarrow> metric
      | Some cpu \<Rightarrow>
          (let metric' =
             metric\<lparr>cpuUser := fdiv fl (float64_of fl (uint (c2_UserUsec cpu))) 1000000,
                    cpuSystem := fdiv fl (float64_of fl (uint (c2_SystemUsec cpu))) 1000000,
                    cpuTotal := fdiv fl (float64_of fl (uint (c2_UsageUsec cpu))) 1000000\<rparr>
           in case c2_PSI cpu of
                None \<Rightarrow> metric'
              | Some psi \<Rightarrow> metric'\<lparr>cpuPressure := fdiv fl (float64_of fl (uint (fullTotal psi))) 1000000\<rparr>))"

definition v2Memory :: "fpu \<Rightarrow> cgroupCollector \<Rightarrow> Metrics2 \<Rightarrow> cgMetric \<Rightarrow> cgMetric" where
  "v2Memory fl c stats metric =
     (case s2_Memory stats of
        None \<Rightarrow> metric
      | Some mem \<Rightarrow>
          (let metric' =
             metric\<lparr>memoryUsed := float64_of fl (uint (m2_Usage mem)),
                    memoryTotal :=
                      (if m2_UsageLimit mem = MaxUint64 \<and> memInfo c ''MemTotal_bytes'' > 0
                       then memInfo c ''MemTotal_bytes''
                       else float64_of fl (uint (m2_UsageLimit mem))),
                    memoryCache := float64_of fl (uint (m2_File mem)),
                    memoryRSS := float64_of fl (uint (m2_Anon mem)),
                    memswUsed := float64_of fl (uint (m2_SwapUsage mem)),
                    memswTotal :=
                      (if m2_SwapLimit mem = MaxUint64 then
                         (if memInfo c ''SwapTotal_bytes'' > 0 then memInfo c ''SwapTotal_bytes''
                          else if memInfo c ''MemTotal_bytes'' > 0 then memInfo c ''MemTotal_bytes''
                          else float64_of fl (uint (m2_SwapLimit mem)))
                       else float64_of fl (uint (m2_SwapLimit mem)))\<rparr>
           in case m2_PSI mem of
                None \<Rightarrow> metric'
              | Some psi \<Rightarrow> metric'\<lparr>memoryPressure := fdiv fl (float64_of fl (uint (fullTotal psi))) 1000000\<rparr>))"

definition v2MemoryEvents :: "fpu \<Rightarrow> Metrics2 \<Rightarrow> cgMetric \<Rightarrow> cgMetric" where
  "v2MemoryEvents fl stats metric =
     (case s2_MemoryEvents stats of
        None \<Rightarrow> metric
      | Some ev \<Rightarrow> metric\<lparr>memoryFailCount := float64_of fl (uint (ev_Oom ev))\<rparr>)"

definition v2IoStep :: "fpu \<Rightarrow> cgroupCollector \<Rightarrow> cgMetric \<Rightarrow> IOEntry \<Rightarrow> cgMetric" where
  "v2IoStep fl c metric stat =
     (let dev = devName c (ie_Major stat) (ie_Minor stat) in
      metric\<lparr>blkioReadBytes := AList.update dev (float64_of fl (uint (ie_Rbytes stat))) (blkioReadBytes metric),
             blkioReadReqs := AList.update dev (float64_of fl (uint (ie_Rios stat))) (blkioReadReqs metric),
             blkioWriteBytes := AList.update dev (float64_of fl (uint (ie_Wbytes stat))) (blkioWriteBytes metric),
             blkioWriteReqs := AList.update dev (float64_of fl (uint (ie_Wios stat))) (blkioWriteReqs metric)\<rparr>)"

definition v2Io :: "fpu \<Rightarrow> cgroupCollector \<Rightarrow> Metrics2 \<Rightarrow> cgMetric \<Rightarrow> cgMetric" where
  "v2Io fl c stats metric =
     (case s2_Io stats of
        None \<Rightarrow> metric
      | Some io \<Rightarrow>
          (let metric' =
             foldl (v2IoStep fl c)
               (metric\<lparr>blkioReadBytes := [], blkioReadReqs := [],
                       blkioWriteBytes := [], blkioWriteReqs := []\<rparr>)
               (i2_Usage io)
           in case i2_PSI io of
                None \<Rightarrow> metric'
              | Some psi \<Rightarrow> metric'\<lparr>blkioPressure := fdiv fl (float64_of fl (uint (fullTotal psi))) 1000000\<rparr>))"

text \<open>\<open>statsV2\<close>. \<open>None\<close>: the reader does not return (the cpuset loop runs forever).\<close>

definition statsV2 :: "fpu \<Rightarrow> cgroupCollector \<Rightarrow> host \<Rightarrow> cgMetric \<Rightarrow> cgMetric option" where
  "statsV2 fl c h metric =
     (case cgroup2 h (path metric) of
        LoadFailed \<Rightarrow> Some (metric\<lparr>err := True\<rparr>)
      | StatFailed \<Rightarrow> Some (metric\<lparr>err := True\<rparr>)
      | StatNil \<Rightarrow> Some (metric\<lparr>err := True\<rparr>)
      | Stats stats \<Rightarrow>
          (case setCPUs c h (v2CPU fl stats metric) of
             None \<Rightarrow> None
           | Some metric' \<Rightarrow>
               Some (rdmaStats fl (s2_Rdma stats)
                      (v2Io fl c stats (v2MemoryEvents fl stats (v2Memory fl c stats metric'))))))"

text \<open>\<open>update\<close>: the reader is picked by the cgroup mode.\<close>

definition update :: "fpu \<Rightarrow> cgroupCollector \<Rightarrow> host \<Rightarrow> cgMetric \<Rightarrow> cgMetric option" where
  "update fl c h m = (if mode c = Unified then statsV2 fl c h m else statsV1 fl c h m)"

text \<open>
  \<open>doUpdate\<close> starts one goroutine per metric, each writing its own element of the
  slice, and waits for all of them: the result is the slice of the updated metrics, and
  there is none when one of the readers does not return.
\<close>

fun doUpdate :: "fpu \<Rightarrow> cgroupCollector \<Rightarrow> host \<Rightarrow> cgMetric list \<Rightarrow> cgMetric list option" where
  "doUpdate fl c h [] = Some []"
| "doUpdate fl c h (m # ms) =
     (case update fl c h m of
        None \<Rightarrow> None
      | Some m' \<Rightarrow> (case doUpdate fl c h ms of None \<Rightarrow> None | Some ms' \<Rightarrow> Some (m' # ms')))"

subsection \<open>Exposition: \<open>cgroupCollector.Update\<close>\<close>

datatype Desc =
    numCgs | cgCPUUser | cgCPUSystem | cgCPUs | cgCPUPressure
  | cgMemoryRSS | cgMemoryCache | cgMemoryUsed | cgMemoryTotal | cgMemoryFailCount
  | cgMemswUsed | cgMemswTotal | cgMemswFailCount | cgMemoryPressure
  | cgBlkioReadBytes | cgBlkioWriteBytes | cgBlkioReadReqs | cgBlkioWriteReqs | cgBlkioPressure
  | cgRDMAHCAHandles | cgRDMAHCAObjects | collectError

datatype ValueType = CounterValue | GaugeValue

text \<open>What \<open>prometheus.MustNewConstMetric\<close> is given: one sample sent on the channel.\<close>

record Metric =
  desc :: Desc
  valueType :: ValueType
  val :: float64
  labelValues :: "string list"

definition MustNewConstMetric :: "Desc \<Rightarrow> ValueType \<Rightarrow> float64 \<Rightarrow> string list \<Rightarrow> Metric" where
  "MustNewConstMetric d t v ls = \<lparr>desc = d, valueType = t, val = v, labelValues = ls\<rparr>"

text \<open>
  The guarded send \<open>if v, ok := m[device]; ok && v > 0 { ch <- ... }\<close> of the block-IO
  loop, for one of the four maps.
\<close>

definition sendIfPositive ::
  "cgroupCollector \<Rightarrow> cgMetric \<Rightarrow> Desc \<Rightarrow> (string \<times> float64) list \<Rightarrow> string \<Rightarrow> Metric list" where
  "sendIfPositive c m d tab device =
     (case map_of tab device of
        None \<Rightarrow> []
      | Some v \<Rightarrow>
          if v > 0
            then [MustNewConstMetric d GaugeValue v [manager c, hostname c, uuid m, device]]
            else [])"

text \<open>The body of \<open>for device := range m.blkioReadBytes\<close>.\<close>

definition blkioSends :: "cgroupCollector \<Rightarrow> cgMetric \<Rightarrow> string \<Rightarrow> Metric list" where
  "blkioSends c m device =
       sendIfPositive c m cgBlkioReadBytes (blkioReadBytes m) device
     @ sendIfPositive c m cgBlkioWriteBytes (blkioWriteBytes m) device
     @ sendIfPositive c m cgBlkioReadReqs (blkioReadReqs m) device
     @ sendIfPositive c m cgBlkioWriteReqs (blkioWriteReqs m) device"

text \<open>
  The body of \<open>for device, handles := range m.rdmaHCAHandles\<close>, and of the loop
  after it, which sends under \<open>cgRDMAHCAObjects\<close> and also ranges over \<open>m.rdmaHCAHandles\<close>.
\<close>

definition rdmaSend :: "cgroupCollector \<Rightarrow> cgMetric \<Rightarrow> Desc \<Rightarrow> string \<times> float64 \<Rightarrow> Metric list" where
  "rdmaSend c m d entry =
     (case entry of (device, v) \<Rightarrow>
        if v > 0
          then [MustNewConstMetric d GaugeValue v [manager c, hostname c, uuid m, device]]
          else [])"

text \<open>The body of \<open>for _, m := range metrics\<close>: the samples sent for one unit, in order.\<close>

definition sendUnit :: "fpu \<Rightarrow> cgroupCollector \<Rightarrow> cgMetric \<Rightarrow> Metric list" where
  "sendUnit fl c m =
       (if err m
          then [MustNewConstMetric collectError GaugeValue 1 [manager c, hostname c, uuid m]]
          else [])
     @ [MustNewConstMetric cgCPUUser CounterValue (cpuUser m) [manager c, hostname c, uuid m],
        MustNewConstMetric cgCPUSystem CounterValue (cpuSystem m) [manager c, hostname c, uuid m],
        MustNewConstMetric cgCPUs GaugeValue (float64_of fl (cpus m)) [manager c, hostname c, uuid m],
        MustNewConstMetric cgMemoryRSS GaugeValue (memoryRSS m) [manager c, hostname c, uuid m],
        MustNewConstMetric cgMemoryCache GaugeValue (memoryCache m) [manager c, hostname c, uuid m],
        MustNewConstMetric cgMemoryUsed GaugeValue (memoryUsed m) [manager c, hostname c, uuid m],
        MustNewConstMetric cgMemoryTotal GaugeValue (memoryTotal m) [manager c, hostname c, uuid m],
        MustNewConstMetric cgMemoryFailCount GaugeValue (memoryFailCount m) [manager c, hostname c, uuid m]]
     @ (if collectSwapMemStats (opts c)
          then [MustNewConstMetric cgMemswUsed GaugeValue (memswUsed m) [manager c, hostname c, uuid m],
                MustNewConstMetric cgMemswTotal GaugeValue (memswTotal m) [manager c, hostname c, uuid m],
                MustNewConstMetric cgMemswFailCount GaugeValue (memswFailCount m) [manager c, hostname c, uuid m]]
          else [])
     @ (if collectBlockIOStats (opts c)
          then concat (map (blkioSends c m) (map fst (blkioReadBytes m)))
          else [])
     @ (if collectPSIStats (opts c)
          then [MustNewConstMetric cgCPUPressure GaugeValue (cpuPressure m) [manager c, hostname c, uuid m],
                MustNewConstMetric cgMemoryPressure GaugeValue (memoryPressure m) [manager c, hostname c, uuid m]]
          else [])
     @ concat (map (rdmaSend c m cgRDMAHCAHandles) (rdmaHCAHandles m))
     @ concat (map (rdmaSend c m cgRDMAHCAObjects) (rdmaHCAHandles m))"

text \<open>
  \<open>Update\<close>: the samples sent on the channel, in order. \<open>None\<close>: \<open>doUpdate\<close> does not
  return.
\<close>

definition Update :: "fpu \<Rightarrow> cgroupCollector \<Rightarrow> host \<Rightarrow> cgMetric list \<Rightarrow> Metric list option" where
  "Update fl c h metrics =
     (case doUpdate fl c h metrics of
        None \<Rightarrow> None
      | Some metrics' \<Rightarrow>
          Some (MustNewConstMetric numCgs GaugeValue (float64_of fl (int (length metrics')))
                  [manager c, hostname c]
                # concat (map (sendUnit fl c) metrics')))"

section \<open>Cgroup discovery (\<open>cgroupManager.discover\<close>)\<close>

type_synonym proc = int \<comment> \<open>\<open>procfs.Proc\<close>, by its PID\<close>

record cgroupPath =
  cp_abs :: string
  cp_rel :: string

record cgroup =
  cg_id :: string
  cg_uuid :: string
  cg_procs :: "proc list"
  cg_path :: cgroupPath
  cg_children :: "cgroupPath list"

text \<open>
  The fields of \<open>cgroupManager\<close> that \<open>discover\<close> reads. \<open>cm_idRegex\<close> is the method
  \<open>FindStringSubmatch\<close> of the regular expression held by the manager: the whole match
  followed by the capture groups, or the empty list when the path does not match.
\<close>

record cgroupManager =
  cm_root :: string
  cm_mountPoint :: string
  cm_idRegex :: "string \<Rightarrow> string list"
  cm_isChild :: "string \<Rightarrow> bool"

text \<open>
  What \<open>discover\<close> asks of the operating system and of the package's helpers:
  \<open>filepath.Rel\<close>, the helper \<open>unescapeString\<close> (\<open>None\<close> for
  an error), the lines of a \<open>cgroup.procs\<close> file by the directory that holds it
  (\<open>None\<close> when \<open>os.ReadFile\<close> fails), and whether \<open>/proc/<pid>\<close> is there, which
  is what \<open>fs.Proc\<close> checks.
\<close>

record osenv =
  filepathRel :: "string \<Rightarrow> string \<Rightarrow> string option"
  unescapeString :: "string \<Rightarrow> string option"
  cgroupProcsLines :: "string \<Rightarrow> string list option"
  procExists :: "int \<Rightarrow> bool"

text \<open>
  A file tree as \<open>filepath.WalkDir\<close> meets it: the name of the entry, whether it is a
  directory, the error of \<open>os.ReadDir\<close> on it if there is one (a directory that
  vanished after its parent was listed reports one), and the entries \<open>ReadDir\<close> returns.
\<close>

datatype fsnode = Node (nodeName: string) (nodeIsDir: bool) (nodeReadErr: "string option") (nodeEntries: "fsnode list")

text \<open>
  \<open>filepath.WalkDir\<close> for a function that returns nil or an error other than
  \<open>SkipDir\<close> and \<open>SkipAll\<close>, threading the state the function works on. The function
  is called on every entry; when \<open>ReadDir\<close> fails on a directory it is called a second
  time with the error; the first error it returns ends the walk.
\<close>

fun walkDir :: "(string \<Rightarrow> bool \<Rightarrow> string option \<Rightarrow> 's \<Rightarrow> error + 's) \<Rightarrow> string \<Rightarrow> fsnode \<Rightarrow> 's \<Rightarrow> error + 's"
  and walkEntries :: "(string \<Rightarrow> bool \<Rightarrow> string option \<Rightarrow> 's \<Rightarrow> error + 's) \<Rightarrow> string \<Rightarrow> fsnode list \<Rightarrow> 's \<Rightarrow> error + 's" where
  "walkDir fn p (Node name isDir readErr dirs) st =
     (case fn p isDir None st of
        Inl e \<Rightarrow> Inl e
      | Inr st1 \<Rightarrow>
          if \<not> isDir then Inr st1
          else
            (case readErr of
               None \<Rightarrow> walkEntries fn p dirs st1
             | Some e \<Rightarrow>
                 (case fn p isDir (Some e) st1 of
                    Inl e' \<Rightarrow> Inl e'
                  | Inr st2 \<Rightarrow> walkEntries fn p dirs st2)))"
| "walkEntries fn p [] st = Inr st"
| "walkEntries fn p (d1 # dirs) st =
     (case walkDir fn (p @ ''/'' @ nodeName d1) d1 st of
        Inl e \<Rightarrow> Inl e
      | Inr st' \<Rightarrow> walkEntries fn p dirs st')"

text \<open>The root: \<open>os.Lstat\<close> fails (\<open>Inl\<close>), and the function is called once with its error, or the tree.\<close>

definition WalkDir :: "(string \<Rightarrow> bool \<Rightarrow> string option \<Rightarrow> 's \<Rightarrow> error + 's) \<Rightarrow> string \<Rightarrow> string + fsnode \<Rightarrow> 's \<Rightarrow> error + 's" where
  "WalkDir fn rootPath tree st =
     (case tree of
        Inl e \<Rightarrow> fn rootPath False (Some e) st
      | Inr node \<Rightarrow> walkDir fn rootPath node st)"

text \<open>
  \<open>strings.TrimSpace\<close>, for the white space of ASCII. (The two white-space
  characters of Latin-1 and the ones beyond it, which take several bytes in UTF-8, are
  not trimmed here; the capture groups of the managers' expressions hold digits, hex
  digits and \<open>instance-\<close> only.)
\<close>

definition isSpace :: "char \<Rightarrow> bool" where
  "isSpace c = (c \<in> {CHR 0x09, CHR 0x0A, CHR 0x0B, CHR 0x0C, CHR 0x0D, CHR '' ''})"

definition TrimSpace :: "string \<Rightarrow> string" where
  "TrimSpace s = rev (dropWhile isSpace (rev (dropWhile isSpace s)))"

text \<open>The three variables the walk function closes over.\<close>

record walkState =
  ws_cgroups :: "cgroup list"
  ws_cgroupProcs :: "string \<rightharpoonup> proc list"
  ws_cgroupChildren :: "string \<rightharpoonup> cgroupPath list"

text \<open>Appending to a slice held in a map: a missing key reads as the nil slice.\<close>

definition appendAt :: "(string \<rightharpoonup> 'a list) \<Rightarrow> string \<Rightarrow> 'a \<Rightarrow> (string \<rightharpoonup> 'a list)" where
  "appendAt m k v = m(k \<mapsto> (case m k of None \<Rightarrow> [] | Some vs \<Rightarrow> vs) @ [v])"

text \<open>
  The scanner loop over \<open>cgroup.procs\<close>: every line that \<open>strconv.ParseInt\<close> reads as
  a number and whose process \<open>fs.Proc\<close> finds is appended to \<open>cgroupProcs[id]\<close>.
\<close>

fun scanProcs :: "osenv \<Rightarrow> string \<Rightarrow> string list \<Rightarrow> (string \<rightharpoonup> proc list) \<Rightarrow> (string \<rightharpoonup> proc list)" where
  "scanProcs env cid [] cgroupProcs = cgroupProcs"
| "scanProcs env cid (line # rest) cgroupProcs =
     (case Atoi line of
        Inl e \<Rightarrow> scanProcs env cid rest cgroupProcs
      | Inr pid \<Rightarrow>
          if procExists env pid then scanProcs env cid rest (appendAt cgroupProcs cid pid)
          else scanProcs env cid rest cgroupProcs)"

text \<open>The function \<open>discover\<close> hands to \<open>filepath.WalkDir\<close>.\<close>

definition walkFn :: "cgroupManager \<Rightarrow> osenv \<Rightarrow> string \<Rightarrow> bool \<Rightarrow> string option \<Rightarrow> walkState \<Rightarrow> error + walkState" where
  "walkFn c env p isDir walkErr st =
     (case walkErr of
        Some e \<Rightarrow> Inl (ErrWalk e)
      | None \<Rightarrow>
          if \<not> isDir then Inr st
          else
            (case filepathRel env (cm_root c) p of
               None \<Rightarrow> Inr st
             | Some rel \<Rightarrow>
                 (case unescapeString env p of
                    None \<Rightarrow> Inr st
                  | Some sanitizedPath \<Rightarrow>
                      (let cgroupIDMatches = cm_idRegex c sanitizedPath in
                       if length cgroupIDMatches \<le> 1 then Inr st
                       else
                         (let cid = TrimSpace (cgroupIDMatches ! 1) in
                          if cid = [] then Inr st
                          else
                            (let st1 =
                               (case cgroupProcsLines env p of
                                  None \<Rightarrow> st
                                | Some ls \<Rightarrow> st\<lparr>ws_cgroupProcs := scanProcs env cid ls (ws_cgroupProcs st)\<rparr>)
                             in
                             if cm_isChild c p then
                               Inr (st1\<lparr>ws_cgroupChildren :=
                                          appendAt (ws_cgroupChildren st1) cid \<lparr>cp_abs = sanitizedPath, cp_rel = rel\<rparr>\<rparr>)
                             else
                               (let cgrp = \<lparr>cg_id = cid, cg_uuid = cid, cg_procs = [],
                                            cg_path = \<lparr>cp_abs = sanitizedPath, cp_rel = rel\<rparr>, cg_children = []\<rparr>
                                in Inr (st1\<lparr>ws_cgroups := ws_cgroups st1 @ [cgrp],
                                            ws_cgroupChildren :=
                                              appendAt (ws_cgroupChildren st1) cid \<lparr>cp_abs = sanitizedPath, cp_rel = rel\<rparr>\<rparr>))))))))"

text \<open>The loop after the walk, which joins the processes and the children to each root cgroup.\<close>

definition mergeCgroup :: "walkState \<Rightarrow> cgroup \<Rightarrow> cgroup" where
  "mergeCgroup st cg =
     (let cg1 = (case ws_cgroupProcs st (cg_id cg) of None \<Rightarrow> cg | Some procs \<Rightarrow> cg\<lparr>cg_procs := procs\<rparr>)
      in case ws_cgroupChildren st (cg_id cg) of
           None \<Rightarrow> cg1
         | Some children \<Rightarrow> cg1\<lparr>cg_children := children\<rparr>)"

text \<open>\<open>discover\<close>: the error of the walk, or the cgroups.\<close>

definition discover :: "cgroupManager \<Rightarrow> osenv \<Rightarrow> string + fsnode \<Rightarrow> error + cgroup list" where
  "discover c env tree =
     (case WalkDir (walkFn c env) (cm_mountPoint c) tree
             \<lparr>ws_cgroups = [], ws_cgroupProcs = Map.empty, ws_cgroupChildren = Map.empty\<rparr> of
        Inl e \<Rightarrow> Inl e
      | Inr st \<Rightarrow> Inr (map (mergeCgroup st) (ws_cgroups st)))"

subsection \<open>The Slurm manager of \<open>NewCgroupManager\<close>\<close>

text \<open>\<open>strings.HasPrefix\<close> and \<open>strings.Contains\<close>.\<close>

definition HasPrefix :: "string \<Rightarrow> string \<Rightarrow> bool" where
  "HasPrefix s pre = (take (length pre) s = pre)"

fun Contains :: "string \<Rightarrow> string \<Rightarrow> bool" where
  "Contains [] sub = (sub = [])"
| "Contains (c # cs) sub = (HasPrefix (c # cs) sub \<or> Contains cs sub)"

text \<open>
  \<open>slurmCgroupPathRegex.FindStringSubmatch\<close>, for the expression
  \<^verbatim>\<open>^.*/slurm(?:.*?)/job_([0-9]+)(?:.*$)\<close> under the leftmost-first rule of Go's
  \<open>regexp\<close>. The dot does not match a newline and the expression spans the whole
  text, so a text with a newline does not match. The greedy \<^verbatim>\<open>.*\<close> settles on the
  last \<^verbatim>\<open>/slurm\<close> after which the rest still matches (\<open>findSlurm\<close> tries the later
  positions first); the lazy \<^verbatim>\<open>.*?\<close> then stops at the first \<^verbatim>\<open>/job_\<close> that a digit
  follows (\<open>findJob\<close>), and the group takes all the digits there.
\<close>

fun findJob :: "string \<Rightarrow> string option" where
  "findJob [] = None"
| "findJob (c # cs) =
     (if HasPrefix (c # cs) ''/job_'' \<and> takeWhile isDigit (drop 5 (c # cs)) \<noteq> []
        then Some (takeWhile isDigit (drop 5 (c # cs)))
        else findJob cs)"

fun findSlurm :: "string \<Rightarrow> string option" where
  "findSlurm [] = None"
| "findSlurm (c # cs) =
     (case findSlurm cs of
        Some g \<Rightarrow> Some g
      | None \<Rightarrow> if HasPrefix (c # cs) ''/slurm'' then findJob (drop 6 (c # cs)) else None)"

definition slurmCgroupPathRegex :: "string \<Rightarrow> string list" where
  "slurmCgroupPathRegex s =
     (if CHR 0x0A \<in> set s then []
      else (case findSlurm s of None \<Rightarrow> [] | Some g \<Rightarrow> [s, g]))"

text \<open>
  The manager built for Slurm on cgroups v2, with the default cgroup root: the mount
  point is \<open>root/system.slice/slurmstepd.scope\<close> and a child is a path that contains \<^verbatim>\<open>/step_\<close>.
\<close>

definition slurmManagerV2 :: cgroupManager where
  "slurmManagerV2 =
     \<lparr>cm_root = ''/sys/fs/cgroup'',
      cm_mountPoint = ''/sys/fs/cgroup/system.slice/slurmstepd.scope'',
      cm_idRegex = slurmCgroupPathRegex,
      cm_isChild = (\<lambda>p. Contains p ''/step_'')\<rparr>"

section \<open>Definitions used to state the properties\<close>

subsection \<open>The cpuset expression, by the words of the specification\<close>

text \<open>
  The specification reads a cpuset as a comma-separated list of integers or inclusive
  ranges. \<open>pieceBounds\<close> gives the bounds of one piece, an integer \<open>n\<close> standing for
  the range from \<open>n\<close> to \<open>n\<close>; a piece that is neither has no bounds. The
  integers are read as \<open>strconv.Atoi\<close> reads them.
\<close>

definition pieceBounds :: "string \<Rightarrow> (int \<times> int) option" where
  "pieceBounds r =
     (case Split r (CHR ''-'') of
        [a] \<Rightarrow> (case Atoi a of Inr n \<Rightarrow> Some (n, n) | Inl e \<Rightarrow> None)
      | [a, b] \<Rightarrow> (case Atoi a of
                     Inl e \<Rightarrow> None
                   | Inr lo \<Rightarrow> (case Atoi b of Inr hi \<Rightarrow> Some (lo, hi) | Inl e \<Rightarrow> None))
      | _ \<Rightarrow> None)"

fun allBounds :: "string list \<Rightarrow> (int \<times> int) list option" where
  "allBounds [] = Some []"
| "allBounds (r # rs) =
     (case pieceBounds r of
        None \<Rightarrow> None
      | Some b \<Rightarrow> (case allBounds rs of None \<Rightarrow> None | Some bs \<Rightarrow> Some (b # bs)))"

definition cpusetBounds :: "string \<Rightarrow> (int \<times> int) list option" where
  "cpusetBounds s = (if s = [] then None else allBounds (Split s (CHR '','')))"

text \<open>The expansion of every range, in order, and the set the expression denotes.\<close>

definition expandBounds :: "(int \<times> int) list \<Rightarrow> int list" where
  "expandBounds bs = concat (map (\<lambda>(lo, hi). [lo..hi]) bs)"

definition cpusetDenotation :: "(int \<times> int) list \<Rightarrow> int set" where
  "cpusetDenotation bs = (\<Union>(lo, hi) \<in> set bs. {lo..hi})"

text \<open>
  No two pieces of the list share an integer: of two pieces, one ends before the other
  starts, or one of them is empty.
\<close>

definition rangesDisjoint :: "(int \<times> int) list \<Rightarrow> bool" where
  "rangesDisjoint bs = sorted_wrt (\<lambda>(lo, hi) (lo', hi'). hi < lo' \<or> hi' < lo \<or> hi < lo \<or> hi' < lo') bs"

subsection \<open>The stats reader\<close>

text \<open>The cgroup of the path loads and its statistics are there, in the collector's mode.\<close>

definition statsAvailable :: "cgroupCollector \<Rightarrow> host \<Rightarrow> string \<Rightarrow> bool" where
  "statsAvailable c h p =
     (if mode c = Unified
        then (case cgroup2 h p of Stats st \<Rightarrow> True | _ \<Rightarrow> False)
        else (case cgroup1 h p of Stats st \<Rightarrow> True | _ \<Rightarrow> False))"

subsection \<open>The exposition\<close>

text \<open>The six per-device metric families: block IO by block device, RDMA by RDMA device.\<close>

definition isPerDevice :: "Desc \<Rightarrow> bool" where
  "isPerDevice d = (d = cgBlkioReadBytes \<or> d = cgBlkioWriteBytes \<or> d = cgBlkioReadReqs \<or>
                    d = cgBlkioWriteReqs \<or> d = cgRDMAHCAHandles \<or> d = cgRDMAHCAObjects)"

text \<open>
  The eight per-unit CPU and memory samples of a unit: CPU user and system seconds
  (counters), CPU count, memory RSS, cache, used, total and fail count (gauges).
\<close>

definition unitSamples :: "fpu \<Rightarrow> cgroupCollector \<Rightarrow> cgMetric \<Rightarrow> Metric list" where
  "unitSamples fl c m =
     [\<lparr>desc = cgCPUUser, valueType = CounterValue, val = cpuUser m, labelValues = [manager c, hostname c, uuid m]\<rparr>,
      \<lparr>desc = cgCPUSystem, valueType = CounterValue, val = cpuSystem m, labelValues = [manager c, hostname c, uuid m]\<rparr>,
      \<lparr>desc = cgCPUs, valueType = GaugeValue, val = float64_of fl (cpus m), labelValues = [manager c, hostname c, uuid m]\<rparr>,
      \<lparr>desc = cgMemoryRSS, valueType = GaugeValue, val = memoryRSS m, labelValues = [manager c, hostname c, uuid m]\<rparr>,
      \<lparr>desc = cgMemoryCache, valueType = GaugeValue, val = memoryCache m, labelValues = [manager c, hostname c, uuid m]\<rparr>,
      \<lparr>desc = cgMemoryUsed, valueType = GaugeValue, val = memoryUsed m, labelValues = [manager c, hostname c, uuid m]\<rparr>,
      \<lparr>desc = cgMemoryTotal, valueType = GaugeValue, val = memoryTotal m, labelValues = [manager c, hostname c, uuid m]\<rparr>,
      \<lparr>desc = cgMemoryFailCount, valueType = GaugeValue, val = memoryFailCount m, labelValues = [manager c, hostname c, uuid m]\<rparr>]"

subsection \<open>The memory limits\<close>

text \<open>
  The totals as the amended claim C4 words them. Memory: for the limit
  \<open>math.MaxUint64\<close>, the host's \<open>MemTotal\<close> if it is positive, else the limit itself;
  any other limit unchanged. Swap: for the limit \<open>math.MaxUint64\<close>, the host's
  \<open>SwapTotal\<close> if positive, else its \<open>MemTotal\<close> if positive, else the limit itself;
  any other limit unchanged.
\<close>

definition amendedMemoryTotal :: "fpu \<Rightarrow> cgroupCollector \<Rightarrow> uint64 \<Rightarrow> float64" where
  "amendedMemoryTotal fl c limit =
     (if limit = MaxUint64 then
        (if memInfo c ''MemTotal_bytes'' > 0 then memInfo c ''MemTotal_bytes''
         else float64_of fl (uint MaxUint64))
      else float64_of fl (uint limit))"

definition amendedMemswTotal :: "fpu \<Rightarrow> cgroupCollector \<Rightarrow> uint64 \<Rightarrow> float64" where
  "amendedMemswTotal fl c limit =
     (if limit = MaxUint64 then
        (if memInfo c ''SwapTotal_bytes'' > 0 then memInfo c ''SwapTotal_bytes''
         else if memInfo c ''MemTotal_bytes'' > 0 then memInfo c ''MemTotal_bytes''
         else float64_of fl (uint MaxUint64))
      else float64_of fl (uint limit))"

text \<open>The samples of the \<open>compute_collect_error\<close> family.\<close>

definition isCollectError :: "Metric \<Rightarrow> bool" where
  "isCollectError s = (desc s = collectError)"

subsection \<open>Discovery\<close>

text \<open>
  The walk meets a file system error in the tree: \<open>os.ReadDir\<close> fails on a directory
  of it (entries that are not directories are not read).
\<close>

fun hasReadErr :: "fsnode \<Rightarrow> bool" where
  "hasReadErr (Node name isDir readErr dirs) =
     (isDir \<and> (readErr \<noteq> None \<or> (\<exists>d \<in> set dirs. hasReadErr d)))"

text \<open>The paths of the directories of the tree, in the order the walk visits them.\<close>

fun dirPaths :: "string \<Rightarrow> fsnode \<Rightarrow> string list" where
  "dirPaths p (Node name isDir readErr dirs) =
     (if isDir then p # concat (map (\<lambda>d. dirPaths (p @ ''/'' @ nodeName d) d) dirs) else [])"

text \<open>What the walk function does to its state on a directory, called without an error.\<close>

definition visit :: "cgroupManager \<Rightarrow> osenv \<Rightarrow> walkState \<Rightarrow> string \<Rightarrow> walkState" where
  "visit c env st p = (case walkFn c env p True None st of Inl e \<Rightarrow> st | Inr st' \<Rightarrow> st')"

text \<open>
  The root cgroup that a directory contributes, as the walk function builds it: none
  when \<open>filepath.Rel\<close> or \<open>unescapeString\<close> fails, when the sanitized path does
  not match, when the trimmed first capture group is empty, or when the path is a child.
\<close>

definition rootUnit :: "cgroupManager \<Rightarrow> osenv \<Rightarrow> string \<Rightarrow> cgroup option" where
  "rootUnit c env p =
     (case filepathRel env (cm_root c) p of
        None \<Rightarrow> None
      | Some rel \<Rightarrow>
          (case unescapeString env p of
             None \<Rightarrow> None
           | Some sanitizedPath \<Rightarrow>
               if length (cm_idRegex c sanitizedPath) \<le> 1 then None
               else if TrimSpace (cm_idRegex c sanitizedPath ! 1) = [] then None
               else if cm_isChild c p then None
               else Some \<lparr>cg_id = TrimSpace (cm_idRegex c sanitizedPath ! 1),
                          cg_uuid = TrimSpace (cm_idRegex c sanitizedPath ! 1),
                          cg_procs = [],
                          cg_path = \<lparr>cp_abs = sanitizedPath, cp_rel = rel\<rparr>,
                          cg_children = []\<rparr>))"

text \<open>The ID of the root cgroup that a directory contributes, if it contributes one.\<close>

definition unitId :: "cgroupManager \<Rightarrow> osenv \<Rightarrow> string \<Rightarrow> string option" where
  "unitId c env p = map_option cg_id (rootUnit c env p)"

text \<open>
  A cpuset text is in range when none of the bounds that \<open>parseCPUSet\<close> converts is
  \<open>2^63 - 1\<close>, the one value at which the loop over a range never ends. The read of a
  unit returns when its statistics are not available, or when the cpuset file is missing,
  unreadable, or holds a text in range.
\<close>

definition cpusetInRange :: "string \<Rightarrow> bool" where
  "cpusetInRange s =
     list_all (\<lambda>r. list_all (\<lambda>b. Atoi b \<noteq> Inr MaxInt64) (Split r (CHR ''-''))) (Split s (CHR '',''))"

definition readReturns :: "cgroupCollector \<Rightarrow> host \<Rightarrow> string \<Rightarrow> bool" where
  "readReturns c h p =
     (\<not> statsAvailable c h p \<or>
      (case readFile h (cpusetPath c p) of
         Contents cpusData \<Rightarrow> cpusetInRange (TrimSuffixNL cpusData)
       | _ \<Rightarrow> True))"
subsection \<open>Concrete pools and requests\<close>

definition deadBackend :: backend where
  "deadBackend = \<lparr>url = ''http://tsdb-cold:9090'', IsAlive = False, RetentionPeriod = 2592000000000000, ActiveConnections = 0\<rparr>"

definition hotBackend :: backend where
  "hotBackend = \<lparr>url = ''http://tsdb-hot:9090'', IsAlive = True, RetentionPeriod = 21600000000000, ActiveConnections = 0\<rparr>"

definition poolNoneEligible :: serverpool where
  "poolNoneEligible = Add (Add Map.empty ''c0'' hotBackend) ''c0'' deadBackend"

definition busyBackend :: "string \<Rightarrow> backend" where
  "busyBackend u = \<lparr>url = u, IsAlive = True, RetentionPeriod = 2592000000000000, ActiveConnections = 2147483647\<rparr>"

definition poolSaturated :: serverpool where
  "poolSaturated = Add (Add Map.empty ''c0'' (busyBackend ''http://tsdb-a:9090'')) ''c0'' (busyBackend ''http://tsdb-b:9090'')"

definition zeroRetentionBackend :: backend where
  "zeroRetentionBackend = \<lparr>url = ''http://tsdb-zero:9090'', IsAlive = True, RetentionPeriod = 0, ActiveConnections = 0\<rparr>"

definition negRetentionBackend :: backend where
  "negRetentionBackend = \<lparr>url = ''http://tsdb-neg:9090'', IsAlive = True, RetentionPeriod = - 3600000000000, ActiveConnections = 0\<rparr>"

definition poolNonPositive :: serverpool where
  "poolNonPositive = Add (Add Map.empty ''c0'' zeroRetentionBackend) ''c0'' negRetentionBackend"

definition coldBackend :: backend where
  "coldBackend = \<lparr>url = ''http://tsdb-cold:9090'', IsAlive = True, RetentionPeriod = 2592000000000000, ActiveConnections = 3\<rparr>"

definition poolTwoTiers :: serverpool where
  "poolTwoTiers = Add (Add Map.empty ''c0'' coldBackend) ''c0'' hotBackend"

definition tierBackend :: "string \<Rightarrow> int \<Rightarrow> backend" where
  "tierBackend u n = \<lparr>url = u, IsAlive = True, RetentionPeriod = 2592000000000000, ActiveConnections = n\<rparr>"

definition poolTie :: serverpool where
  "poolTie = Add (Add Map.empty ''c0'' (tierBackend ''http://tsdb-a:9090'' 5)) ''c0'' (tierBackend ''http://tsdb-b:9090'' 2)"

subsection \<open>Concrete collectors and hosts\<close>

definition exactFpu :: fpu where
  "exactFpu = \<lparr>float64_of = real_of_int, fdiv = (\<lambda>x y. x / y)\<rparr>"

definition noStats2 :: Metrics2 where
  "noStats2 = \<lparr>s2_CPU = None, s2_Memory = None, s2_MemoryEvents = None, s2_Io = None, s2_Rdma = None\<rparr>"

definition slurmV2 :: cgroupCollector where
  "slurmV2 = \<lparr>mode = Unified, manager = ''slurm'',
      opts = \<lparr>collectSwapMemStats = True, collectBlockIOStats = True, collectPSIStats = True\<rparr>,
      hostname = ''node1'',
      hostMemInfo = [''MemTotal_bytes'' \<mapsto> 16777216000, ''SwapTotal_bytes'' \<mapsto> 4194304000],
      blockDevices = [''8:0'' \<mapsto> ''sda'', ''8:16'' \<mapsto> ''sdb''],
      cgroupfsPath = ''/sys/fs/cgroup''\<rparr>"

definition job42 :: string where
  "job42 = ''/system.slice/slurmstepd.scope/job_42''"

text \<open>A host on which the cpuset file of job 42 holds the given text.\<close>

definition cpusetHost :: "string \<Rightarrow> host" where
  "cpusetHost txt =
     \<lparr>cgroup1 = (\<lambda>p. LoadFailed),
      cgroup2 = (\<lambda>p. if p = job42 then Stats noStats2 else LoadFailed),
      readFile = (\<lambda>p. if p = ''/sys/fs/cgroup/system.slice/slurmstepd.scope/job_42/cpuset.cpus.effective''
                       then Contents txt else NoFile)\<rparr>"

text \<open>A unit with one RDMA device holding 2 HCA handles and 5 HCA objects.\<close>

definition rdmaStats2 :: Metrics2 where
  "rdmaStats2 = \<lparr>s2_CPU = None, s2_Memory = None, s2_MemoryEvents = None, s2_Io = None,
      s2_Rdma = Some \<lparr>rd_Current = [\<lparr>re_Device = ''mlx5_0'', re_HcaHandles = 2, re_HcaObjects = 5\<rparr>]\<rparr>\<rparr>"

definition rdmaHost :: host where
  "rdmaHost =
     \<lparr>cgroup1 = (\<lambda>p. LoadFailed),
      cgroup2 = (\<lambda>p. if p = job42 then Stats rdmaStats2 else LoadFailed),
      readFile = (\<lambda>p. NoFile)\<rparr>"

text \<open>The two RDMA metric families.\<close>

definition isRdmaDesc :: "Metric \<Rightarrow> bool" where
  "isRdmaDesc s = (desc s = cgRDMAHCAHandles \<or> desc s = cgRDMAHCAObjects)"

text \<open>The job of the first scenario with unlimited memory, one disk and one RDMA device.\<close>

definition fullStats2 :: Metrics2 where
  "fullStats2 =
     \<lparr>s2_CPU = Some \<lparr>c2_UsageUsec = 5000000, c2_UserUsec = 3000000, c2_SystemUsec = 2000000,
                      c2_PSI = Some \<lparr>psi_Full = Some \<lparr>psi_Total = 0\<rparr>\<rparr>\<rparr>,
      s2_Memory = Some \<lparr>m2_Anon = 524288, m2_File = 0, m2_Usage = 1048576, m2_UsageLimit = MaxUint64,
                         m2_SwapUsage = 0, m2_SwapLimit = MaxUint64, m2_PSI = None\<rparr>,
      s2_MemoryEvents = Some \<lparr>ev_Oom = 0\<rparr>,
      s2_Io = Some \<lparr>i2_Usage = [\<lparr>ie_Major = 8, ie_Minor = 0, ie_Rbytes = 4096, ie_Wbytes = 0, ie_Rios = 3, ie_Wios = 0\<rparr>],
                     i2_PSI = None\<rparr>,
      s2_Rdma = Some \<lparr>rd_Current = [\<lparr>re_Device = ''mlx5_0'', re_HcaHandles = 2, re_HcaObjects = 5\<rparr>,
                                     \<lparr>re_Device = ''mlx5_1'', re_HcaHandles = 0, re_HcaObjects = 1\<rparr>]\<rparr>\<rparr>"

definition fullHost :: host where
  "fullHost =
     \<lparr>cgroup1 = (\<lambda>p. LoadFailed),
      cgroup2 = (\<lambda>p. if p = job42 then Stats fullStats2 else LoadFailed),
      readFile = (\<lambda>p. if p = ''/sys/fs/cgroup/system.slice/slurmstepd.scope/job_42/cpuset.cpus.effective''
                       then Contents (''0-3'' @ [CHR 0x0A]) else NoFile)\<rparr>"

text \<open>The metric of job 42 after the read on that host, and the samples sent for it.\<close>

definition fullMetric :: cgMetric where
  "fullMetric =
  \<lparr>path = ''/system.slice/slurmstepd.scope/job_42'', cpuUser = 3,
     cpuSystem = 2, cpuTotal = 5, cpus = 4, cpuPressure = 0,
     memoryRSS = 524288, memoryCache = 0, memoryUsed = 1048576,
     memoryTotal = 16777216000, memoryFailCount = 0, memswUsed = 0,
     memswTotal = 4194304000, memswFailCount = 0, memoryPressure = 0,
     blkioReadBytes = [(''sda'', 4096)], blkioWriteBytes = [(''sda'', 0)],
     blkioReadReqs = [(''sda'', 3)], blkioWriteReqs = [(''sda'', 0)],
     blkioPressure = 0, rdmaHCAHandles = [(''mlx5_0'', 2), (''mlx5_1'', 0)],
     rdmaHCAObjects = [(''mlx5_0'', 5), (''mlx5_1'', 1)], uuid = ''42'',
     err = False\<rparr>"

definition fullSamples :: "Metric list" where
  "fullSamples =
  [\<lparr>desc = numCgs, valueType = GaugeValue, val = 1,
      labelValues = [''slurm'', ''node1'']\<rparr>,
   \<lparr>desc = cgCPUUser, valueType = CounterValue, val = 3,
      labelValues = [''slurm'', ''node1'', ''42'']\<rparr>,
   \<lparr>desc = cgCPUSystem, valueType = CounterValue, val = 2,
      labelValues = [''slurm'', ''node1'', ''42'']\<rparr>,
   \<lparr>desc = cgCPUs, valueType = GaugeValue, val = 4,
      labelValues = [''slurm'', ''node1'', ''42'']\<rparr>,
   \<lparr>desc = cgMemoryRSS, valueType = GaugeValue, val = 524288,
      labelValues = [''slurm'', ''node1'', ''42'']\<rparr>,
   \<lparr>desc = cgMemoryCache, valueType = GaugeValue, val = 0,
      labelValues = [''slurm'', ''node1'', ''42'']\<rparr>,
   \<lparr>desc = cgMemoryUsed, valueType = GaugeValue, val = 1048576,
      labelValues = [''slurm'', ''node1'', ''42'']\<rparr>,
   \<lparr>desc = cgMemoryTotal, valueType = GaugeValue, val = 16777216000,
      labelValues = [''slurm'', ''node1'', ''42'']\<rparr>,
   \<lparr>desc = cgMemoryFailCount, valueType = GaugeValue, val = 0,
      labelValues = [''slurm'', ''node1'', ''42'']\<rparr>,
   \<lparr>desc = cgMemswUsed, valueType = GaugeValue, val = 0,
      labelValues = [''slurm'', ''node1'', ''42'']\<rparr>,
   \<lparr>desc = cgMemswTotal, valueType = GaugeValue, val = 4194304000,
      labelValues = [''slurm'', ''node1'', ''42'']\<rparr>,
   \<lparr>desc = cgMemswFailCount, valueType = GaugeValue, val = 0,
      labelValues = [''slurm'', ''node1'', ''42'']\<rparr>,
   \<lparr>desc = cgBlkioReadBytes, valueType = GaugeValue, val = 4096,
      labelValues = [''slurm'', ''node1'', ''42'', ''sda'']\<rparr>,
   \<lparr>desc = cgBlkioReadReqs, valueType = GaugeValue, val = 3,
      labelValues = [''slurm'', ''node1'', ''42'', ''sda'']\<rparr>,
   \<lparr>desc = cgCPUPressure, valueType = GaugeValue, val = 0,
      labelValues = [''slurm'', ''node1'', ''42'']\<rparr>,
   \<lparr>desc = cgMemoryPressure, valueType = GaugeValue, val = 0,
      labelValues = [''slurm'', ''node1'', ''42'']\<rparr>,
   \<lparr>desc = cgRDMAHCAHandles, valueType = GaugeValue, val = 2,
      labelValues = [''slurm'', ''node1'', ''42'', ''mlx5_0'']\<rparr>,
   \<lparr>desc = cgRDMAHCAObjects, valueType = GaugeValue, val = 2,
      labelValues = [''slurm'', ''node1'', ''42'', ''mlx5_0'']\<rparr>]"

text \<open>The collector of a host whose \<open>/proc/meminfo\<close> could not be read at start-up.\<close>

definition noMemInfo :: cgroupCollector where
  "noMemInfo = slurmV2\<lparr>hostMemInfo := Map.empty\<rparr>"

text \<open>A cgroups v1 unit: a memory limit of 2 GiB, no swap limit, on a host without swap.\<close>

definition job211 :: string where
  "job211 = ''/slurm/uid_1000/job_211''"

definition slurmV1 :: cgroupCollector where
  "slurmV1 = \<lparr>mode = Legacy, manager = ''slurm'',
      opts = \<lparr>collectSwapMemStats = True, collectBlockIOStats = False, collectPSIStats = False\<rparr>,
      hostname = ''node1'',
      hostMemInfo = [''MemTotal_bytes'' \<mapsto> 16777216000],
      blockDevices = Map.empty,
      cgroupfsPath = ''/sys/fs/cgroup''\<rparr>"

definition legacyMemory :: MemoryStat1 where
  "legacyMemory =
     \<lparr>m1_TotalRSS = 524288, m1_TotalCache = 0,
      m1_Usage = Some \<lparr>me_Limit = 2147483648, me_Usage = 1048576, me_Failcnt = 0\<rparr>,
      m1_Swap = Some \<lparr>me_Limit = MaxUint64, me_Usage = 0, me_Failcnt = 0\<rparr>\<rparr>"

definition legacyStats :: Metrics1 where
  "legacyStats = \<lparr>s1_CPU = None, s1_Memory = Some legacyMemory, s1_Blkio = None, s1_Rdma = None\<rparr>"

definition legacyHost :: host where
  "legacyHost =
     \<lparr>cgroup1 = (\<lambda>p. if p = job211 then Stats legacyStats else LoadFailed),
      cgroup2 = (\<lambda>p. LoadFailed),
      readFile = (\<lambda>p. NoFile)\<rparr>"

definition legacyMetric :: cgMetric where
  "legacyMetric = (newMetric job211 ''211'')\<lparr>memoryRSS := 524288, memoryUsed := 1048576,
      memoryTotal := 2147483648, memswTotal := 16777216000\<rparr>"

definition fullMemory :: MemoryStat2 where
  "fullMemory = \<lparr>m2_Anon = 524288, m2_File = 0, m2_Usage = 1048576, m2_UsageLimit = MaxUint64,
                         m2_SwapUsage = 0, m2_SwapLimit = MaxUint64, m2_PSI = None\<rparr>"

text \<open>The host of job 42 with every file unreadable, and a job whose cgroup does not load.\<close>

definition unreadableHost :: host where
  "unreadableHost = fullHost\<lparr>readFile := (\<lambda>p. Unreadable)\<rparr>"

definition job43 :: string where
  "job43 = ''/system.slice/slurmstepd.scope/job_43''"

text \<open>A cpuset of four ranges, 20 bytes long.\<close>

definition ordinaryCpuset :: string where
  "ordinaryCpuset = ''0-3,8-11,16-19,24-27''"
subsection \<open>Concrete cgroup trees\<close>

text \<open>\<open>filepath.Rel\<close> for a clean path at or below a clean base; other paths are not needed here.\<close>

definition relUnder :: "string \<Rightarrow> string \<Rightarrow> string option" where
  "relUnder base p =
     (if p = base then Some ''.''
      else if HasPrefix p (base @ ''/'') then Some (drop (length base + 1) p)
      else None)"

text \<open>
  A host on which no path holds an escape (\<open>unescapeString\<close> returns such a path as
  it is), job 42 lists the PIDs 101 and 102, and only process 101 is still alive.
\<close>

definition plainEnv :: osenv where
  "plainEnv =
     \<lparr>filepathRel = relUnder,
      unescapeString = (\<lambda>s. if CHR 0x5C \<in> set s \<or> CHR 0x22 \<in> set s then None else Some s),
      cgroupProcsLines = (\<lambda>p. if p = ''/sys/fs/cgroup/system.slice/slurmstepd.scope/job_42''
                               then Some [''101'', ''102''] else None),
      procExists = (\<lambda>pid. pid = 101)\<rparr>"

definition leafDir :: "string \<Rightarrow> fsnode" where
  "leafDir name = Node name True None [Node ''cgroup.procs'' False None []]"


definition intactTree :: fsnode where
  "intactTree =
     Node ''slurmstepd.scope'' True None
       [Node ''cgroup.procs'' False None [],
        Node ''job_42'' True None [Node ''cgroup.procs'' False None [], leafDir ''step_0'', leafDir ''step_extern''],
        leafDir ''system'']"

text \<open>Job 42 with a sub-cgroup that is not a step.\<close>

definition nestedTree :: fsnode where
  "nestedTree =
     Node ''slurmstepd.scope'' True None
       [Node ''job_42'' True None [leafDir ''step_0'', leafDir ''extra'']]"


definition unit42 :: cgroup where
  "unit42 =
     \<lparr>cg_id = ''42'', cg_uuid = ''42'', cg_procs = [101],
      cg_path = \<lparr>cp_abs = ''/sys/fs/cgroup/system.slice/slurmstepd.scope/job_42'',
                  cp_rel = ''system.slice/slurmstepd.scope/job_42''\<rparr>,
      cg_children =
        [\<lparr>cp_abs = ''/sys/fs/cgroup/system.slice/slurmstepd.scope/job_42'',
           cp_rel = ''system.slice/slurmstepd.scope/job_42''\<rparr>,
         \<lparr>cp_abs = ''/sys/fs/cgroup/system.slice/slurmstepd.scope/job_42/step_0'',
           cp_rel = ''system.slice/slurmstepd.scope/job_42/step_0''\<rparr>,
         \<lparr>cp_abs = ''/sys/fs/cgroup/system.slice/slurmstepd.scope/job_42/step_extern'',
           cp_rel = ''system.slice/slurmstepd.scope/job_42/step_extern''\<rparr>]\<rparr>"

section \<open>Properties of the load balancer\<close>

lemma collectTargets_eq:
  "collectTargets d bs (ts, rs) = (ts @ eligible d bs, rs @ map RetentionPeriod (eligible d bs))"
  by (induction bs arbitrary: ts rs) (simp_all add: eligible_def)

lemma collectTargets_start:
  "collectTargets d bs ([], []) = (eligible d bs, map RetentionPeriod (eligible d bs))"
  by (simp add: collectTargets_eq)

lemma Target_no_eligible:
  assumes "s cid = Some bs" "eligible d bs = []"
  shows "Target s cid d = None"
  using assms by (simp add: Target_def collectTargets_start)

lemma fold_min_Min: "fold min xs (x::int) = Min (set (x # xs))"
  by (metis Min.set_eq_fold)

lemma slices_Min_eq: "xs \<noteq> [] \<Longrightarrow> slices_Min xs = Some (Min (set xs))"
  by (cases xs) (simp_all add: fold_min_Min del: set_simps)

lemma leastConnections_inv:
  "leastConnections m xs (tb, ac) = (tb', ac') \<Longrightarrow>
     (\<forall>j < length xs. cand m (xs ! j) \<longrightarrow> ac' \<le> ActiveConnections (fst (xs ! j))) \<and>
     ((tb' = tb \<and> ac' = ac) \<or>
      (\<exists>i < length xs. tb' = Some (fst (xs ! i)) \<and> cand m (xs ! i)
          \<and> ActiveConnections (fst (xs ! i)) = ac' \<and> ac' < ac
          \<and> (\<forall>j < i. cand m (xs ! j) \<longrightarrow> ac' < ActiveConnections (fst (xs ! j)))))"
proof (induction xs arbitrary: tb ac)
  case Nil
  then show ?case by simp
next
  case (Cons p xs)
  obtain b r where p: "p = (b, r)" by (cases p)
  show ?case
  proof (cases "cand m p \<and> ac > ActiveConnections b")
    case True
    then have rec: "leastConnections m xs (Some b, ActiveConnections b) = (tb', ac')"
      using Cons.prems p by (simp add: cand_def Let_def)
    from Cons.IH[OF rec] have
      all: "\<forall>j < length xs. cand m (xs ! j) \<longrightarrow> ac' \<le> ActiveConnections (fst (xs ! j))" and
      dis: "(tb' = Some b \<and> ac' = ActiveConnections b) \<or>
      (\<exists>i < length xs. tb' = Some (fst (xs ! i)) \<and> cand m (xs ! i)
          \<and> ActiveConnections (fst (xs ! i)) = ac' \<and> ac' < ActiveConnections b
          \<and> (\<forall>j < i. cand m (xs ! j) \<longrightarrow> ac' < ActiveConnections (fst (xs ! j))))"
      by auto
    from dis have le: "ac' \<le> ActiveConnections b" by auto
    have A: "\<forall>j < length (p # xs). cand m ((p # xs) ! j) \<longrightarrow> ac' \<le> ActiveConnections (fst ((p # xs) ! j))"
      using all le p by (auto simp: nth_Cons split: nat.splits)
    from dis have B: "\<exists>i < length (p # xs). tb' = Some (fst ((p # xs) ! i)) \<and> cand m ((p # xs) ! i)
          \<and> ActiveConnections (fst ((p # xs) ! i)) = ac' \<and> ac' < ac
          \<and> (\<forall>j < i. cand m ((p # xs) ! j) \<longrightarrow> ac' < ActiveConnections (fst ((p # xs) ! j)))"
    proof
      assume "tb' = Some b \<and> ac' = ActiveConnections b"
      then show ?thesis using True p by (intro exI[of _ 0]) simp
    next
      assume "\<exists>i < length xs. tb' = Some (fst (xs ! i)) \<and> cand m (xs ! i)
          \<and> ActiveConnections (fst (xs ! i)) = ac' \<and> ac' < ActiveConnections b
          \<and> (\<forall>j < i. cand m (xs ! j) \<longrightarrow> ac' < ActiveConnections (fst (xs ! j)))"
      then obtain i where i: "i < length xs" "tb' = Some (fst (xs ! i))" "cand m (xs ! i)"
        "ActiveConnections (fst (xs ! i)) = ac'" "ac' < ActiveConnections b"
        "\<forall>j < i. cand m (xs ! j) \<longrightarrow> ac' < ActiveConnections (fst (xs ! j))" by blast
      show ?thesis
        using i True p by (intro exI[of _ "Suc i"]) (auto simp: nth_Cons split: nat.splits)
    qed
    show ?thesis using A B by blast
  next
    case False
    then have rec: "leastConnections m xs (tb, ac) = (tb', ac')"
      using Cons.prems p by (auto simp add: cand_def Let_def split: if_splits)
    from Cons.IH[OF rec] have
      all: "\<forall>j < length xs. cand m (xs ! j) \<longrightarrow> ac' \<le> ActiveConnections (fst (xs ! j))" and
      dis: "(tb' = tb \<and> ac' = ac) \<or>
      (\<exists>i < length xs. tb' = Some (fst (xs ! i)) \<and> cand m (xs ! i)
          \<and> ActiveConnections (fst (xs ! i)) = ac' \<and> ac' < ac
          \<and> (\<forall>j < i. cand m (xs ! j) \<longrightarrow> ac' < ActiveConnections (fst (xs ! j))))"
      by auto
    from dis have le: "ac' \<le> ac" by auto
    have A: "\<forall>j < length (p # xs). cand m ((p # xs) ! j) \<longrightarrow> ac' \<le> ActiveConnections (fst ((p # xs) ! j))"
      using all le p False by (auto simp: nth_Cons split: nat.splits)
    from dis have B: "(tb' = tb \<and> ac' = ac) \<or> (\<exists>i < length (p # xs). tb' = Some (fst ((p # xs) ! i)) \<and> cand m ((p # xs) ! i)
          \<and> ActiveConnections (fst ((p # xs) ! i)) = ac' \<and> ac' < ac
          \<and> (\<forall>j < i. cand m ((p # xs) ! j) \<longrightarrow> ac' < ActiveConnections (fst ((p # xs) ! j))))"
    proof
      assume "tb' = tb \<and> ac' = ac" then show ?thesis by simp
    next
      assume "\<exists>i < length xs. tb' = Some (fst (xs ! i)) \<and> cand m (xs ! i)
          \<and> ActiveConnections (fst (xs ! i)) = ac' \<and> ac' < ac
          \<and> (\<forall>j < i. cand m (xs ! j) \<longrightarrow> ac' < ActiveConnections (fst (xs ! j)))"
      then obtain i where i: "i < length xs" "tb' = Some (fst (xs ! i))" "cand m (xs ! i)"
        "ActiveConnections (fst (xs ! i)) = ac'" "ac' < ac"
        "\<forall>j < i. cand m (xs ! j) \<longrightarrow> ac' < ActiveConnections (fst (xs ! j))" by blast
      have "\<exists>i < length (p # xs). tb' = Some (fst ((p # xs) ! i)) \<and> cand m ((p # xs) ! i)
          \<and> ActiveConnections (fst ((p # xs) ! i)) = ac' \<and> ac' < ac
          \<and> (\<forall>j < i. cand m ((p # xs) ! j) \<longrightarrow> ac' < ActiveConnections (fst ((p # xs) ! j)))"
        using i False p by (intro exI[of _ "Suc i"]) (auto simp: nth_Cons split: nat.splits)
      then show ?thesis by blast
    qed
    show ?thesis using A B by blast
  qed
qed

lemma eligible_alive: "b \<in> set (eligible d bs) \<Longrightarrow> IsAlive b \<and> d < RetentionPeriod b \<and> b \<in> set bs"
  by (simp add: eligible_def)

lemma Target_unknown: "s cid = None \<Longrightarrow> Target s cid d = None"
  by (simp add: Target_def)

lemma Target_single:
  assumes "s cid = Some bs" "eligible d bs = [b]"
  shows "Target s cid d = Some b"
  using assms by (simp add: Target_def collectTargets_start)

lemma Target_many_eq:
  assumes "s cid = Some bs" "2 \<le> length (eligible d bs)"
  shows "Target s cid d =
     fst (leastConnections (Min (RetentionPeriod ` set (eligible d bs)))
            (zip (eligible d bs) (map RetentionPeriod (eligible d bs))) (None, MaxInt32))"
proof -
  from assms(2) have ne: "map RetentionPeriod (eligible d bs) \<noteq> []" by auto
  have "slices_Min (map RetentionPeriod (eligible d bs)) = Some (Min (RetentionPeriod ` set (eligible d bs)))"
    using slices_Min_eq[OF ne] by simp
  then show ?thesis using assms by (simp add: Target_def collectTargets_start)
qed

lemma Target_many:
  assumes "s cid = Some bs" "2 \<le> length (eligible d bs)"
    and "\<exists>b \<in> set (eligible d bs).
           RetentionPeriod b = Min (RetentionPeriod ` set (eligible d bs)) \<and> ActiveConnections b < MaxInt32"
  shows "\<exists>i < length (eligible d bs).
           Target s cid d = Some (eligible d bs ! i) \<and>
           RetentionPeriod (eligible d bs ! i) = Min (RetentionPeriod ` set (eligible d bs)) \<and>
           (\<forall>j < length (eligible d bs).
              RetentionPeriod (eligible d bs ! j) = Min (RetentionPeriod ` set (eligible d bs)) \<longrightarrow>
              ActiveConnections (eligible d bs ! i) \<le> ActiveConnections (eligible d bs ! j) \<and>
              (j < i \<longrightarrow> ActiveConnections (eligible d bs ! i) < ActiveConnections (eligible d bs ! j)))"
proof -
  define E where "E = eligible d bs"
  define m where "m = Min (RetentionPeriod ` set E)"
  define xs where "xs = zip E (map RetentionPeriod E)"
  have len: "length xs = length E" by (simp add: xs_def)
  have nth: "\<And>j. j < length E \<Longrightarrow> xs ! j = (E ! j, RetentionPeriod (E ! j))"
    by (simp add: xs_def)
  have alive: "\<And>j. j < length E \<Longrightarrow> IsAlive (E ! j)"
    using eligible_alive[of _ d bs] by (simp add: E_def)
  have candI: "\<And>j. j < length E \<Longrightarrow> cand m (xs ! j) = (RetentionPeriod (E ! j) = m)"
    using alive nth by (simp add: cand_def)
  obtain tb' ac' where res: "leastConnections m xs (None, MaxInt32) = (tb', ac')"
    by (cases "leastConnections m xs (None, MaxInt32)")
  have T: "Target s cid d = tb'"
    using Target_many_eq[of s cid bs d] assms(1,2) res by (simp add: E_def m_def xs_def)
  from leastConnections_inv[OF res] have
    all: "\<forall>j < length xs. cand m (xs ! j) \<longrightarrow> ac' \<le> ActiveConnections (fst (xs ! j))" and
    dis: "(tb' = None \<and> ac' = MaxInt32) \<or>
      (\<exists>i < length xs. tb' = Some (fst (xs ! i)) \<and> cand m (xs ! i)
          \<and> ActiveConnections (fst (xs ! i)) = ac' \<and> ac' < MaxInt32
          \<and> (\<forall>j < i. cand m (xs ! j) \<longrightarrow> ac' < ActiveConnections (fst (xs ! j))))"
    by auto
  from assms(3) obtain b where b: "b \<in> set E" "RetentionPeriod b = m" "ActiveConnections b < MaxInt32"
    by (auto simp: E_def m_def)
  then obtain k where k: "k < length E" "E ! k = b" by (auto simp: in_set_conv_nth)
  have "ac' \<le> ActiveConnections b" using all k b candI len nth by force
  then have "ac' \<noteq> MaxInt32" using b(3) by simp
  with dis obtain i where i: "i < length xs" "tb' = Some (fst (xs ! i))" "cand m (xs ! i)"
    "ActiveConnections (fst (xs ! i)) = ac'"
    "\<forall>j < i. cand m (xs ! j) \<longrightarrow> ac' < ActiveConnections (fst (xs ! j))" by blast
  have "i < length E" using i(1) len by simp
  moreover have "Target s cid d = Some (E ! i)" using T i(1,2) len nth by simp
  moreover have "RetentionPeriod (E ! i) = m" using i(1,3) candI len by simp
  moreover have "\<forall>j < length E. RetentionPeriod (E ! j) = m \<longrightarrow>
       ActiveConnections (E ! i) \<le> ActiveConnections (E ! j) \<and>
       (j < i \<longrightarrow> ActiveConnections (E ! i) < ActiveConnections (E ! j))"
  proof (intro allI impI)
    fix j assume j: "j < length E" "RetentionPeriod (E ! j) = m"
    have c: "cand m (xs ! j)" using candI j by simp
    have e: "ActiveConnections (E ! i) = ac'" using i(1,4) len nth by simp
    have "ac' \<le> ActiveConnections (E ! j)" using all c j len nth by force
    moreover have "j < i \<Longrightarrow> ac' < ActiveConnections (E ! j)"
      using i(5) c j nth by force
    ultimately show "ActiveConnections (E ! i) \<le> ActiveConnections (E ! j) \<and>
       (j < i \<longrightarrow> ActiveConnections (E ! i) < ActiveConnections (E ! j))" using e by simp
  qed
  ultimately show ?thesis unfolding E_def[symmetric] m_def[symmetric] by blast
qed

lemma Target_many_saturated:
  assumes "s cid = Some bs" "2 \<le> length (eligible d bs)"
    and "\<forall>b \<in> set (eligible d bs).
           RetentionPeriod b = Min (RetentionPeriod ` set (eligible d bs)) \<longrightarrow> MaxInt32 \<le> ActiveConnections b"
  shows "Target s cid d = None"
proof -
  define E where "E = eligible d bs"
  define m where "m = Min (RetentionPeriod ` set E)"
  define xs where "xs = zip E (map RetentionPeriod E)"
  have len: "length xs = length E" by (simp add: xs_def)
  have nth: "\<And>j. j < length E \<Longrightarrow> xs ! j = (E ! j, RetentionPeriod (E ! j))"
    by (simp add: xs_def)
  obtain tb' ac' where res: "leastConnections m xs (None, MaxInt32) = (tb', ac')"
    by (cases "leastConnections m xs (None, MaxInt32)")
  have T: "Target s cid d = tb'"
    using Target_many_eq[of s cid bs d] assms(1,2) res by (simp add: E_def m_def xs_def)
  from leastConnections_inv[OF res] have
    dis: "(tb' = None \<and> ac' = MaxInt32) \<or>
      (\<exists>i < length xs. tb' = Some (fst (xs ! i)) \<and> cand m (xs ! i)
          \<and> ActiveConnections (fst (xs ! i)) = ac' \<and> ac' < MaxInt32
          \<and> (\<forall>j < i. cand m (xs ! j) \<longrightarrow> ac' < ActiveConnections (fst (xs ! j))))"
    by auto
  have "\<not> (\<exists>i < length xs. cand m (xs ! i) \<and> ActiveConnections (fst (xs ! i)) < MaxInt32)"
  proof
    assume "\<exists>i < length xs. cand m (xs ! i) \<and> ActiveConnections (fst (xs ! i)) < MaxInt32"
    then obtain i where i: "i < length E" "cand m (xs ! i)" "ActiveConnections (fst (xs ! i)) < MaxInt32"
      using len by auto
    then have "E ! i \<in> set E" "RetentionPeriod (E ! i) = m" "ActiveConnections (E ! i) < MaxInt32"
      using nth by (auto simp: cand_def)
    with assms(3) show False by (auto simp: E_def m_def)
  qed
  with dis have "tb' = None" by blast
  with T show ?thesis by simp
qed

lemma Serve_window:
  "Serve target r = (case target (requestWindow r) of
        Some b \<Rightarrow> Forwarded b
      | None \<Rightarrow> HttpError 503 ''Service not available'')"
  by (simp add: Serve_def requestWindow_def StatusServiceUnavailable_def split: option.split)

text \<open>
  Claim C3. When the cluster ID is absent from the pool, or no backend registered for
  the cluster is both alive and of a retention period strictly greater than the query
  window, \<open>Target\<close> returns nil, and \<open>Serve\<close>, for a request carrying that window,
  answers 503 Service Unavailable and forwards nothing.
\<close>

theorem Target_none_then_503:
  assumes "s cid = None \<or> (\<exists>bs. s cid = Some bs \<and> \<not> (\<exists>b \<in> set bs. IsAlive b \<and> d < RetentionPeriod b))"
    and "requestWindow r = d"
  shows "Target s cid d = None \<and>
         Serve (Target s cid) r = HttpError 503 ''Service not available''"
proof -
  have "Target s cid d = None"
  proof (cases "s cid")
    case None
    then show ?thesis by (rule Target_unknown)
  next
    case (Some bs)
    with assms(1) have "eligible d bs = []"
      by (auto simp: eligible_def filter_empty_conv)
    with Some show ?thesis by (rule Target_no_eligible)
  qed
  then show ?thesis using assms(2) by (simp add: Serve_window)
qed

text \<open>
  The pool of the specification's sixth scenario: a live backend of 6h retention, a dead
  one of 30d, and a query window of 12h.
\<close>

theorem Target_none_then_503_witness:
  "poolNoneEligible ''c0'' = Some [hotBackend, deadBackend] \<and>
   \<not> (\<exists>b \<in> set [hotBackend, deadBackend]. IsAlive b \<and> 43200000000000 < RetentionPeriod b) \<and>
   requestWindow \<lparr>queryParams = Some \<lparr>uuids = [], queryPeriod = 43200000000000\<rparr>\<rparr> = 43200000000000 \<and>
   Target poolNoneEligible ''c0'' 43200000000000 = None \<and>
   Serve (Target poolNoneEligible ''c0'') \<lparr>queryParams = Some \<lparr>uuids = [], queryPeriod = 43200000000000\<rparr>\<rparr>
     = HttpError 503 ''Service not available''"
proof -
  have p: "poolNoneEligible ''c0'' = Some [hotBackend, deadBackend]"
    by (simp add: poolNoneEligible_def Add_def)
  have e: "\<not> (\<exists>b \<in> set [hotBackend, deadBackend]. IsAlive b \<and> 43200000000000 < RetentionPeriod b)"
    by (simp add: hotBackend_def deadBackend_def)
  have w: "requestWindow \<lparr>queryParams = Some \<lparr>uuids = [], queryPeriod = 43200000000000\<rparr>\<rparr> = 43200000000000"
    by (simp add: requestWindow_def)
  from p e have h: "poolNoneEligible ''c0'' = None \<or> (\<exists>bs. poolNoneEligible ''c0'' = Some bs \<and>
       \<not> (\<exists>b \<in> set bs. IsAlive b \<and> 43200000000000 < RetentionPeriod b))" by simp
  show ?thesis
    using Target_none_then_503[of poolNoneEligible "''c0''" 43200000000000
        "\<lparr>queryParams = Some \<lparr>uuids = [], queryPeriod = 43200000000000\<rparr>\<rparr>"] h p e w
    by simp
qed

lemma eligible_Cons:
  "eligible d (b # bs) = (if IsAlive b \<and> d < RetentionPeriod b then b # eligible d bs else eligible d bs)"
  by (simp add: eligible_def)

lemma leastConnections_head:
  "leastConnections m (zip (eligible d (b # bs)) (map RetentionPeriod (eligible d (b # bs)))) (tb, ac) =
   leastConnections m (zip (eligible d bs) (map RetentionPeriod (eligible d bs)))
     (if candidateAt d m b \<and> ActiveConnections b < ac then (Some b, ActiveConnections b) else (tb, ac))"
  by (simp add: eligible_Cons candidateAt_def Let_def)

lemma leastConnections_reg:
  "leastConnections m (zip (eligible d bs) (map RetentionPeriod (eligible d bs))) (tb, ac) = (tb', ac') \<Longrightarrow>
     (\<forall>j < length bs. candidateAt d m (bs ! j) \<longrightarrow> ac' \<le> ActiveConnections (bs ! j)) \<and>
     ((tb' = tb \<and> ac' = ac) \<or>
      (\<exists>i < length bs. tb' = Some (bs ! i) \<and> candidateAt d m (bs ! i)
          \<and> ActiveConnections (bs ! i) = ac' \<and> ac' < ac
          \<and> (\<forall>j < i. candidateAt d m (bs ! j) \<longrightarrow> ac' < ActiveConnections (bs ! j))))"
proof (induction bs arbitrary: tb ac)
  case Nil
  then show ?case by (simp add: eligible_def)
next
  case (Cons b bs)
  let ?rest = "zip (eligible d bs) (map RetentionPeriod (eligible d bs))"
  show ?case
  proof (cases "candidateAt d m b \<and> ActiveConnections b < ac")
    case True
    then have rec: "leastConnections m ?rest (Some b, ActiveConnections b) = (tb', ac')"
      using Cons.prems by (simp add: leastConnections_head)
    from Cons.IH[OF rec] have
      all: "\<forall>j < length bs. candidateAt d m (bs ! j) \<longrightarrow> ac' \<le> ActiveConnections (bs ! j)" and
      dis: "(tb' = Some b \<and> ac' = ActiveConnections b) \<or>
        (\<exists>i < length bs. tb' = Some (bs ! i) \<and> candidateAt d m (bs ! i)
          \<and> ActiveConnections (bs ! i) = ac' \<and> ac' < ActiveConnections b
          \<and> (\<forall>j < i. candidateAt d m (bs ! j) \<longrightarrow> ac' < ActiveConnections (bs ! j)))"
      by auto
    from dis have le: "ac' \<le> ActiveConnections b" by auto
    have A: "\<forall>j < length (b # bs). candidateAt d m ((b # bs) ! j) \<longrightarrow> ac' \<le> ActiveConnections ((b # bs) ! j)"
      using all le by (auto simp: nth_Cons split: nat.splits)
    from dis have B: "\<exists>i < length (b # bs). tb' = Some ((b # bs) ! i) \<and> candidateAt d m ((b # bs) ! i)
          \<and> ActiveConnections ((b # bs) ! i) = ac' \<and> ac' < ac
          \<and> (\<forall>j < i. candidateAt d m ((b # bs) ! j) \<longrightarrow> ac' < ActiveConnections ((b # bs) ! j))"
    proof
      assume "tb' = Some b \<and> ac' = ActiveConnections b"
      then show ?thesis using True by (intro exI[of _ 0]) simp
    next
      assume "\<exists>i < length bs. tb' = Some (bs ! i) \<and> candidateAt d m (bs ! i)
          \<and> ActiveConnections (bs ! i) = ac' \<and> ac' < ActiveConnections b
          \<and> (\<forall>j < i. candidateAt d m (bs ! j) \<longrightarrow> ac' < ActiveConnections (bs ! j))"
      then obtain i where i: "i < length bs" "tb' = Some (bs ! i)" "candidateAt d m (bs ! i)"
        "ActiveConnections (bs ! i) = ac'" "ac' < ActiveConnections b"
        "\<forall>j < i. candidateAt d m (bs ! j) \<longrightarrow> ac' < ActiveConnections (bs ! j)" by blast
      show ?thesis
        using i True by (intro exI[of _ "Suc i"]) (auto simp: nth_Cons split: nat.splits)
    qed
    show ?thesis using A B by blast
  next
    case False
    then have "(if candidateAt d m b \<and> ActiveConnections b < ac then (Some b, ActiveConnections b) else (tb, ac)) = (tb, ac)"
      by auto
    then have rec: "leastConnections m ?rest (tb, ac) = (tb', ac')"
      using Cons.prems by (simp only: leastConnections_head)
    from Cons.IH[OF rec] have
      all: "\<forall>j < length bs. candidateAt d m (bs ! j) \<longrightarrow> ac' \<le> ActiveConnections (bs ! j)" and
      dis: "(tb' = tb \<and> ac' = ac) \<or>
        (\<exists>i < length bs. tb' = Some (bs ! i) \<and> candidateAt d m (bs ! i)
          \<and> ActiveConnections (bs ! i) = ac' \<and> ac' < ac
          \<and> (\<forall>j < i. candidateAt d m (bs ! j) \<longrightarrow> ac' < ActiveConnections (bs ! j)))"
      by auto
    from dis have le: "ac' \<le> ac" by auto
    have A: "\<forall>j < length (b # bs). candidateAt d m ((b # bs) ! j) \<longrightarrow> ac' \<le> ActiveConnections ((b # bs) ! j)"
      using all le False by (auto simp: nth_Cons split: nat.splits)
    from dis have B: "(tb' = tb \<and> ac' = ac) \<or> (\<exists>i < length (b # bs). tb' = Some ((b # bs) ! i) \<and> candidateAt d m ((b # bs) ! i)
          \<and> ActiveConnections ((b # bs) ! i) = ac' \<and> ac' < ac
          \<and> (\<forall>j < i. candidateAt d m ((b # bs) ! j) \<longrightarrow> ac' < ActiveConnections ((b # bs) ! j)))"
    proof
      assume "tb' = tb \<and> ac' = ac" then show ?thesis by simp
    next
      assume "\<exists>i < length bs. tb' = Some (bs ! i) \<and> candidateAt d m (bs ! i)
          \<and> ActiveConnections (bs ! i) = ac' \<and> ac' < ac
          \<and> (\<forall>j < i. candidateAt d m (bs ! j) \<longrightarrow> ac' < ActiveConnections (bs ! j))"
      then obtain i where i: "i < length bs" "tb' = Some (bs ! i)" "candidateAt d m (bs ! i)"
        "ActiveConnections (bs ! i) = ac'" "ac' < ac"
        "\<forall>j < i. candidateAt d m (bs ! j) \<longrightarrow> ac' < ActiveConnections (bs ! j)" by blast
      have "\<exists>i < length (b # bs). tb' = Some ((b # bs) ! i) \<and> candidateAt d m ((b # bs) ! i)
          \<and> ActiveConnections ((b # bs) ! i) = ac' \<and> ac' < ac
          \<and> (\<forall>j < i. candidateAt d m ((b # bs) ! j) \<longrightarrow> ac' < ActiveConnections ((b # bs) ! j))"
        using i False by (intro exI[of _ "Suc i"]) (auto simp: nth_Cons split: nat.splits)
      then show ?thesis by blast
    qed
    show ?thesis using A B by blast
  qed
qed

lemma Target_loop:
  assumes "s cid = Some bs" "eligible d bs \<noteq> []"
    and "\<forall>b \<in> set (eligible d bs). ActiveConnections b < MaxInt32"
  shows "Target s cid d =
     fst (leastConnections (Min (RetentionPeriod ` set (eligible d bs)))
            (zip (eligible d bs) (map RetentionPeriod (eligible d bs))) (None, MaxInt32))"
proof (cases "2 \<le> length (eligible d bs)")
  case True
  then show ?thesis using Target_many_eq[of s cid bs d] assms(1) by simp
next
  case False
  with assms(2) obtain b where b: "eligible d bs = [b]"
    by (cases "eligible d bs"; cases "tl (eligible d bs)") auto
  then have "b \<in> set (eligible d bs)" by simp
  then have "IsAlive b" "ActiveConnections b < MaxInt32"
    using eligible_alive[of b d bs] assms(3) by auto
  then show ?thesis using Target_single[of s cid bs d b] assms(1) b by simp
qed

lemma Target_eligible:
  assumes "Target s cid d = Some b"
  shows "\<exists>bs. s cid = Some bs \<and> b \<in> set (eligible d bs)"
proof (cases "s cid")
  case None
  with assms show ?thesis by (simp add: Target_unknown)
next
  case (Some bs)
  define E where "E = eligible d bs"
  have "b \<in> set E"
  proof (cases "2 \<le> length E")
    case True
    define xs where "xs = zip E (map RetentionPeriod E)"
    obtain tb' ac' where res:
      "leastConnections (Min (RetentionPeriod ` set E)) xs (None, MaxInt32) = (tb', ac')"
      by (cases "leastConnections (Min (RetentionPeriod ` set E)) xs (None, MaxInt32)")
    have "Target s cid d = tb'"
      using Target_many_eq[of s cid bs d] Some True res by (simp add: E_def xs_def)
    with assms have tb: "tb' = Some b" by simp
    from leastConnections_inv[OF res] tb obtain i where "i < length xs" "b = fst (xs ! i)" by auto
    then show ?thesis by (simp add: xs_def)
  next
    case False
    show ?thesis
    proof (cases E)
      case Nil
      with assms Some show ?thesis using Target_no_eligible[of s cid bs d] by (simp add: E_def)
    next
      case (Cons x xs)
      with False have "E = [x]" by (cases xs) auto
      then show ?thesis using Target_single[of s cid bs d x] Some assms by (simp add: E_def)
    qed
  qed
  with Some show ?thesis by (simp add: E_def)
qed

lemma Target_selection:
  "(\<forall>b. Target s cid d = Some b \<longrightarrow> IsAlive b \<and> d < RetentionPeriod b \<and> RetentionPeriod b \<noteq> d) \<and>
   (s cid = Some bs \<and> (\<exists>b \<in> set bs. IsAlive b \<and> d < RetentionPeriod b) \<and>
    (\<forall>b \<in> set bs. ActiveConnections b < MaxInt32) \<longrightarrow>
      (\<exists>i < length bs.
         Target s cid d = Some (bs ! i) \<and> IsAlive (bs ! i) \<and> d < RetentionPeriod (bs ! i) \<and>
         (\<forall>j < length bs. IsAlive (bs ! j) \<and> d < RetentionPeriod (bs ! j) \<longrightarrow>
            RetentionPeriod (bs ! i) \<le> RetentionPeriod (bs ! j) \<and>
            (RetentionPeriod (bs ! j) = RetentionPeriod (bs ! i) \<longrightarrow>
               ActiveConnections (bs ! i) \<le> ActiveConnections (bs ! j) \<and>
               (j < i \<longrightarrow> ActiveConnections (bs ! i) < ActiveConnections (bs ! j))))))"
proof (rule conjI)
  show "\<forall>b. Target s cid d = Some b \<longrightarrow> IsAlive b \<and> d < RetentionPeriod b \<and> RetentionPeriod b \<noteq> d"
  proof (intro allI impI)
    fix b assume "Target s cid d = Some b"
    from Target_eligible[OF this] eligible_alive[of b d]
    show "IsAlive b \<and> d < RetentionPeriod b \<and> RetentionPeriod b \<noteq> d" by auto
  qed
next
  show "s cid = Some bs \<and> (\<exists>b \<in> set bs. IsAlive b \<and> d < RetentionPeriod b) \<and>
    (\<forall>b \<in> set bs. ActiveConnections b < MaxInt32) \<longrightarrow>
      (\<exists>i < length bs.
         Target s cid d = Some (bs ! i) \<and> IsAlive (bs ! i) \<and> d < RetentionPeriod (bs ! i) \<and>
         (\<forall>j < length bs. IsAlive (bs ! j) \<and> d < RetentionPeriod (bs ! j) \<longrightarrow>
            RetentionPeriod (bs ! i) \<le> RetentionPeriod (bs ! j) \<and>
            (RetentionPeriod (bs ! j) = RetentionPeriod (bs ! i) \<longrightarrow>
               ActiveConnections (bs ! i) \<le> ActiveConnections (bs ! j) \<and>
               (j < i \<longrightarrow> ActiveConnections (bs ! i) < ActiveConnections (bs ! j)))))"
  proof (rule impI)
  assume a: "s cid = Some bs \<and> (\<exists>b \<in> set bs. IsAlive b \<and> d < RetentionPeriod b) \<and>
    (\<forall>b \<in> set bs. ActiveConnections b < MaxInt32)"
  define E where "E = eligible d bs"
  define m where "m = Min (RetentionPeriod ` set E)"
  have inE: "\<And>b. b \<in> set E \<longleftrightarrow> b \<in> set bs \<and> IsAlive b \<and> d < RetentionPeriod b"
    by (auto simp: E_def eligible_def)
  from a have ne: "E \<noteq> []" using inE by (metis empty_iff empty_set)
  have bound: "\<forall>b \<in> set E. ActiveConnections b < MaxInt32" using a inE by blast
  obtain tb' ac' where res: "leastConnections m (zip E (map RetentionPeriod E)) (None, MaxInt32) = (tb', ac')"
    by (cases "leastConnections m (zip E (map RetentionPeriod E)) (None, MaxInt32)")
  have T: "Target s cid d = tb'"
    using Target_loop[of s cid bs d] a ne bound res by (simp add: E_def m_def)
  from leastConnections_reg[OF res[unfolded E_def]] have
    all: "\<forall>j < length bs. candidateAt d m (bs ! j) \<longrightarrow> ac' \<le> ActiveConnections (bs ! j)" and
    dis: "(tb' = None \<and> ac' = MaxInt32) \<or>
      (\<exists>i < length bs. tb' = Some (bs ! i) \<and> candidateAt d m (bs ! i)
          \<and> ActiveConnections (bs ! i) = ac' \<and> ac' < MaxInt32
          \<and> (\<forall>j < i. candidateAt d m (bs ! j) \<longrightarrow> ac' < ActiveConnections (bs ! j)))"
    by auto
  have "m \<in> RetentionPeriod ` set E" unfolding m_def using ne by (intro Min_in) auto
  then obtain c where c: "c \<in> set E" "RetentionPeriod c = m" by auto
  then obtain k where k: "k < length bs" "bs ! k = c" using inE by (auto simp: in_set_conv_nth)
  have "candidateAt d m (bs ! k)" using c k inE by (simp add: candidateAt_def)
  with all k(1) have "ac' \<le> ActiveConnections c" using k(2) by auto
  moreover have "ActiveConnections c < MaxInt32" using bound c(1) by simp
  ultimately have "ac' \<noteq> MaxInt32" by simp
  with dis obtain i where i: "i < length bs" "tb' = Some (bs ! i)" "candidateAt d m (bs ! i)"
    "ActiveConnections (bs ! i) = ac'"
    "\<forall>j < i. candidateAt d m (bs ! j) \<longrightarrow> ac' < ActiveConnections (bs ! j)" by blast
  have minle: "\<And>j. j < length bs \<Longrightarrow> IsAlive (bs ! j) \<Longrightarrow> d < RetentionPeriod (bs ! j) \<Longrightarrow> m \<le> RetentionPeriod (bs ! j)"
  proof -
    fix j assume "j < length bs" "IsAlive (bs ! j)" "d < RetentionPeriod (bs ! j)"
    then have "bs ! j \<in> set E" using inE by simp
    then show "m \<le> RetentionPeriod (bs ! j)" unfolding m_def by simp
  qed
  have ri: "RetentionPeriod (bs ! i) = m" "IsAlive (bs ! i)" "d < RetentionPeriod (bs ! i)"
    using i(3) by (simp_all add: candidateAt_def)
  have "\<forall>j < length bs. IsAlive (bs ! j) \<and> d < RetentionPeriod (bs ! j) \<longrightarrow>
            RetentionPeriod (bs ! i) \<le> RetentionPeriod (bs ! j) \<and>
            (RetentionPeriod (bs ! j) = RetentionPeriod (bs ! i) \<longrightarrow>
               ActiveConnections (bs ! i) \<le> ActiveConnections (bs ! j) \<and>
               (j < i \<longrightarrow> ActiveConnections (bs ! i) < ActiveConnections (bs ! j)))"
  proof (intro allI impI)
    fix j assume j: "j < length bs" "IsAlive (bs ! j) \<and> d < RetentionPeriod (bs ! j)"
    have one: "RetentionPeriod (bs ! i) \<le> RetentionPeriod (bs ! j)" using minle j ri(1) by simp
    have two: "RetentionPeriod (bs ! j) = RetentionPeriod (bs ! i) \<longrightarrow>
               ActiveConnections (bs ! i) \<le> ActiveConnections (bs ! j) \<and>
               (j < i \<longrightarrow> ActiveConnections (bs ! i) < ActiveConnections (bs ! j))"
    proof
      assume "RetentionPeriod (bs ! j) = RetentionPeriod (bs ! i)"
      then have cj: "candidateAt d m (bs ! j)" using j(2) ri(1) by (simp add: candidateAt_def)
      then have "ac' \<le> ActiveConnections (bs ! j)" using all j(1) by simp
      moreover have "j < i \<Longrightarrow> ac' < ActiveConnections (bs ! j)" using i(5) cj by simp
      ultimately show "ActiveConnections (bs ! i) \<le> ActiveConnections (bs ! j) \<and>
               (j < i \<longrightarrow> ActiveConnections (bs ! i) < ActiveConnections (bs ! j))"
        using i(4) by simp
    qed
    from one two show "RetentionPeriod (bs ! i) \<le> RetentionPeriod (bs ! j) \<and>
            (RetentionPeriod (bs ! j) = RetentionPeriod (bs ! i) \<longrightarrow>
               ActiveConnections (bs ! i) \<le> ActiveConnections (bs ! j) \<and>
               (j < i \<longrightarrow> ActiveConnections (bs ! i) < ActiveConnections (bs ! j)))" by simp
  qed
  then show "\<exists>i < length bs.
         Target s cid d = Some (bs ! i) \<and> IsAlive (bs ! i) \<and> d < RetentionPeriod (bs ! i) \<and>
         (\<forall>j < length bs. IsAlive (bs ! j) \<and> d < RetentionPeriod (bs ! j) \<longrightarrow>
            RetentionPeriod (bs ! i) \<le> RetentionPeriod (bs ! j) \<and>
            (RetentionPeriod (bs ! j) = RetentionPeriod (bs ! i) \<longrightarrow>
               ActiveConnections (bs ! i) \<le> ActiveConnections (bs ! j) \<and>
               (j < i \<longrightarrow> ActiveConnections (bs ! i) < ActiveConnections (bs ! j))))"
    using i(1) T i(2) ri by blast
  qed
qed

text \<open>
  Claim C1. \<open>Target\<close> only ever returns a backend that is alive and whose retention
  period is strictly greater than the query window, so never one whose retention equals
  the window. When the cluster has such a backend, \<open>Target\<close> returns one of them: its
  retention period is the minimum over the eligible backends, among the eligible
  backends of that retention its active connections are the fewest, and every backend
  of that retention registered before it has strictly more. The count of active
  connections of a backend is taken to be below \<open>math.MaxInt32\<close>, which is all a
  running balancer can reach.
\<close>

theorem Target_selects:
  "(\<forall>b. Target s cid d = Some b \<longrightarrow> IsAlive b \<and> d < RetentionPeriod b \<and> RetentionPeriod b \<noteq> d) \<and>
   (s cid = Some bs \<and> (\<exists>b \<in> set bs. IsAlive b \<and> d < RetentionPeriod b) \<and>
    (\<forall>b \<in> set bs. ActiveConnections b < MaxInt32) \<longrightarrow>
      (\<exists>i < length bs.
         Target s cid d = Some (bs ! i) \<and> IsAlive (bs ! i) \<and> d < RetentionPeriod (bs ! i) \<and>
         (\<forall>j < length bs. IsAlive (bs ! j) \<and> d < RetentionPeriod (bs ! j) \<longrightarrow>
            RetentionPeriod (bs ! i) \<le> RetentionPeriod (bs ! j) \<and>
            (RetentionPeriod (bs ! j) = RetentionPeriod (bs ! i) \<longrightarrow>
               ActiveConnections (bs ! i) \<le> ActiveConnections (bs ! j) \<and>
               (j < i \<longrightarrow> ActiveConnections (bs ! i) < ActiveConnections (bs ! j))))))"
  by (rule Target_selection)

text \<open>
  The fifth scenario of the specification: two backends of 30d retention with 5 and 2
  active connections and a window of 1d; the second is returned.
\<close>

theorem Target_selects_witness:
  "poolTie ''c0'' = Some [tierBackend ''http://tsdb-a:9090'' 5, tierBackend ''http://tsdb-b:9090'' 2] \<and>
   (\<exists>b \<in> set [tierBackend ''http://tsdb-a:9090'' 5, tierBackend ''http://tsdb-b:9090'' 2].
       IsAlive b \<and> 86400000000000 < RetentionPeriod b) \<and>
   \<not> (\<exists>b \<in> set [tierBackend ''http://tsdb-a:9090'' 5, tierBackend ''http://tsdb-b:9090'' 2].
       MaxInt32 \<le> ActiveConnections b) \<and>
   Target poolTie ''c0'' 86400000000000 = Some (tierBackend ''http://tsdb-b:9090'' 2)"
proof -
  let ?bs = "[tierBackend ''http://tsdb-a:9090'' 5, tierBackend ''http://tsdb-b:9090'' 2]"
  have p: "poolTie ''c0'' = Some ?bs" by (simp add: poolTie_def Add_def)
  have e: "\<exists>b \<in> set ?bs. IsAlive b \<and> 86400000000000 < RetentionPeriod b"
    by (simp add: tierBackend_def)
  have b: "\<forall>b \<in> set ?bs. ActiveConnections b < MaxInt32"
    by (simp add: tierBackend_def MaxInt32_def)
  from Target_selects[of poolTie "''c0''" 86400000000000 ?bs] p e b
  obtain i where i: "i < length ?bs" "Target poolTie ''c0'' 86400000000000 = Some (?bs ! i)"
    "\<forall>j < length ?bs. IsAlive (?bs ! j) \<and> 86400000000000 < RetentionPeriod (?bs ! j) \<longrightarrow>
            RetentionPeriod (?bs ! i) \<le> RetentionPeriod (?bs ! j) \<and>
            (RetentionPeriod (?bs ! j) = RetentionPeriod (?bs ! i) \<longrightarrow>
               ActiveConnections (?bs ! i) \<le> ActiveConnections (?bs ! j) \<and>
               (j < i \<longrightarrow> ActiveConnections (?bs ! i) < ActiveConnections (?bs ! j)))"
    by blast
  from i(1) have "i = 0 \<or> i = 1" by auto
  moreover have "i \<noteq> 0"
  proof
    assume "i = 0"
    with i(3)[rule_format, of 1] show False by (simp add: tierBackend_def)
  qed
  ultimately have "i = 1" by simp
  with i(2) have "Target poolTie ''c0'' 86400000000000 = Some (tierBackend ''http://tsdb-b:9090'' 2)" by simp
  moreover have "\<not> (\<exists>b \<in> set ?bs. MaxInt32 \<le> ActiveConnections b)" using b by fastforce
  ultimately show ?thesis using p e by blast
qed

text \<open>
  Claim C9. A request without query parameters in its context is routed with the
  window zero: every alive backend of the cluster is then eligible, and when there is
  one the request is forwarded to an alive backend of the shortest retention period.
  The backends are as the data model has them: a retention period that names how far
  back the backend can answer, hence positive, and a count of active connections below
  \<open>math.MaxInt32\<close>.
\<close>

theorem zero_window_shortest_retention:
  assumes "queryParams r = None" and "s cid = Some bs"
    and "\<forall>b \<in> set bs. 0 < RetentionPeriod b \<and> ActiveConnections b < MaxInt32"
  shows "requestWindow r = 0 \<and>
         eligible (requestWindow r) bs = filter IsAlive bs \<and>
         ((\<exists>b \<in> set bs. IsAlive b) \<longrightarrow>
            (\<exists>b \<in> set bs. Serve (Target s cid) r = Forwarded b \<and> IsAlive b \<and>
               (\<forall>c \<in> set bs. IsAlive c \<longrightarrow> RetentionPeriod b \<le> RetentionPeriod c)))"
proof -
  have w: "requestWindow r = 0" using assms(1) by (simp add: requestWindow_def)
  have el: "eligible 0 bs = filter IsAlive bs"
    unfolding eligible_def using assms(3) by (intro filter_cong) auto
  have "(\<exists>b \<in> set bs. IsAlive b) \<longrightarrow>
            (\<exists>b \<in> set bs. Serve (Target s cid) r = Forwarded b \<and> IsAlive b \<and>
               (\<forall>c \<in> set bs. IsAlive c \<longrightarrow> RetentionPeriod b \<le> RetentionPeriod c))"
  proof
    assume "\<exists>b \<in> set bs. IsAlive b"
    then have ex: "\<exists>b \<in> set bs. IsAlive b \<and> 0 < RetentionPeriod b" using assms(3) by blast
    have bd: "\<forall>b \<in> set bs. ActiveConnections b < MaxInt32" using assms(3) by blast
    from Target_selection[of s cid 0 bs] assms(2) ex bd
    obtain i where i: "i < length bs" "Target s cid 0 = Some (bs ! i)" "IsAlive (bs ! i)"
      "\<forall>j < length bs. IsAlive (bs ! j) \<and> 0 < RetentionPeriod (bs ! j) \<longrightarrow>
            RetentionPeriod (bs ! i) \<le> RetentionPeriod (bs ! j)"
      by blast
    have "Serve (Target s cid) r = Forwarded (bs ! i)" using i(2) w by (simp add: Serve_window)
    moreover have "\<forall>c \<in> set bs. IsAlive c \<longrightarrow> RetentionPeriod (bs ! i) \<le> RetentionPeriod c"
    proof (intro ballI impI)
      fix c assume c: "c \<in> set bs" "IsAlive c"
      then obtain j where j: "j < length bs" "bs ! j = c" by (auto simp: in_set_conv_nth)
      have "0 < RetentionPeriod c" using assms(3) c(1) by blast
      with i(4) j c(2) show "RetentionPeriod (bs ! i) \<le> RetentionPeriod c" by auto
    qed
    ultimately show "\<exists>b \<in> set bs. Serve (Target s cid) r = Forwarded b \<and> IsAlive b \<and>
               (\<forall>c \<in> set bs. IsAlive c \<longrightarrow> RetentionPeriod b \<le> RetentionPeriod c)"
      using i(1,3) by (intro bexI[of _ "bs ! i"]) auto
  qed
  with w el show ?thesis by simp
qed

text \<open>A cold tier of 30d registered before a hot tier of 6h: the hot tier is chosen.\<close>

theorem zero_window_shortest_retention_witness:
  "queryParams \<lparr>queryParams = None\<rparr> = None \<and>
   poolTwoTiers ''c0'' = Some [coldBackend, hotBackend] \<and>
   \<not> (\<exists>b \<in> set [coldBackend, hotBackend]. RetentionPeriod b \<le> 0 \<or> MaxInt32 \<le> ActiveConnections b) \<and>
   eligible (requestWindow \<lparr>queryParams = None\<rparr>) [coldBackend, hotBackend] = [coldBackend, hotBackend] \<and>
   Serve (Target poolTwoTiers ''c0'') \<lparr>queryParams = None\<rparr> = Forwarded hotBackend"
proof -
  let ?bs = "[coldBackend, hotBackend]"
  have p: "poolTwoTiers ''c0'' = Some ?bs" by (simp add: poolTwoTiers_def Add_def)
  have h: "\<forall>b \<in> set ?bs. 0 < RetentionPeriod b \<and> ActiveConnections b < MaxInt32"
    by (simp add: coldBackend_def hotBackend_def MaxInt32_def)
  have al: "IsAlive coldBackend" "IsAlive hotBackend" by (simp_all add: coldBackend_def hotBackend_def)
  from zero_window_shortest_retention[of "\<lparr>queryParams = None\<rparr>" poolTwoTiers "''c0''" ?bs] p h al
  have el: "eligible (requestWindow \<lparr>queryParams = None\<rparr>) ?bs = ?bs"
    and ex: "\<exists>b \<in> set ?bs. Serve (Target poolTwoTiers ''c0'') \<lparr>queryParams = None\<rparr> = Forwarded b \<and>
               (\<forall>c \<in> set ?bs. IsAlive c \<longrightarrow> RetentionPeriod b \<le> RetentionPeriod c)"
    by auto
  from ex obtain b where b: "b \<in> set ?bs"
     "Serve (Target poolTwoTiers ''c0'') \<lparr>queryParams = None\<rparr> = Forwarded b"
     "\<forall>c \<in> set ?bs. IsAlive c \<longrightarrow> RetentionPeriod b \<le> RetentionPeriod c" by blast
  from b(3) al have "RetentionPeriod b \<le> RetentionPeriod hotBackend" by simp
  with b(1) have "b = hotBackend" by (auto simp: coldBackend_def hotBackend_def)
  moreover have "\<not> (\<exists>b \<in> set ?bs. RetentionPeriod b \<le> 0 \<or> MaxInt32 \<le> ActiveConnections b)"
    using h by fastforce
  ultimately show ?thesis using b(2) p el by simp
qed

subsection \<open>Outside the data model\<close>

text \<open>
  The two bounds on the backends are needed. The second loop starts its running minimum
  at \<open>math.MaxInt32\<close> and replaces it only by a strictly smaller count: two eligible
  backends that both report \<open>MaxInt32\<close> active connections are passed over.
\<close>

lemma Target_saturated_returns_none:
  "poolSaturated ''c0'' = Some [busyBackend ''http://tsdb-a:9090'', busyBackend ''http://tsdb-b:9090''] \<and>
   eligible 0 [busyBackend ''http://tsdb-a:9090'', busyBackend ''http://tsdb-b:9090'']
     = [busyBackend ''http://tsdb-a:9090'', busyBackend ''http://tsdb-b:9090''] \<and>
   Target poolSaturated ''c0'' 0 = None"
  by (simp add: poolSaturated_def Add_def busyBackend_def eligible_def Target_def MaxInt32_def)

text \<open>
  The comparison \<open>d < RetentionPeriod\<close> is strict: at the window zero a backend whose
  retention period is zero or negative is not eligible.
\<close>

lemma zero_window_nonpositive_retention:
  "poolNonPositive ''c0'' = Some [zeroRetentionBackend, negRetentionBackend] \<and>
   IsAlive zeroRetentionBackend \<and> IsAlive negRetentionBackend \<and>
   requestWindow \<lparr>queryParams = None\<rparr> = 0 \<and>
   eligible (requestWindow \<lparr>queryParams = None\<rparr>) [zeroRetentionBackend, negRetentionBackend] = [] \<and>
   Serve (Target poolNonPositive ''c0'') \<lparr>queryParams = None\<rparr>
     = HttpError 503 ''Service not available''"
  by (simp add: poolNonPositive_def Add_def zeroRetentionBackend_def negRetentionBackend_def
      requestWindow_def eligible_def Serve_window Target_def)

section \<open>Properties of the cpuset parser\<close>

lemma cpuLoop_returns:
  "e_end < MaxInt64 \<Longrightarrow> cpuLoop e e_end cs = Some (cs @ map Itoa [e..e_end])"
proof (induction "nat (e_end + 1 - e)" arbitrary: e cs)
  case 0
  then have "\<not> e \<le> e_end" by simp
  then show ?case by (subst cpuLoop.simps) simp
next
  case (Suc k)
  then have le: "e \<le> e_end" by linarith
  with Suc.prems have inc: "incInt64 e = e + 1" by (simp add: incInt64_def)
  have k: "k = nat (e_end + 1 - (e + 1))" using Suc.hyps(2) by linarith
  have "cpuLoop e e_end cs = cpuLoop (e + 1) e_end (cs @ [Itoa e])"
    using le inc by (subst cpuLoop.simps) simp
  also have "\<dots> = Some ((cs @ [Itoa e]) @ map Itoa [e + 1..e_end])"
    using Suc.hyps(1)[OF k Suc.prems] .
  also have "\<dots> = Some (cs @ map Itoa [e..e_end])"
    using le by (simp add: upto_rec1[of e e_end])
  finally show ?case .
qed

lemma parseRanges_wellformed:
  "allBounds rs = Some bs \<Longrightarrow> \<forall>(lo, hi) \<in> set bs. hi < MaxInt64 \<Longrightarrow>
   parseRanges rs st en cs = Some (Inr (cs @ map Itoa (expandBounds bs)))"
proof (induction rs arbitrary: bs st en cs)
  case Nil
  then show ?case by (simp add: expandBounds_def)
next
  case (Cons r rs)
  from Cons.prems(1) obtain b bs' where b: "pieceBounds r = Some b" "allBounds rs = Some bs'" "bs = b # bs'"
    by (auto split: option.splits)
  obtain lo hi where lh: "b = (lo, hi)" by (cases b)
  from Cons.prems(2) b(3) lh have hi: "hi < MaxInt64" and rest: "\<forall>(lo, hi) \<in> set bs'. hi < MaxInt64"
    by auto
  have IH: "\<And>st en cs. parseRanges rs st en cs = Some (Inr (cs @ map Itoa (expandBounds bs')))"
    using Cons.IH[OF b(2) rest] .
  have ex: "expandBounds bs = [lo..hi] @ expandBounds bs'"
    by (simp add: expandBounds_def b(3) lh)
  have loop: "cpuLoop lo hi cs = Some (cs @ map Itoa [lo..hi])"
    by (rule cpuLoop_returns[OF hi])
  from b(1) lh consider
      (one) a where "Split r (CHR ''-'') = [a]" "Atoi a = Inr lo" "hi = lo"
    | (two) a c where "Split r (CHR ''-'') = [a, c]" "Atoi a = Inr lo" "Atoi c = Inr hi"
    by (auto simp: pieceBounds_def split: list.splits sum.splits)
  then show ?case
  proof cases
    case one
    then show ?thesis using loop by (simp add: IH ex)
  next
    case two
    then show ?thesis using loop by (simp add: IH ex)
  qed
qed

lemma isDigit_digitVal: "isDigit c \<Longrightarrow> digitVal c \<le> 9"
  by (auto simp: isDigit_def digitVal_def)

lemma foldl_dec_bound:
  "list_all isDigit ds \<Longrightarrow> foldl (\<lambda>n c. n * 10 + digitVal c) a ds < (a + 1) * 10 ^ length ds"
proof (induction ds arbitrary: a)
  case Nil
  then show ?case by simp
next
  case (Cons d ds)
  then have d: "digitVal d \<le> 9" and ds: "list_all isDigit ds"
    by (simp_all add: isDigit_digitVal)
  have "foldl (\<lambda>n c. n * 10 + digitVal c) (a * 10 + digitVal d) ds
          < (a * 10 + digitVal d + 1) * 10 ^ length ds"
    by (rule Cons.IH[OF ds])
  also have "\<dots> \<le> (a * 10 + 10) * 10 ^ length ds"
    using d by (intro mult_right_mono) simp_all
  finally show ?case by (simp add: algebra_simps)
qed

lemma decToNat_bound: "list_all isDigit ds \<Longrightarrow> decToNat ds < 10 ^ length ds"
  using foldl_dec_bound[of ds 0] by (simp add: decToNat_def)

lemma Atoi_bound:
  assumes "Atoi s = Inr n"
  shows "n < 10 ^ length s"
proof (cases s)
  case Nil
  with assms show ?thesis by (simp add: Atoi_def)
next
  case (Cons c cs)
  define ds where "ds = (if c = CHR ''-'' \<or> c = CHR ''+'' then cs else s)"
  from assms Cons have dig: "list_all isDigit ds"
    and n: "n = (if c = CHR ''-'' then - int (decToNat ds) else int (decToNat ds))"
    by (auto simp: Atoi_def Let_def ds_def split: if_splits)
  have len: "length ds \<le> length s" by (simp add: ds_def Cons)
  have "int (decToNat ds) < 10 ^ length ds"
    using decToNat_bound[OF dig] by (metis of_nat_less_iff of_nat_numeral of_nat_power)
  also have "\<dots> \<le> 10 ^ length s" using len by (simp add: power_increasing)
  finally have up: "int (decToNat ds) < 10 ^ length s" .
  have neg: "- int (decToNat ds) \<le> int (decToNat ds)" by simp
  show ?thesis
  proof (cases "c = CHR ''-''")
    case True
    then have "n = - int (decToNat ds)" using n by simp
    then show ?thesis using up neg by linarith
  next
    case False
    then have "n = int (decToNat ds)" using n by simp
    then show ?thesis using up by linarith
  qed
qed

lemma Atoi_short:
  assumes "Atoi s = Inr n" "length s < 19"
  shows "n < MaxInt64"
proof -
  have "n < 10 ^ length s" by (rule Atoi_bound[OF assms(1)])
  also have "(10::int) ^ length s \<le> 10 ^ 18" using assms(2) by (intro power_increasing) simp_all
  also have "(10::int) ^ 18 < MaxInt64" by (simp add: MaxInt64_def)
  finally show ?thesis .
qed

lemma Split_nonempty: "Split s sep \<noteq> []"
  by (induction s) (auto split: list.splits)

lemma Split_length: "p \<in> set (Split s sep) \<Longrightarrow> length p \<le> length s"
proof (induction s arbitrary: p)
  case Nil
  then show ?case by simp
next
  case (Cons c cs)
  show ?case
  proof (cases "c = sep")
    case True
    with Cons show ?thesis by (auto intro: le_SucI)
  next
    case False
    with Cons.prems obtain q qs where q: "Split cs sep = q # qs" "p = c # q \<or> p \<in> set qs"
      using Split_nonempty[of cs sep] by (auto split: list.splits)
    then show ?thesis using Cons.IH[of q] Cons.IH[of p] by (auto intro: le_SucI)
  qed
qed

lemma cpuLoop_Some: "e_end < MaxInt64 \<Longrightarrow> \<exists>cs'. cpuLoop e e_end cs = Some cs'"
  by (simp add: cpuLoop_returns)

lemma parseRanges_returns:
  "en < MaxInt64 \<Longrightarrow> \<forall>r \<in> set rs. length r < 19 \<Longrightarrow> \<exists>res. parseRanges rs st en cs = Some res"
proof (induction rs arbitrary: st en cs)
  case Nil
  then show ?case by simp
next
  case (Cons r rs)
  have short: "\<And>p. p \<in> set (Split r (CHR ''-'')) \<Longrightarrow> length p < 19"
    using Split_length[of _ r "CHR ''-''"] Cons.prems(2) by fastforce
  have rest: "\<forall>r \<in> set rs. length r < 19" using Cons.prems(2) by simp
  have IH: "\<And>st en cs. en < MaxInt64 \<Longrightarrow> \<exists>res. parseRanges rs st en cs = Some res"
    using Cons.IH rest by blast
  have len1: "\<And>xs :: string list. length xs = 1 \<Longrightarrow> \<exists>a. xs = [a]"
    by (simp add: length_Suc_conv One_nat_def)
  have len2: "\<And>xs :: string list. length xs = 2 \<Longrightarrow> \<exists>a b. xs = [a, b]"
    by (auto simp: length_Suc_conv numeral_2_eq_2)
  consider (one) a where "Split r (CHR ''-'') = [a]"
    | (two) a b where "Split r (CHR ''-'') = [a, b]"
    | (other) "length (Split r (CHR ''-'')) \<noteq> 1" "length (Split r (CHR ''-'')) \<noteq> 2"
    using len1[of "Split r (CHR ''-'')"] len2[of "Split r (CHR ''-'')"] by blast
  then show ?case
  proof cases
    case one
    show ?thesis
    proof (cases "Atoi a")
      case (Inl e)
      with one show ?thesis by simp
    next
      case (Inr n)
      have n: "n < MaxInt64" using Atoi_short[OF Inr] short one by simp
      from IH[OF n] cpuLoop_returns[OF n] one Inr show ?thesis by simp
    qed
  next
    case two
    show ?thesis
    proof (cases "Atoi a")
      case (Inl e)
      with two show ?thesis by simp
    next
      case lo: (Inr lo)
      show ?thesis
      proof (cases "Atoi b")
        case (Inl e)
        with two lo show ?thesis by simp
      next
        case (Inr hi)
        have n: "hi < MaxInt64" using Atoi_short[OF Inr] short two by simp
        from IH[OF n] cpuLoop_returns[OF n] two lo Inr show ?thesis by simp
      qed
    qed
  next
    case other
    from IH[OF Cons.prems(1)] cpuLoop_returns[OF Cons.prems(1)] other show ?thesis
      by (simp add: Let_def)
  qed
qed

lemma parseCPUSet_returns:
  assumes "length s < 19"
  shows "\<exists>res. parseCPUSet s = Some res"
proof (cases "s = []")
  case True
  then show ?thesis by (simp add: parseCPUSet_def)
next
  case False
  have "\<forall>r \<in> set (Split s (CHR '','')). length r < 19"
    using Split_length[of _ s "CHR '',''"] assms by fastforce
  moreover have "(0::int) < MaxInt64" by (simp add: MaxInt64_def)
  ultimately show ?thesis using False parseRanges_returns[of 0 "Split s (CHR '','')" 0 "[]"]
    by (simp add: parseCPUSet_def)
qed

lemma TrimSuffixNL_length: "length (TrimSuffixNL s) \<le> length s"
  by (simp add: TrimSuffixNL_def)

lemma length_expandBounds:
  "int (length (expandBounds bs)) = (\<Sum>(lo, hi) \<leftarrow> bs. if lo \<le> hi then hi - lo + 1 else 0)"
  by (induction bs) (auto simp: expandBounds_def)

lemma set_expandBounds: "set (expandBounds bs) = cpusetDenotation bs"
  by (auto simp: expandBounds_def cpusetDenotation_def)

lemma distinct_expandBounds: "rangesDisjoint bs \<Longrightarrow> distinct (expandBounds bs)"
proof (induction bs)
  case Nil
  then show ?case by (simp add: expandBounds_def)
next
  case (Cons b bs)
  obtain lo hi where b: "b = (lo, hi)" by (cases b)
  from Cons.prems have tl: "rangesDisjoint bs"
    and hd: "\<forall>(lo', hi') \<in> set bs. hi < lo' \<or> hi' < lo \<or> hi < lo \<or> hi' < lo'"
    by (auto simp: rangesDisjoint_def b)
  have d: "distinct (expandBounds bs)" by (rule Cons.IH[OF tl])
  have "set [lo..hi] \<inter> set (expandBounds bs) = {}"
    using hd by (fastforce simp: set_expandBounds cpusetDenotation_def)
  then show ?case using d by (simp add: expandBounds_def b)
qed

lemma card_cpusetDenotation:
  "rangesDisjoint bs \<Longrightarrow> card (cpusetDenotation bs) = length (expandBounds bs)"
  using distinct_card[OF distinct_expandBounds] by (simp add: set_expandBounds)

lemma parseCPUSet_wellformed:
  assumes "cpusetBounds s = Some bs" "\<forall>(lo, hi) \<in> set bs. hi < MaxInt64"
  shows "parseCPUSet s = Some (Inr (map Itoa (expandBounds bs)))"
proof -
  from assms(1) have ne: "s \<noteq> []" and ab: "allBounds (Split s (CHR '','')) = Some bs"
    by (auto simp: cpusetBounds_def split: if_splits)
  show ?thesis using parseRanges_wellformed[OF ab assms(2), of 0 0 "[]"] ne
    by (simp add: parseCPUSet_def)
qed

subsection \<open>What the blocks of the readers leave alone\<close>

lemma v1CPU_frame [simp]: "path (v1CPU fl st m) = path m" "cpus (v1CPU fl st m) = cpus m" "err (v1CPU fl st m) = err m"
  by (simp_all add: v1CPU_def split: option.splits)

lemma v2CPU_frame [simp]: "path (v2CPU fl st m) = path m" "cpus (v2CPU fl st m) = cpus m" "err (v2CPU fl st m) = err m"
  by (simp_all add: v2CPU_def Let_def split: option.splits)

lemma v1Memory_frame [simp]: "path (v1Memory fl c st m) = path m" "cpus (v1Memory fl c st m) = cpus m" "err (v1Memory fl c st m) = err m"
  by (simp_all add: v1Memory_def v1MemoryUsage_def v1MemorySwap_def split: option.splits)

lemma v2Memory_frame [simp]: "path (v2Memory fl c st m) = path m" "cpus (v2Memory fl c st m) = cpus m" "err (v2Memory fl c st m) = err m"
  by (simp_all add: v2Memory_def Let_def split: option.splits)

lemma v2MemoryEvents_frame [simp]: "path (v2MemoryEvents fl st m) = path m" "cpus (v2MemoryEvents fl st m) = cpus m" "err (v2MemoryEvents fl st m) = err m"
  by (simp_all add: v2MemoryEvents_def split: option.splits)

lemma foldl_v1BytesStep_frame [simp]:
  "path (foldl (v1BytesStep fl c) m xs) = path m"
  "cpus (foldl (v1BytesStep fl c) m xs) = cpus m"
  "err (foldl (v1BytesStep fl c) m xs) = err m"
  by (induction xs arbitrary: m; simp add: v1BytesStep_def Let_def)+

lemma foldl_v1ReqsStep_frame [simp]:
  "path (foldl (v1ReqsStep fl c) m xs) = path m"
  "cpus (foldl (v1ReqsStep fl c) m xs) = cpus m"
  "err (foldl (v1ReqsStep fl c) m xs) = err m"
  by (induction xs arbitrary: m; simp add: v1ReqsStep_def Let_def)+

lemma foldl_v2IoStep_frame [simp]:
  "path (foldl (v2IoStep fl c) m xs) = path m"
  "cpus (foldl (v2IoStep fl c) m xs) = cpus m"
  "err (foldl (v2IoStep fl c) m xs) = err m"
  by (induction xs arbitrary: m; simp add: v2IoStep_def Let_def)+

lemma foldl_rdmaStep_frame [simp]:
  "path (foldl (rdmaStep fl) m xs) = path m"
  "cpus (foldl (rdmaStep fl) m xs) = cpus m"
  "err (foldl (rdmaStep fl) m xs) = err m"
  by (induction xs arbitrary: m; simp add: rdmaStep_def)+

lemma v1Blkio_frame [simp]: "path (v1Blkio fl c st m) = path m" "cpus (v1Blkio fl c st m) = cpus m" "err (v1Blkio fl c st m) = err m"
  by (simp_all add: v1Blkio_def split: option.splits)

lemma v2Io_frame [simp]: "path (v2Io fl c st m) = path m" "cpus (v2Io fl c st m) = cpus m" "err (v2Io fl c st m) = err m"
  by (simp_all add: v2Io_def Let_def split: option.splits)

lemma rdmaStats_frame [simp]: "path (rdmaStats fl r m) = path m" "cpus (rdmaStats fl r m) = cpus m" "err (rdmaStats fl r m) = err m"
  by (simp_all add: rdmaStats_def split: option.splits)

lemma update_cpus:
  assumes "statsAvailable c h (path m)" "getCPUs c h (path m) = Some (Inr cs)"
  shows "\<exists>m'. update fl c h m = Some m' \<and> cpus m' = int (length cs)"
proof (cases "mode c = Unified")
  case True
  with assms(1) obtain st where st: "cgroup2 h (path m) = Stats st"
    by (auto simp: statsAvailable_def split: cgstat.splits)
  have "setCPUs c h (v2CPU fl st m) = Some ((v2CPU fl st m)\<lparr>cpus := int (length cs)\<rparr>)"
    using assms(2) by (simp add: setCPUs_def)
  then show ?thesis using True st by (simp add: update_def statsV2_def)
next
  case False
  with assms(1) obtain st where st: "cgroup1 h (path m) = Stats st"
    by (auto simp: statsAvailable_def split: cgstat.splits)
  have "setCPUs c h (v1CPU fl st m) = Some ((v1CPU fl st m)\<lparr>cpus := int (length cs)\<rparr>)"
    using assms(2) by (simp add: setCPUs_def)
  then show ?thesis using False st by (simp add: update_def statsV1_def)
qed

lemma cgCPUs_sent:
  "MustNewConstMetric cgCPUs GaugeValue (float64_of fl (cpus m)) [manager c, hostname c, uuid m]
     \<in> set (sendUnit fl c m)"
  by (simp add: sendUnit_def)

text \<open>
  Claim C8, amended. When the statistics of the cgroup load and its cpuset file is
  readable and holds a comma-separated list of integers and inclusive ranges, none
  ending at the largest \<open>int\<close>, the reader returns and the \<open>cpus\<close> field is the
  total count after expanding every range, an integer being counted once for every
  piece that contains it; it is the cardinality of the denoted set when no two pieces
  share an integer. The field is what is sent as \<open>compute_unit_cpus\<close>.
\<close>

theorem cpus_expanded_count:
  assumes "statsAvailable c h (path m)"
    and "readFile h (cpusetPath c (path m)) = Contents cpusData"
    and "cpusetBounds (TrimSuffixNL cpusData) = Some bs"
    and "\<forall>(lo, hi) \<in> set bs. hi < MaxInt64"
  shows "\<exists>m'. update fl c h m = Some m' \<and>
           cpus m' = (\<Sum>(lo, hi) \<leftarrow> bs. if lo \<le> hi then hi - lo + 1 else 0) \<and>
           (rangesDisjoint bs \<longrightarrow> cpus m' = int (card (cpusetDenotation bs))) \<and>
           MustNewConstMetric cgCPUs GaugeValue (float64_of fl (cpus m')) [manager c, hostname c, uuid m']
             \<in> set (sendUnit fl c m')"
proof -
  have "getCPUs c h (path m) = Some (Inr (map Itoa (expandBounds bs)))"
    using assms(2) parseCPUSet_wellformed[OF assms(3,4)] by (simp add: getCPUs_def)
  from update_cpus[OF assms(1) this, of fl]
  obtain m' where m': "update fl c h m = Some m'" "cpus m' = int (length (expandBounds bs))"
    by auto
  have "cpus m' = (\<Sum>(lo, hi) \<leftarrow> bs. if lo \<le> hi then hi - lo + 1 else 0)"
    using m'(2) length_expandBounds by simp
  moreover have "rangesDisjoint bs \<longrightarrow> cpus m' = int (card (cpusetDenotation bs))"
    using m'(2) card_cpusetDenotation by simp
  ultimately show ?thesis using m'(1) cgCPUs_sent by blast
qed

lemma bounds_example:
  "cpusetBounds (TrimSuffixNL (''0-3,7,9-11'' @ [CHR 0x0A])) = Some [(0, 3), (7, 7), (9, 11)]"
  by code_simp

lemma bounds_overlap:
  "cpusetBounds (TrimSuffixNL (''0-3,2'' @ [CHR 0x0A])) = Some [(0, 3), (2, 2)]"
  by code_simp

text \<open>The cpuset \<open>0-3,7,9-11\<close> of the specification: eight CPUs.\<close>

theorem cpus_expanded_count_witness:
  "statsAvailable slurmV2 (cpusetHost (''0-3,7,9-11'' @ [CHR 0x0A])) (path (newMetric job42 ''42'')) \<and>
   cpusetBounds (TrimSuffixNL (''0-3,7,9-11'' @ [CHR 0x0A])) = Some [(0, 3), (7, 7), (9, 11)] \<and>
   rangesDisjoint [(0, 3), (7, 7), (9, 11)] \<and>
   (\<exists>m'. update exactFpu slurmV2 (cpusetHost (''0-3,7,9-11'' @ [CHR 0x0A])) (newMetric job42 ''42'') = Some m' \<and>
         cpus m' = 8 \<and> int (card (cpusetDenotation [(0, 3), (7, 7), (9, 11)])) = 8)"
proof -
  let ?h = "cpusetHost (''0-3,7,9-11'' @ [CHR 0x0A])"
  let ?m = "newMetric job42 ''42''"
  have a: "statsAvailable slurmV2 ?h (path ?m)"
    by (simp add: statsAvailable_def slurmV2_def cpusetHost_def newMetric_def)
  have f: "readFile ?h (cpusetPath slurmV2 (path ?m)) = Contents (''0-3,7,9-11'' @ [CHR 0x0A])"
    by (simp add: cpusetPath_def slurmV2_def cpusetHost_def newMetric_def job42_def)
  have b: "\<forall>(lo, hi) \<in> set [(0, 3), (7, 7), (9, 11)]. hi < MaxInt64"
    by (simp add: MaxInt64_def)
  have d: "rangesDisjoint [(0, 3), (7, 7), (9, 11)]"
    by (simp add: rangesDisjoint_def)
  from cpus_expanded_count[OF a f bounds_example b, of exactFpu] d
  show ?thesis using a bounds_example by auto
qed

text \<open>
  Claim C8, as stated, fails on overlapping pieces: the cpuset \<open>0-3,2\<close> is readable
  and parses, \<open>parseCPUSet\<close> returns five entries and \<open>cpus\<close> is 5, while the set
  the expression denotes has four elements.
\<close>

theorem cpus_overlap_counterexample:
  "statsAvailable slurmV2 (cpusetHost (''0-3,2'' @ [CHR 0x0A])) job42 \<and>
   getCPUs slurmV2 (cpusetHost (''0-3,2'' @ [CHR 0x0A])) job42 = Some (Inr [''0'', ''1'', ''2'', ''3'', ''2'']) \<and>
   map_option cpus (update exactFpu slurmV2 (cpusetHost (''0-3,2'' @ [CHR 0x0A])) (newMetric job42 ''42'')) = Some 5 \<and>
   cpusetBounds (TrimSuffixNL (''0-3,2'' @ [CHR 0x0A])) = Some [(0, 3), (2, 2)] \<and>
   cpusetDenotation [(0, 3), (2, 2)] = {0, 1, 2, 3} \<and>
   card (cpusetDenotation [(0, 3), (2, 2)]) = 4"
proof -
  let ?h = "cpusetHost (''0-3,2'' @ [CHR 0x0A])"
  have a: "statsAvailable slurmV2 ?h job42"
    by (simp add: statsAvailable_def slurmV2_def cpusetHost_def)
  have p: "parseCPUSet (TrimSuffixNL (''0-3,2'' @ [CHR 0x0A])) = Some (Inr [''0'', ''1'', ''2'', ''3'', ''2''])"
    by code_simp
  have g: "getCPUs slurmV2 ?h job42 = Some (Inr [''0'', ''1'', ''2'', ''3'', ''2''])"
    using p by (simp add: getCPUs_def cpusetPath_def slurmV2_def cpusetHost_def job42_def)
  have pm: "path (newMetric job42 ''42'') = job42" by (simp add: newMetric_def)
  from update_cpus[of slurmV2 ?h "newMetric job42 ''42''" _ exactFpu] a g pm
  have u: "map_option cpus (update exactFpu slurmV2 ?h (newMetric job42 ''42'')) = Some 5"
    by auto
  have "{0..3::int} = {0, 1, 2, 3}" by auto
  then have s: "cpusetDenotation [(0, 3), (2, 2)] = {0, 1, 2, 3}"
    by (auto simp: cpusetDenotation_def)
  show ?thesis using a g u bounds_overlap s by simp
qed

subsection \<open>A range that ends at the largest \<open>int\<close>\<close>

text \<open>
  The inner loop does not return when \<open>end\<close> is the largest \<open>int\<close>: \<open>parseCPUSet\<close>
  has no result on such a cpuset.
\<close>

lemma incInt64_range: "MinInt64 \<le> e \<Longrightarrow> e \<le> MaxInt64 \<Longrightarrow> MinInt64 \<le> incInt64 e \<and> incInt64 e \<le> MaxInt64"
  by (simp add: incInt64_def MinInt64_def MaxInt64_def)

lemma cpuLoop_no_result:
  assumes "cpuLoop e e_end cs = Some y"
  shows "\<not> (e_end = MaxInt64 \<and> MinInt64 \<le> e \<and> e \<le> MaxInt64)"
proof (rule cpuLoop.raw_induct[where P = "\<lambda>a b c y. \<not> (b = MaxInt64 \<and> MinInt64 \<le> a \<and> a \<le> MaxInt64)"])
  fix f :: "int \<Rightarrow> int \<Rightarrow> string list \<Rightarrow> string list option" and a b :: int and c y' :: "string list"
  assume IH: "\<And>a b c y. f a b c = Some y \<Longrightarrow> \<not> (b = MaxInt64 \<and> MinInt64 \<le> a \<and> a \<le> MaxInt64)"
    and step: "(if a \<le> b then f (incInt64 a) b (c @ [Itoa a]) else Some c) = Some y'"
  show "\<not> (b = MaxInt64 \<and> MinInt64 \<le> a \<and> a \<le> MaxInt64)"
  proof
    assume r: "b = MaxInt64 \<and> MinInt64 \<le> a \<and> a \<le> MaxInt64"
    with step have "f (incInt64 a) b (c @ [Itoa a]) = Some y'" by simp
    from IH[OF this] r incInt64_range[of a] show False by blast
  qed
next
  show "cpuLoop e e_end cs = Some y" by (rule assms)
qed

lemma cpuLoop_diverges:
  "MinInt64 \<le> e \<Longrightarrow> e \<le> MaxInt64 \<Longrightarrow> cpuLoop e MaxInt64 cs = None"
  using cpuLoop_no_result[of e MaxInt64 cs] by (cases "cpuLoop e MaxInt64 cs") auto

lemma Atoi_MaxInt64: "Atoi ''9223372036854775807'' = Inr MaxInt64"
  by (simp add: Atoi_def isDigit_def decToNat_def digitVal_def MaxInt64_def MinInt64_def)

lemma parseCPUSet_diverges: "parseCPUSet ''0-9223372036854775807'' = None"
proof -
  have s: "Split ''0-9223372036854775807'' (CHR '','') = [''0-9223372036854775807'']"
    "Split ''0-9223372036854775807'' (CHR ''-'') = [''0'', ''9223372036854775807'']"
    by simp_all
  have z: "Atoi ''0'' = Inr 0"
    by (simp add: Atoi_def isDigit_def decToNat_def digitVal_def MaxInt64_def MinInt64_def)
  have "cpuLoop 0 MaxInt64 [] = None"
    by (rule cpuLoop_diverges) (simp_all add: MinInt64_def MaxInt64_def)
  then show ?thesis
    unfolding parseCPUSet_def by (simp add: s z Atoi_MaxInt64 del: Split.simps)
qed

section \<open>Properties of the exposition\<close>

lemma rdma_update:
  "update exactFpu slurmV2 rdmaHost (newMetric job42 ''42'') =
     Some ((newMetric job42 ''42'')\<lparr>rdmaHCAHandles := [(''mlx5_0'', 2)], rdmaHCAObjects := [(''mlx5_0'', 5)]\<rparr>)"
  by (simp add: update_def statsV2_def slurmV2_def rdmaHost_def newMetric_def job42_def rdmaStats2_def
      v2CPU_def setCPUs_def getCPUs_def v2Memory_def v2MemoryEvents_def v2Io_def rdmaStats_def rdmaStep_def
      exactFpu_def)

text \<open>
  Claim C6. The objects metric of a device should carry the device's object count. The
  readers store handles and objects in two maps, but the loop of \<open>Update\<close> that sends
  \<open>cgRDMAHCAObjects\<close> ranges over \<open>m.rdmaHCAHandles\<close> again: for a device with 2
  handles and 5 objects both metric families are sent with the value 2.
\<close>

theorem rdma_objects_sent_as_handles:
  "map_option rdmaHCAHandles (update exactFpu slurmV2 rdmaHost (newMetric job42 ''42'')) = Some [(''mlx5_0'', 2)] \<and>
   map_option rdmaHCAObjects (update exactFpu slurmV2 rdmaHost (newMetric job42 ''42'')) = Some [(''mlx5_0'', 5)] \<and>
   map_option (filter isRdmaDesc) (Update exactFpu slurmV2 rdmaHost [newMetric job42 ''42'']) =
     Some [\<lparr>desc = cgRDMAHCAHandles, valueType = GaugeValue, val = 2, labelValues = [''slurm'', ''node1'', ''42'', ''mlx5_0'']\<rparr>,
           \<lparr>desc = cgRDMAHCAObjects, valueType = GaugeValue, val = 2, labelValues = [''slurm'', ''node1'', ''42'', ''mlx5_0'']\<rparr>]"
proof -
  let ?m' = "(newMetric job42 ''42'')\<lparr>rdmaHCAHandles := [(''mlx5_0'', 2)], rdmaHCAObjects := [(''mlx5_0'', 5)]\<rparr>"
  have sent: "Update exactFpu slurmV2 rdmaHost [newMetric job42 ''42''] =
      Some (MustNewConstMetric numCgs GaugeValue (float64_of exactFpu 1) [manager slurmV2, hostname slurmV2]
            # sendUnit exactFpu slurmV2 ?m')"
    by (simp add: Update_def rdma_update)
  have rdma: "filter isRdmaDesc
      (MustNewConstMetric numCgs GaugeValue (float64_of exactFpu 1) [manager slurmV2, hostname slurmV2]
            # sendUnit exactFpu slurmV2 ?m') =
     [\<lparr>desc = cgRDMAHCAHandles, valueType = GaugeValue, val = 2, labelValues = [''slurm'', ''node1'', ''42'', ''mlx5_0'']\<rparr>,
      \<lparr>desc = cgRDMAHCAObjects, valueType = GaugeValue, val = 2, labelValues = [''slurm'', ''node1'', ''42'', ''mlx5_0'']\<rparr>]"
    by (simp add: sendUnit_def isRdmaDesc_def MustNewConstMetric_def rdmaSend_def newMetric_def slurmV2_def)
  show ?thesis
    unfolding rdma_update sent option.map rdma by simp
qed

lemma full_getCPUs:
  "getCPUs slurmV2 fullHost job42 = Some (Inr [''0'', ''1'', ''2'', ''3''])"
proof -
  have "parseCPUSet (TrimSuffixNL (''0-3'' @ [CHR 0x0A])) = Some (Inr [''0'', ''1'', ''2'', ''3''])"
    by code_simp
  then show ?thesis
    by (simp add: getCPUs_def cpusetPath_def slurmV2_def fullHost_def job42_def)
qed

lemma full_devName: "devName slurmV2 8 0 = ''sda''"
  by (simp add: devName_def devKey_def slurmV2_def digitChar_def)

lemma full_memInfo:
  "memInfo slurmV2 ''MemTotal_bytes'' = 16777216000" "memInfo slurmV2 ''SwapTotal_bytes'' = 4194304000"
  by (simp_all add: memInfo_def slurmV2_def)

lemma full_update:
  "update exactFpu slurmV2 fullHost (newMetric job42 ''42'') = Some fullMetric"
proof -
  have m: "mode slurmV2 = Unified" by (simp add: slurmV2_def)
  have l: "cgroup2 fullHost (path (newMetric job42 ''42'')) = Stats fullStats2"
    by (simp add: fullHost_def newMetric_def)
  have p: "path (newMetric job42 ''42'') = job42"
    by (simp add: newMetric_def)
  have s: "setCPUs slurmV2 fullHost (v2CPU exactFpu fullStats2 (newMetric job42 ''42'')) =
      Some ((v2CPU exactFpu fullStats2 (newMetric job42 ''42''))\<lparr>cpus := 4\<rparr>)"
    by (simp add: setCPUs_def p full_getCPUs)
  have "update exactFpu slurmV2 fullHost (newMetric job42 ''42'') =
      Some (rdmaStats exactFpu (s2_Rdma fullStats2)
             (v2Io exactFpu slurmV2 fullStats2
               (v2MemoryEvents exactFpu fullStats2
                 (v2Memory exactFpu slurmV2 fullStats2
                    ((v2CPU exactFpu fullStats2 (newMetric job42 ''42''))\<lparr>cpus := 4\<rparr>)))))"
    by (simp add: update_def statsV2_def m l s)
  also have "\<dots> = Some fullMetric"
    by (simp add: v2CPU_def v2Memory_def v2MemoryEvents_def v2Io_def v2IoStep_def rdmaStats_def rdmaStep_def
          fullStats2_def newMetric_def fullMetric_def exactFpu_def fullTotal_def full_devName full_memInfo
          MaxUint64_def job42_def Let_def)
  finally show ?thesis .
qed

lemma full_Update:
  "Update exactFpu slurmV2 fullHost [newMetric job42 ''42''] = Some fullSamples"
proof -
  have "Update exactFpu slurmV2 fullHost [newMetric job42 ''42''] =
      Some (MustNewConstMetric numCgs GaugeValue (float64_of exactFpu 1) [manager slurmV2, hostname slurmV2]
            # sendUnit exactFpu slurmV2 fullMetric)"
    by (simp add: Update_def full_update)
  also have "\<dots> = Some fullSamples"
    by (simp add: sendUnit_def MustNewConstMetric_def rdmaSend_def blkioSends_def sendIfPositive_def
        fullMetric_def slurmV2_def fullSamples_def exactFpu_def)
  finally show ?thesis .
qed

lemma sendIfPositive_positive: "s \<in> set (sendIfPositive c m d tab device) \<Longrightarrow> 0 < val s"
  by (auto simp: sendIfPositive_def MustNewConstMetric_def split: option.splits if_splits)

lemma rdmaSend_positive: "s \<in> set (rdmaSend c m d entry) \<Longrightarrow> 0 < val s"
  by (auto simp: rdmaSend_def MustNewConstMetric_def split: prod.splits if_splits)

lemma blkioSends_positive: "s \<in> set (blkioSends c m device) \<Longrightarrow> 0 < val s"
  by (auto simp: blkioSends_def dest: sendIfPositive_positive)

lemma sendUnit_perDevice_positive:
  assumes "s \<in> set (sendUnit fl c m)" "isPerDevice (desc s)"
  shows "0 < val s"
proof -
  from assms(1) consider
      (fixed) "\<not> isPerDevice (desc s)"
    | (blk) device where "s \<in> set (blkioSends c m device)"
    | (rdma) d entry where "s \<in> set (rdmaSend c m d entry)"
    unfolding sendUnit_def
    by (auto simp: MustNewConstMetric_def isPerDevice_def split: if_splits)
  then show ?thesis
  proof cases
    case fixed
    with assms(2) show ?thesis by simp
  next
    case blk
    then show ?thesis by (rule blkioSends_positive)
  next
    case rdma
    then show ?thesis by (rule rdmaSend_positive)
  qed
qed

lemma unitSamples_sent: "set (unitSamples fl c m) \<subseteq> set (sendUnit fl c m)"
  by (simp add: unitSamples_def sendUnit_def MustNewConstMetric_def)

lemma doUpdate_list_all2:
  "doUpdate fl c h metrics = Some ms \<Longrightarrow> list_all2 (\<lambda>m m'. update fl c h m = Some m') metrics ms"
  by (induction metrics arbitrary: ms) (auto split: option.splits)

lemma Update_Some:
  assumes "Update fl c h metrics = Some samples"
  shows "\<exists>ms. doUpdate fl c h metrics = Some ms \<and>
           samples = MustNewConstMetric numCgs GaugeValue (float64_of fl (int (length ms))) [manager c, hostname c]
                       # concat (map (sendUnit fl c) ms)"
  using assms by (auto simp: Update_def split: option.splits)

text \<open>What a returning \<open>Update\<close> sends.\<close>

lemma Update_samples:
  assumes "Update fl c h metrics = Some samples"
  shows "(\<forall>s \<in> set samples. isPerDevice (desc s) \<longrightarrow> 0 < val s) \<and>
         (\<exists>ms. list_all2 (\<lambda>m m'. update fl c h m = Some m') metrics ms \<and>
               (\<forall>m' \<in> set ms. set (unitSamples fl c m') \<subseteq> set samples))"
proof -
  from Update_Some[OF assms] obtain ms where
    ms: "doUpdate fl c h metrics = Some ms"
    and samples: "samples = MustNewConstMetric numCgs GaugeValue (float64_of fl (int (length ms))) [manager c, hostname c]
                       # concat (map (sendUnit fl c) ms)"
    by blast
  have pos: "\<forall>s \<in> set samples. isPerDevice (desc s) \<longrightarrow> 0 < val s"
  proof (intro ballI impI)
    fix s assume s: "s \<in> set samples" "isPerDevice (desc s)"
    then have "s \<noteq> MustNewConstMetric numCgs GaugeValue (float64_of fl (int (length ms))) [manager c, hostname c]"
      by (auto simp: MustNewConstMetric_def isPerDevice_def)
    with s(1) samples obtain m' where "m' \<in> set ms" "s \<in> set (sendUnit fl c m')" by auto
    then show "0 < val s" using sendUnit_perDevice_positive s(2) by blast
  qed
  have "\<forall>m' \<in> set ms. set (unitSamples fl c m') \<subseteq> set samples"
    using unitSamples_sent samples by fastforce
  with pos doUpdate_list_all2[OF ms] show ?thesis by blast
qed
section \<open>Properties of the stats readers\<close>

lemma foldl_v1BytesStep_mem [simp]:
  "memoryTotal (foldl (v1BytesStep fl c) m xs) = memoryTotal m"
  "memswTotal (foldl (v1BytesStep fl c) m xs) = memswTotal m"
  by (induction xs arbitrary: m; simp add: v1BytesStep_def Let_def)+

lemma foldl_v1ReqsStep_mem [simp]:
  "memoryTotal (foldl (v1ReqsStep fl c) m xs) = memoryTotal m"
  "memswTotal (foldl (v1ReqsStep fl c) m xs) = memswTotal m"
  by (induction xs arbitrary: m; simp add: v1ReqsStep_def Let_def)+

lemma foldl_v2IoStep_mem [simp]:
  "memoryTotal (foldl (v2IoStep fl c) m xs) = memoryTotal m"
  "memswTotal (foldl (v2IoStep fl c) m xs) = memswTotal m"
  by (induction xs arbitrary: m; simp add: v2IoStep_def Let_def)+

lemma foldl_rdmaStep_mem [simp]:
  "memoryTotal (foldl (rdmaStep fl) m xs) = memoryTotal m"
  "memswTotal (foldl (rdmaStep fl) m xs) = memswTotal m"
  by (induction xs arbitrary: m; simp add: rdmaStep_def)+

lemma later_blocks_mem [simp]:
  "memoryTotal (v1Blkio fl c st1 m) = memoryTotal m" "memswTotal (v1Blkio fl c st1 m) = memswTotal m"
  "memoryTotal (v2Io fl c st2 m) = memoryTotal m" "memswTotal (v2Io fl c st2 m) = memswTotal m"
  "memoryTotal (v2MemoryEvents fl st2 m) = memoryTotal m" "memswTotal (v2MemoryEvents fl st2 m) = memswTotal m"
  "memoryTotal (rdmaStats fl r m) = memoryTotal m" "memswTotal (rdmaStats fl r m) = memswTotal m"
  by (simp_all add: v1Blkio_def v2Io_def v2MemoryEvents_def rdmaStats_def Let_def split: option.splits)

lemma v2Memory_totals:
  "s2_Memory st = Some mem \<Longrightarrow>
     memoryTotal (v2Memory fl c st m) = amendedMemoryTotal fl c (m2_UsageLimit mem) \<and>
     memswTotal (v2Memory fl c st m) = amendedMemswTotal fl c (m2_SwapLimit mem)"
  by (auto simp: v2Memory_def Let_def amendedMemoryTotal_def amendedMemswTotal_def split: option.splits)

lemma v1Memory_totals:
  "s1_Memory st = Some mem \<Longrightarrow>
     (\<forall>u. m1_Usage mem = Some u \<longrightarrow> memoryTotal (v1Memory fl c st m) = amendedMemoryTotal fl c (me_Limit u)) \<and>
     (\<forall>sw. m1_Swap mem = Some sw \<longrightarrow> memswTotal (v1Memory fl c st m) = amendedMemswTotal fl c (me_Limit sw))"
  by (auto simp: v1Memory_def v1MemoryUsage_def v1MemorySwap_def amendedMemoryTotal_def amendedMemswTotal_def
           split: option.splits)

lemma memory_samples_sent:
  "\<lparr>desc = cgMemoryTotal, valueType = GaugeValue, val = memoryTotal m,
     labelValues = [manager c, hostname c, uuid m]\<rparr> \<in> set (sendUnit fl c m)"
  "collectSwapMemStats (opts c) \<Longrightarrow>
   \<lparr>desc = cgMemswTotal, valueType = GaugeValue, val = memswTotal m,
     labelValues = [manager c, hostname c, uuid m]\<rparr> \<in> set (sendUnit fl c m)"
  by (simp_all add: sendUnit_def MustNewConstMetric_def)

lemma update_Unified:
  assumes "mode c = Unified" "cgroup2 h (path m) = Stats st" "update fl c h m = Some m'"
  shows "\<exists>m0. setCPUs c h (v2CPU fl st m) = Some m0 \<and>
           m' = rdmaStats fl (s2_Rdma st) (v2Io fl c st (v2MemoryEvents fl st (v2Memory fl c st m0)))"
  using assms by (auto simp: update_def statsV2_def split: option.splits)

lemma update_Legacy:
  assumes "mode c \<noteq> Unified" "cgroup1 h (path m) = Stats st" "update fl c h m = Some m'"
  shows "\<exists>m0. setCPUs c h (v1CPU fl st m) = Some m0 \<and>
           m' = rdmaStats fl (s1_Rdma st) (v1Blkio fl c st (v1Memory fl c st m0))"
  using assms by (auto simp: update_def statsV1_def split: option.splits)

text \<open>
  Claim C4, amended. In either cgroup mode, when the read returns and the memory
  statistics are there: for a memory limit equal to \<open>math.MaxUint64\<close>,
  \<open>memoryTotal\<close> is the host's \<open>MemTotal\<close> if that is positive and the limit itself
  otherwise; for a swap limit equal to \<open>math.MaxUint64\<close>, \<open>memswTotal\<close> is the host's
  \<open>SwapTotal\<close> if positive, else its \<open>MemTotal\<close> if positive, else the limit itself;
  any other limit is passed through unchanged. The two fields are the values sent as
  \<open>compute_unit_memory_total_bytes\<close> and, when swap statistics are collected,
  \<open>compute_unit_memsw_total_bytes\<close>.
\<close>

theorem memory_limit_sentinel:
  assumes "update fl c h m = Some m'"
  shows "(\<forall>st mem. mode c = Unified \<and> cgroup2 h (path m) = Stats st \<and> s2_Memory st = Some mem \<longrightarrow>
            memoryTotal m' = amendedMemoryTotal fl c (m2_UsageLimit mem) \<and>
            memswTotal m' = amendedMemswTotal fl c (m2_SwapLimit mem)) \<and>
         (\<forall>st mem. mode c \<noteq> Unified \<and> cgroup1 h (path m) = Stats st \<and> s1_Memory st = Some mem \<longrightarrow>
            (\<forall>u. m1_Usage mem = Some u \<longrightarrow> memoryTotal m' = amendedMemoryTotal fl c (me_Limit u)) \<and>
            (\<forall>sw. m1_Swap mem = Some sw \<longrightarrow> memswTotal m' = amendedMemswTotal fl c (me_Limit sw))) \<and>
         \<lparr>desc = cgMemoryTotal, valueType = GaugeValue, val = memoryTotal m',
            labelValues = [manager c, hostname c, uuid m']\<rparr> \<in> set (sendUnit fl c m') \<and>
         (collectSwapMemStats (opts c) \<longrightarrow>
            \<lparr>desc = cgMemswTotal, valueType = GaugeValue, val = memswTotal m',
               labelValues = [manager c, hostname c, uuid m']\<rparr> \<in> set (sendUnit fl c m'))"
proof -
  have v2: "\<forall>st mem. mode c = Unified \<and> cgroup2 h (path m) = Stats st \<and> s2_Memory st = Some mem \<longrightarrow>
            memoryTotal m' = amendedMemoryTotal fl c (m2_UsageLimit mem) \<and>
            memswTotal m' = amendedMemswTotal fl c (m2_SwapLimit mem)"
  proof (intro allI impI)
    fix st mem
    assume a: "mode c = Unified \<and> cgroup2 h (path m) = Stats st \<and> s2_Memory st = Some mem"
    with update_Unified[of c h m st fl m'] assms obtain m0 where
      "m' = rdmaStats fl (s2_Rdma st) (v2Io fl c st (v2MemoryEvents fl st (v2Memory fl c st m0)))"
      by blast
    then show "memoryTotal m' = amendedMemoryTotal fl c (m2_UsageLimit mem) \<and>
            memswTotal m' = amendedMemswTotal fl c (m2_SwapLimit mem)"
      using v2Memory_totals[of st mem fl c m0] a by simp
  qed
  have v1: "\<forall>st mem. mode c \<noteq> Unified \<and> cgroup1 h (path m) = Stats st \<and> s1_Memory st = Some mem \<longrightarrow>
            (\<forall>u. m1_Usage mem = Some u \<longrightarrow> memoryTotal m' = amendedMemoryTotal fl c (me_Limit u)) \<and>
            (\<forall>sw. m1_Swap mem = Some sw \<longrightarrow> memswTotal m' = amendedMemswTotal fl c (me_Limit sw))"
  proof (intro allI impI)
    fix st mem
    assume a: "mode c \<noteq> Unified \<and> cgroup1 h (path m) = Stats st \<and> s1_Memory st = Some mem"
    with update_Legacy[of c h m st fl m'] assms obtain m0 where
      "m' = rdmaStats fl (s1_Rdma st) (v1Blkio fl c st (v1Memory fl c st m0))"
      by blast
    then show "(\<forall>u. m1_Usage mem = Some u \<longrightarrow> memoryTotal m' = amendedMemoryTotal fl c (me_Limit u)) \<and>
            (\<forall>sw. m1_Swap mem = Some sw \<longrightarrow> memswTotal m' = amendedMemswTotal fl c (me_Limit sw))"
      using v1Memory_totals[of st mem fl c m0] a by simp
  qed
  show ?thesis using v1 v2 memory_samples_sent[where m=m' and c=c and fl=fl] by blast
qed

lemma legacy_update:
  "update exactFpu slurmV1 legacyHost (newMetric job211 ''211'') = Some legacyMetric"
proof -
  have m: "mode slurmV1 \<noteq> Unified" by (simp add: slurmV1_def)
  have l: "cgroup1 legacyHost (path (newMetric job211 ''211'')) = Stats legacyStats"
    by (simp add: legacyHost_def newMetric_def)
  have s: "setCPUs slurmV1 legacyHost (v1CPU exactFpu legacyStats (newMetric job211 ''211'')) =
      Some (v1CPU exactFpu legacyStats (newMetric job211 ''211''))"
    by (simp add: setCPUs_def getCPUs_def legacyHost_def)
  have "update exactFpu slurmV1 legacyHost (newMetric job211 ''211'') =
      Some (rdmaStats exactFpu (s1_Rdma legacyStats)
             (v1Blkio exactFpu slurmV1 legacyStats
               (v1Memory exactFpu slurmV1 legacyStats
                  (v1CPU exactFpu legacyStats (newMetric job211 ''211'')))))"
    by (simp add: update_def statsV1_def m l s)
  also have "\<dots> = Some legacyMetric"
    by (simp add: v1CPU_def v1Memory_def v1MemoryUsage_def v1MemorySwap_def v1Blkio_def rdmaStats_def
          legacyStats_def legacyMemory_def newMetric_def legacyMetric_def exactFpu_def memInfo_def
          slurmV1_def MaxUint64_def)
  finally show ?thesis .
qed

text \<open>
  A v2 unit without limits on a host with memory and swap, and a v1 unit with a memory
  limit and no swap limit on a host without swap.
\<close>

theorem memory_limit_sentinel_witness:
  "update exactFpu slurmV2 fullHost (newMetric job42 ''42'') = Some fullMetric \<and>
   cgroup2 fullHost job42 = Stats fullStats2 \<and> s2_Memory fullStats2 = Some fullMemory \<and>
   m2_UsageLimit fullMemory = MaxUint64 \<and> m2_SwapLimit fullMemory = MaxUint64 \<and>
   memoryTotal fullMetric = 16777216000 \<and> memswTotal fullMetric = 4194304000 \<and>
   update exactFpu slurmV1 legacyHost (newMetric job211 ''211'') = Some legacyMetric \<and>
   cgroup1 legacyHost job211 = Stats legacyStats \<and> s1_Memory legacyStats = Some legacyMemory \<and>
   memoryTotal legacyMetric = 2147483648 \<and> memswTotal legacyMetric = 16777216000 \<and>
   \<lparr>desc = cgMemoryTotal, valueType = GaugeValue, val = 16777216000,
      labelValues = [''slurm'', ''node1'', ''42'']\<rparr> \<in> set (sendUnit exactFpu slurmV2 fullMetric) \<and>
   \<lparr>desc = cgMemswTotal, valueType = GaugeValue, val = 4194304000,
      labelValues = [''slurm'', ''node1'', ''42'']\<rparr> \<in> set (sendUnit exactFpu slurmV2 fullMetric)"
proof -
  have p2: "mode slurmV2 = Unified" "path (newMetric job42 ''42'') = job42"
    "cgroup2 fullHost job42 = Stats fullStats2" "s2_Memory fullStats2 = Some fullMemory"
    "collectSwapMemStats (opts slurmV2)" "manager slurmV2 = ''slurm''" "hostname slurmV2 = ''node1''"
    "uuid fullMetric = ''42''"
    by (simp_all add: slurmV2_def newMetric_def fullHost_def fullStats2_def fullMemory_def fullMetric_def)
  have p1: "mode slurmV1 \<noteq> Unified" "path (newMetric job211 ''211'') = job211"
    "cgroup1 legacyHost job211 = Stats legacyStats" "s1_Memory legacyStats = Some legacyMemory"
    "m1_Usage legacyMemory = Some \<lparr>me_Limit = 2147483648, me_Usage = 1048576, me_Failcnt = 0\<rparr>"
    "m1_Swap legacyMemory = Some \<lparr>me_Limit = MaxUint64, me_Usage = 0, me_Failcnt = 0\<rparr>"
    by (simp_all add: slurmV1_def newMetric_def legacyHost_def legacyStats_def legacyMemory_def)
  have lim: "m2_UsageLimit fullMemory = MaxUint64" "m2_SwapLimit fullMemory = MaxUint64"
    by (simp_all add: fullMemory_def)
  have a2: "amendedMemoryTotal exactFpu slurmV2 MaxUint64 = 16777216000"
    "amendedMemswTotal exactFpu slurmV2 MaxUint64 = 4194304000"
    by (simp_all add: amendedMemoryTotal_def amendedMemswTotal_def full_memInfo)
  have a1: "amendedMemoryTotal exactFpu slurmV1 2147483648 = 2147483648"
    "amendedMemswTotal exactFpu slurmV1 MaxUint64 = 16777216000"
    by (simp_all add: amendedMemoryTotal_def amendedMemswTotal_def memInfo_def slurmV1_def
          MaxUint64_def exactFpu_def)
  from memory_limit_sentinel[OF full_update] p2 lim a2
  have v2: "memoryTotal fullMetric = 16777216000" "memswTotal fullMetric = 4194304000"
    "\<lparr>desc = cgMemoryTotal, valueType = GaugeValue, val = memoryTotal fullMetric,
      labelValues = [''slurm'', ''node1'', ''42'']\<rparr> \<in> set (sendUnit exactFpu slurmV2 fullMetric)"
    "\<lparr>desc = cgMemswTotal, valueType = GaugeValue, val = memswTotal fullMetric,
      labelValues = [''slurm'', ''node1'', ''42'']\<rparr> \<in> set (sendUnit exactFpu slurmV2 fullMetric)"
    by auto
  from memory_limit_sentinel[OF legacy_update] p1 a1
  have v1: "memoryTotal legacyMetric = 2147483648" "memswTotal legacyMetric = 16777216000"
    by auto
  show ?thesis using v1 v2 p1 p2 lim full_update legacy_update by simp
qed

lemma noMemInfo_getCPUs:
  "getCPUs noMemInfo fullHost (path (newMetric job42 ''42'')) = Some (Inr [''0'', ''1'', ''2'', ''3''])"
proof -
  have "parseCPUSet (TrimSuffixNL (''0-3'' @ [CHR 0x0A])) = Some (Inr [''0'', ''1'', ''2'', ''3''])"
    by code_simp
  then show ?thesis
    by (simp add: getCPUs_def cpusetPath_def noMemInfo_def slurmV2_def fullHost_def job42_def newMetric_def)
qed

text \<open>
  Claim C4, as stated, fails for the memory limit: when the host's \<open>MemTotal\<close> is not
  known (reading \<open>/proc/meminfo\<close> failed at start-up and the map is empty), a memory
  limit of \<open>math.MaxUint64\<close> is sent as it is, not replaced by the host's \<open>MemTotal\<close>.
\<close>

theorem memory_sentinel_counterexample:
  "cgroup2 fullHost job42 = Stats fullStats2 \<and> s2_Memory fullStats2 = Some fullMemory \<and>
   m2_UsageLimit fullMemory = MaxUint64 \<and>
   memInfo noMemInfo ''MemTotal_bytes'' = 0 \<and>
   map_option memoryTotal (update exactFpu noMemInfo fullHost (newMetric job42 ''42'')) = Some 18446744073709551615 \<and>
   float64_of exactFpu (uint MaxUint64) = 18446744073709551615"
proof -
  let ?m = "newMetric job42 ''42''"
  have p: "mode noMemInfo = Unified" "path ?m = job42"
    "cgroup2 fullHost job42 = Stats fullStats2" "s2_Memory fullStats2 = Some fullMemory"
    "m2_UsageLimit fullMemory = MaxUint64"
    by (simp_all add: noMemInfo_def slurmV2_def newMetric_def fullHost_def fullStats2_def fullMemory_def)
  have z: "memInfo noMemInfo ''MemTotal_bytes'' = 0" by (simp add: memInfo_def noMemInfo_def)
  have f: "float64_of exactFpu (uint MaxUint64) = 18446744073709551615"
    by (simp add: exactFpu_def MaxUint64_def)
  have av: "statsAvailable noMemInfo fullHost (path ?m)"
    using p by (simp add: statsAvailable_def)
  from update_cpus[OF av noMemInfo_getCPUs, of exactFpu]
  obtain m' where m': "update exactFpu noMemInfo fullHost ?m = Some m'" by blast
  from update_Unified[OF p(1) _ m'] p obtain m0 where
    "m' = rdmaStats exactFpu (s2_Rdma fullStats2) (v2Io exactFpu noMemInfo fullStats2
            (v2MemoryEvents exactFpu fullStats2 (v2Memory exactFpu noMemInfo fullStats2 m0)))"
    by auto
  then have "memoryTotal m' = amendedMemoryTotal exactFpu noMemInfo MaxUint64"
    using v2Memory_totals[OF p(4), of exactFpu noMemInfo m0] p(5) by simp
  also have "\<dots> = 18446744073709551615"
    using z f by (simp add: amendedMemoryTotal_def)
  finally show ?thesis using m' p z f by simp
qed

lemma getCPUs_returns:
  assumes "\<forall>cpusData. readFile h (cpusetPath c p) = Contents cpusData \<longrightarrow> length (TrimSuffixNL cpusData) < 19"
  shows "\<exists>res. getCPUs c h p = Some res"
proof (cases "readFile h (cpusetPath c p)")
  case (Contents cpusData)
  with assms have "length (TrimSuffixNL cpusData) < 19" by simp
  from parseCPUSet_returns[OF this] Contents show ?thesis by (simp add: getCPUs_def)
qed (simp_all add: getCPUs_def)

lemma setCPUs_returns:
  assumes "getCPUs c h (path m) = Some res"
  shows "\<exists>m0. setCPUs c h m = Some m0 \<and> err m0 = err m \<and> uuid m0 = uuid m \<and>
           (\<forall>e. res = Inl e \<longrightarrow> m0 = m)"
  using assms by (cases res) (simp_all add: setCPUs_def)

lemma update_load_failed:
  "\<not> statsAvailable c h (path m) \<Longrightarrow> update fl c h m = Some (m\<lparr>err := True\<rparr>)"
  by (auto simp: statsAvailable_def update_def statsV1_def statsV2_def split: cgstat.splits if_splits)

lemma update_loaded:
  assumes "statsAvailable c h (path m)" "getCPUs c h (path m) = Some res"
  shows "\<exists>m'. update fl c h m = Some m' \<and> err m' = err m \<and> (\<forall>e. res = Inl e \<longrightarrow> cpus m' = cpus m)"
proof (cases "mode c = Unified")
  case True
  with assms(1) obtain st where st: "cgroup2 h (path m) = Stats st"
    by (auto simp: statsAvailable_def split: cgstat.splits)
  from setCPUs_returns[of c h "v2CPU fl st m" res] assms(2)
  obtain m0 where m0: "setCPUs c h (v2CPU fl st m) = Some m0" "err m0 = err m"
    "\<forall>e. res = Inl e \<longrightarrow> m0 = v2CPU fl st m" by auto
  have "update fl c h m = Some (rdmaStats fl (s2_Rdma st) (v2Io fl c st (v2MemoryEvents fl st (v2Memory fl c st m0))))"
    using True st m0(1) by (simp add: update_def statsV2_def)
  moreover have "\<forall>e. res = Inl e \<longrightarrow> cpus m0 = cpus m" using m0(3) by auto
  ultimately show ?thesis using m0(2) by simp
next
  case False
  with assms(1) obtain st where st: "cgroup1 h (path m) = Stats st"
    by (auto simp: statsAvailable_def split: cgstat.splits)
  from setCPUs_returns[of c h "v1CPU fl st m" res] assms(2)
  obtain m0 where m0: "setCPUs c h (v1CPU fl st m) = Some m0" "err m0 = err m"
    "\<forall>e. res = Inl e \<longrightarrow> m0 = v1CPU fl st m" by auto
  have "update fl c h m = Some (rdmaStats fl (s1_Rdma st) (v1Blkio fl c st (v1Memory fl c st m0)))"
    using False st m0(1) by (simp add: update_def statsV1_def)
  moreover have "\<forall>e. res = Inl e \<longrightarrow> cpus m0 = cpus m" using m0(3) by auto
  ultimately show ?thesis using m0(2) by simp
qed

lemma collectError_sent:
  "err m \<Longrightarrow> \<lparr>desc = collectError, valueType = GaugeValue, val = 1,
     labelValues = [manager c, hostname c, uuid m]\<rparr> \<in> set (sendUnit fl c m)"
  by (simp add: sendUnit_def MustNewConstMetric_def)

subsection \<open>When the read returns\<close>

lemma Atoi_range: "Atoi s = Inr n \<Longrightarrow> MinInt64 \<le> n \<and> n \<le> MaxInt64"
  by (auto simp: Atoi_def Let_def split: list.splits if_splits)

lemma Atoi_below:
  "Atoi a = Inr n \<Longrightarrow> Atoi a \<noteq> Inr MaxInt64 \<Longrightarrow> n < MaxInt64"
  using Atoi_range[of a n] by auto

lemma parseRanges_in_range:
  "en < MaxInt64 \<Longrightarrow>
   list_all (\<lambda>r. list_all (\<lambda>b. Atoi b \<noteq> Inr MaxInt64) (Split r (CHR ''-''))) rs \<Longrightarrow>
   \<exists>res. parseRanges rs st en cs = Some res"
proof (induction rs arbitrary: st en cs)
  case Nil
  then show ?case by simp
next
  case (Cons r rs)
  have here: "\<And>b. b \<in> set (Split r (CHR ''-'')) \<Longrightarrow> Atoi b \<noteq> Inr MaxInt64"
    using Cons.prems(2) by (simp add: list_all_iff)
  have rest: "list_all (\<lambda>r. list_all (\<lambda>b. Atoi b \<noteq> Inr MaxInt64) (Split r (CHR ''-''))) rs"
    using Cons.prems(2) by simp
  have IH: "\<And>st en cs. en < MaxInt64 \<Longrightarrow> \<exists>res. parseRanges rs st en cs = Some res"
    using Cons.IH rest by blast
  have len1: "\<And>xs :: string list. length xs = 1 \<Longrightarrow> \<exists>a. xs = [a]"
    by (simp add: length_Suc_conv One_nat_def)
  have len2: "\<And>xs :: string list. length xs = 2 \<Longrightarrow> \<exists>a b. xs = [a, b]"
    by (auto simp: length_Suc_conv numeral_2_eq_2)
  consider (one) a where "Split r (CHR ''-'') = [a]"
    | (two) a b where "Split r (CHR ''-'') = [a, b]"
    | (other) "length (Split r (CHR ''-'')) \<noteq> 1" "length (Split r (CHR ''-'')) \<noteq> 2"
    using len1[of "Split r (CHR ''-'')"] len2[of "Split r (CHR ''-'')"] by blast
  then show ?case
  proof cases
    case one
    show ?thesis
    proof (cases "Atoi a")
      case (Inl e)
      with one show ?thesis by simp
    next
      case (Inr n)
      have n: "n < MaxInt64" using Atoi_below[OF Inr] here[of a] one by simp
      from IH[OF n] cpuLoop_returns[OF n] one Inr show ?thesis by simp
    qed
  next
    case two
    show ?thesis
    proof (cases "Atoi a")
      case (Inl e)
      with two show ?thesis by simp
    next
      case lo: (Inr lo)
      show ?thesis
      proof (cases "Atoi b")
        case (Inl e)
        with two lo show ?thesis by simp
      next
        case (Inr hi)
        have n: "hi < MaxInt64" using Atoi_below[OF Inr] here[of b] two by simp
        from IH[OF n] cpuLoop_returns[OF n] two lo Inr show ?thesis by simp
      qed
    qed
  next
    case other
    from IH[OF Cons.prems(1)] cpuLoop_returns[OF Cons.prems(1)] other show ?thesis
      by (simp add: Let_def)
  qed
qed

lemma parseCPUSet_in_range:
  assumes "cpusetInRange s"
  shows "\<exists>res. parseCPUSet s = Some res"
proof (cases "s = []")
  case True
  then show ?thesis by (simp add: parseCPUSet_def)
next
  case False
  have "(0::int) < MaxInt64" by (simp add: MaxInt64_def)
  from parseRanges_in_range[OF this, of "Split s (CHR '','')" 0 "[]"] assms False
  show ?thesis by (simp add: parseCPUSet_def cpusetInRange_def)
qed

lemma getCPUs_in_range:
  assumes "case readFile h (cpusetPath c p) of
             Contents cpusData \<Rightarrow> cpusetInRange (TrimSuffixNL cpusData) | _ \<Rightarrow> True"
  shows "\<exists>res. getCPUs c h p = Some res"
proof (cases "readFile h (cpusetPath c p)")
  case (Contents cpusData)
  with assms have "cpusetInRange (TrimSuffixNL cpusData)" by simp
  from parseCPUSet_in_range[OF this] Contents show ?thesis by (simp add: getCPUs_def)
qed (simp_all add: getCPUs_def)

lemma update_returns:
  assumes "readReturns c h (path m)"
  shows "\<exists>m'. update fl c h m = Some m'"
proof (cases "statsAvailable c h (path m)")
  case False
  then show ?thesis by (simp add: update_load_failed)
next
  case True
  with assms have "case readFile h (cpusetPath c (path m)) of
             Contents cpusData \<Rightarrow> cpusetInRange (TrimSuffixNL cpusData) | _ \<Rightarrow> True"
    by (simp add: readReturns_def)
  from getCPUs_in_range[OF this] obtain res where "getCPUs c h (path m) = Some res" by blast
  from update_loaded[OF True this, of fl] show ?thesis by blast
qed

lemma doUpdate_returns:
  "\<forall>m \<in> set metrics. readReturns c h (path m) \<Longrightarrow> \<exists>ms. doUpdate fl c h metrics = Some ms"
proof (induction metrics)
  case Nil
  then show ?case by simp
next
  case (Cons m metrics)
  from Cons.prems update_returns[of c h m fl] obtain m' where "update fl c h m = Some m'" by auto
  moreover from Cons obtain ms where "doUpdate fl c h metrics = Some ms" by auto
  ultimately show ?case by simp
qed

lemma Update_returns:
  "\<forall>m \<in> set metrics. readReturns c h (path m) \<Longrightarrow> \<exists>samples. Update fl c h metrics = Some samples"
  using doUpdate_returns[of metrics c h fl] by (auto simp: Update_def)

lemma update_None:
  assumes "statsAvailable c h (path m)" "getCPUs c h (path m) = None"
  shows "update fl c h m = None"
proof (cases "mode c = Unified")
  case True
  with assms(1) obtain st where st: "cgroup2 h (path m) = Stats st"
    by (auto simp: statsAvailable_def split: cgstat.splits)
  have "setCPUs c h (v2CPU fl st m) = None" using assms(2) by (simp add: setCPUs_def)
  then show ?thesis using True st by (simp add: update_def statsV2_def)
next
  case False
  with assms(1) obtain st where st: "cgroup1 h (path m) = Stats st"
    by (auto simp: statsAvailable_def split: cgstat.splits)
  have "setCPUs c h (v1CPU fl st m) = None" using assms(2) by (simp add: setCPUs_def)
  then show ?thesis using False st by (simp add: update_def statsV1_def)
qed

lemma update_result:
  assumes "update fl c h m = Some m'"
  shows "(\<not> statsAvailable c h (path m) \<longrightarrow> m' = m\<lparr>err := True\<rparr>) \<and>
         (statsAvailable c h (path m) \<longrightarrow>
            err m' = err m \<and> (\<forall>e. getCPUs c h (path m) = Some (Inl e) \<longrightarrow> cpus m' = cpus m)) \<and>
         set (unitSamples fl c m') \<subseteq> set (sendUnit fl c m') \<and>
         (err m' \<longrightarrow> \<lparr>desc = collectError, valueType = GaugeValue, val = 1,
                        labelValues = [manager c, hostname c, uuid m']\<rparr> \<in> set (sendUnit fl c m'))"
proof (cases "statsAvailable c h (path m)")
  case False
  then have "m' = m\<lparr>err := True\<rparr>"
    using update_load_failed[of c h m fl] assms by simp
  moreover then have "err m'" by simp
  ultimately show ?thesis
    using False unitSamples_sent[of fl c m'] collectError_sent[of m' c fl] by blast
next
  case True
  obtain res where res: "getCPUs c h (path m) = Some res"
    using update_None[OF True, of fl] assms by (cases "getCPUs c h (path m)") auto
  from update_loaded[OF True res, of fl] assms have
    "err m' = err m" "\<forall>e. res = Inl e \<longrightarrow> cpus m' = cpus m"
    by auto
  then show ?thesis
    using True res unitSamples_sent[of fl c m'] collectError_sent[of m' c fl] by auto
qed

text \<open>
  Claim C2, amended. The read returns whenever the statistics are not available or the
  cpuset file is missing, unreadable or in range. Whenever it returns: if the cgroup does
  not load, its stat fails or its statistics are nil, the result is the metric with the
  \<open>err\<close> flag set and every other field as it was; if the statistics load, the
  \<open>err\<close> flag stays as it was, also when the cpuset file is missing, unreadable or
  malformed, and \<open>cpus\<close> then stays as it was. In every case the CPU and memory
  samples of the unit are sent, and a \<open>compute_collect_error\<close> sample of value 1 is
  sent when the flag is set.
\<close>

theorem stats_read_error_flag:
  "(readReturns c h (path m) \<longrightarrow> (\<exists>m'. update fl c h m = Some m')) \<and>
   (\<forall>m'. update fl c h m = Some m' \<longrightarrow>
      (\<not> statsAvailable c h (path m) \<longrightarrow> m' = m\<lparr>err := True\<rparr>) \<and>
      (statsAvailable c h (path m) \<longrightarrow>
         err m' = err m \<and> (\<forall>e. getCPUs c h (path m) = Some (Inl e) \<longrightarrow> cpus m' = cpus m)) \<and>
      set (unitSamples fl c m') \<subseteq> set (sendUnit fl c m') \<and>
      (err m' \<longrightarrow> \<lparr>desc = collectError, valueType = GaugeValue, val = 1,
                     labelValues = [manager c, hostname c, uuid m']\<rparr> \<in> set (sendUnit fl c m')))"
  using update_returns[of c h m fl] update_result[of fl c h m] by blast

lemma sendUnit_collectError:
  assumes "s \<in> set (sendUnit fl c m)" "desc s = collectError"
  shows "err m"
proof (rule ccontr)
  assume "\<not> err m"
  with assms(1) consider
      (fixed) "desc s \<noteq> collectError"
    | (blk) device where "s \<in> set (blkioSends c m device)"
    | (rdma) d entry where "d \<noteq> collectError" "s \<in> set (rdmaSend c m d entry)"
    unfolding sendUnit_def
    by (auto simp: MustNewConstMetric_def split: if_splits)
  then show False
  proof cases
    case fixed
    with assms(2) show False by simp
  next
    case blk
    with assms(2) show False
      by (auto simp: blkioSends_def sendIfPositive_def MustNewConstMetric_def split: option.splits if_splits)
  next
    case rdma
    with assms(2) show False
      by (auto simp: rdmaSend_def MustNewConstMetric_def split: prod.splits if_splits)
  qed
qed

lemma no_collectError_sample:
  "\<not> err m \<Longrightarrow> filter isCollectError (sendUnit fl c m) = []"
  using sendUnit_collectError[of _ fl c m] by (auto simp: filter_empty_conv isCollectError_def)

lemma ordinary_readReturns:
  "readReturns slurmV2 (cpusetHost (ordinaryCpuset @ [CHR 0x0A])) job42"
  by code_simp

lemma job43_unavailable: "\<not> statsAvailable slurmV2 fullHost job43"
  by code_simp

text \<open>
  Job 43, whose cgroup fails to load, and job 42 with its statistics loaded and a cpuset
  file of four ranges.
\<close>

theorem stats_read_error_flag_witness:
  "\<not> statsAvailable slurmV2 fullHost (path (newMetric job43 ''43'')) \<and>
   update exactFpu slurmV2 fullHost (newMetric job43 ''43'') = Some ((newMetric job43 ''43'')\<lparr>err := True\<rparr>) \<and>
   \<lparr>desc = collectError, valueType = GaugeValue, val = 1, labelValues = [''slurm'', ''node1'', ''43'']\<rparr>
      \<in> set (sendUnit exactFpu slurmV2 ((newMetric job43 ''43'')\<lparr>err := True\<rparr>)) \<and>
   set (unitSamples exactFpu slurmV2 ((newMetric job43 ''43'')\<lparr>err := True\<rparr>))
      \<subseteq> set (sendUnit exactFpu slurmV2 ((newMetric job43 ''43'')\<lparr>err := True\<rparr>)) \<and>
   statsAvailable slurmV2 (cpusetHost (ordinaryCpuset @ [CHR 0x0A])) (path (newMetric job42 ''42'')) \<and>
   readReturns slurmV2 (cpusetHost (ordinaryCpuset @ [CHR 0x0A])) (path (newMetric job42 ''42'')) \<and>
   length ordinaryCpuset = 20 \<and>
   (\<exists>m'. update exactFpu slurmV2 (cpusetHost (ordinaryCpuset @ [CHR 0x0A])) (newMetric job42 ''42'') = Some m' \<and>
         \<not> err m' \<and>
         set (unitSamples exactFpu slurmV2 m') \<subseteq> set (sendUnit exactFpu slurmV2 m'))"
proof -
  let ?m3 = "newMetric job43 ''43''"
  let ?m2 = "newMetric job42 ''42''"
  let ?h = "cpusetHost (ordinaryCpuset @ [CHR 0x0A])"
  have pm: "path ?m3 = job43" "path ?m2 = job42" by (simp_all add: newMetric_def)
  have na: "\<not> statsAvailable slurmV2 fullHost (path ?m3)"
    using job43_unavailable pm by simp
  then have rr3: "readReturns slurmV2 fullHost (path ?m3)" by (simp add: readReturns_def)
  have lab: "manager slurmV2 = ''slurm''" "hostname slurmV2 = ''node1''" "uuid (?m3\<lparr>err := True\<rparr>) = ''43''"
    "err (?m3\<lparr>err := True\<rparr>)" "err ?m2 = False"
    by (simp_all add: slurmV2_def newMetric_def)
  from stats_read_error_flag[of slurmV2 fullHost ?m3 exactFpu] rr3 na
  have u3: "update exactFpu slurmV2 fullHost ?m3 = Some (?m3\<lparr>err := True\<rparr>)"
    by blast
  from stats_read_error_flag[of slurmV2 fullHost ?m3 exactFpu] u3 lab
  have one:
    "\<lparr>desc = collectError, valueType = GaugeValue, val = 1, labelValues = [''slurm'', ''node1'', ''43'']\<rparr>
      \<in> set (sendUnit exactFpu slurmV2 (?m3\<lparr>err := True\<rparr>))"
    "set (unitSamples exactFpu slurmV2 (?m3\<lparr>err := True\<rparr>)) \<subseteq> set (sendUnit exactFpu slurmV2 (?m3\<lparr>err := True\<rparr>))"
    by auto
  have av: "statsAvailable slurmV2 ?h (path ?m2)"
    by (simp add: statsAvailable_def slurmV2_def cpusetHost_def newMetric_def)
  have rr2: "readReturns slurmV2 ?h (path ?m2)"
    using ordinary_readReturns pm by simp
  have len: "length ordinaryCpuset = 20" by (simp add: ordinaryCpuset_def)
  from stats_read_error_flag[of slurmV2 ?h ?m2 exactFpu] rr2 av lab(5)
  have two: "\<exists>m'. update exactFpu slurmV2 ?h ?m2 = Some m' \<and> \<not> err m' \<and>
         set (unitSamples exactFpu slurmV2 m') \<subseteq> set (sendUnit exactFpu slurmV2 m')"
    by metis
  show ?thesis using na u3 one av rr2 len two by blast
qed

text \<open>
  Claim C2, as stated, fails: with the statistics loaded and the cpuset file
  unreadable, the read leaves \<open>cpus\<close> at zero but does not set the \<open>err\<close> flag, and
  no \<open>compute_collect_error\<close> sample is sent for the unit.
\<close>

theorem unreadable_cpuset_counterexample:
  "statsAvailable slurmV2 unreadableHost job42 \<and>
   readFile unreadableHost (cpusetPath slurmV2 job42) = Unreadable \<and>
   getCPUs slurmV2 unreadableHost job42 = Some (Inl ErrReadFile) \<and>
   map_option err (update exactFpu slurmV2 unreadableHost (newMetric job42 ''42'')) = Some False \<and>
   map_option cpus (update exactFpu slurmV2 unreadableHost (newMetric job42 ''42'')) = Some 0 \<and>
   map_option (filter isCollectError) (Update exactFpu slurmV2 unreadableHost [newMetric job42 ''42'']) = Some []"
proof -
  let ?m = "newMetric job42 ''42''"
  have pm: "path ?m = job42" "err ?m = False" "cpus ?m = 0" by (simp_all add: newMetric_def)
  have av: "statsAvailable slurmV2 unreadableHost job42"
    by (simp add: statsAvailable_def slurmV2_def unreadableHost_def fullHost_def)
  have rf: "readFile unreadableHost (cpusetPath slurmV2 job42) = Unreadable"
    by (simp add: unreadableHost_def)
  have g: "getCPUs slurmV2 unreadableHost job42 = Some (Inl ErrReadFile)"
    by (simp add: getCPUs_def rf)
  from update_loaded[of slurmV2 unreadableHost ?m "Inl ErrReadFile" exactFpu] av g pm
  obtain m' where m': "update exactFpu slurmV2 unreadableHost ?m = Some m'" "err m' = False" "cpus m' = 0"
    by auto
  have "Update exactFpu slurmV2 unreadableHost [?m] =
      Some (MustNewConstMetric numCgs GaugeValue (float64_of exactFpu 1) [manager slurmV2, hostname slurmV2]
            # sendUnit exactFpu slurmV2 m')"
    by (simp add: Update_def m'(1))
  then have "map_option (filter isCollectError) (Update exactFpu slurmV2 unreadableHost [?m]) = Some []"
    using no_collectError_sample[of m' exactFpu slurmV2] m'(2)
    by (simp add: isCollectError_def MustNewConstMetric_def)
  then show ?thesis using av rf g m' by simp
qed

section \<open>Properties of the discovery\<close>

lemma walkFn_error: "walkFn c env p isDir (Some e) st = Inl (ErrWalk e)"
  by (simp add: walkFn_def)

lemma walkFn_file: "walkFn c env p False None st = Inr st"
  by (simp add: walkFn_def)

lemma walkFn_dir: "walkFn c env p True None st = Inr (visit c env st p)"
  by (simp add: walkFn_def visit_def Let_def split: option.splits)

lemma walkEntries_ok:
  assumes "\<And>d p st. d \<in> set ds \<Longrightarrow>
             walkDir (walkFn c env) p d st = Inr (foldl (visit c env) st (dirPaths p d))"
  shows "walkEntries (walkFn c env) p ds st =
           Inr (foldl (visit c env) st (concat (map (\<lambda>d. dirPaths (p @ ''/'' @ nodeName d) d) ds)))"
  using assms by (induction ds arbitrary: st) simp_all

lemma walkDir_ok:
  "\<not> hasReadErr node \<Longrightarrow>
     walkDir (walkFn c env) p node st = Inr (foldl (visit c env) st (dirPaths p node))"
proof (induction node arbitrary: p st)
  case (Node name isDir readErr dirs)
  show ?case
  proof (cases isDir)
    case False
    then show ?thesis by (simp add: walkFn_file)
  next
    case True
    with Node.prems have ne: "readErr = None" and sub: "\<forall>d \<in> set dirs. \<not> hasReadErr d" by auto
    have "\<And>d p st. d \<in> set dirs \<Longrightarrow>
             walkDir (walkFn c env) p d st = Inr (foldl (visit c env) st (dirPaths p d))"
      using Node.IH sub by blast
    from walkEntries_ok[OF this] show ?thesis using True ne by (simp add: walkFn_dir)
  qed
qed

lemma walkEntries_err:
  assumes "\<And>d p st. d \<in> set ds \<Longrightarrow> hasReadErr d \<Longrightarrow>
             \<exists>e. walkDir (walkFn c env) p d st = Inl (ErrWalk e)"
    and "\<exists>d \<in> set ds. hasReadErr d"
  shows "\<exists>e. walkEntries (walkFn c env) p ds st = Inl (ErrWalk e)"
  using assms
proof (induction ds arbitrary: st)
  case Nil
  then show ?case by simp
next
  case (Cons d1 ds)
  show ?case
  proof (cases "hasReadErr d1")
    case True
    from Cons.prems(1)[of d1 "p @ ''/'' @ nodeName d1" st] True show ?thesis by auto
  next
    case False
    with Cons.prems(2) have rest: "\<exists>d \<in> set ds. hasReadErr d" by simp
    have "\<exists>e. walkEntries (walkFn c env) p ds (foldl (visit c env) st (dirPaths (p @ ''/'' @ nodeName d1) d1))
            = Inl (ErrWalk e)"
      using Cons.IH[OF _ rest] Cons.prems(1) by simp
    then show ?thesis using walkDir_ok[OF False, of c env "p @ ''/'' @ nodeName d1" st] by simp
  qed
qed

lemma walkDir_err:
  "hasReadErr node \<Longrightarrow> \<exists>e. walkDir (walkFn c env) p node st = Inl (ErrWalk e)"
proof (induction node arbitrary: p st)
  case (Node name isDir readErr dirs)
  then have dir: isDir by simp
  show ?case
  proof (cases readErr)
    case (Some e)
    then show ?thesis using dir by (simp add: walkFn_dir walkFn_error)
  next
    case None
    with Node.prems have ex: "\<exists>d \<in> set dirs. hasReadErr d" by simp
    have "\<And>d p st. d \<in> set dirs \<Longrightarrow> hasReadErr d \<Longrightarrow>
             \<exists>e. walkDir (walkFn c env) p d st = Inl (ErrWalk e)"
      using Node.IH by blast
    from walkEntries_err[OF this ex] show ?thesis using dir None by (simp add: walkFn_dir)
  qed
qed



lemma discover_intact:
  "discover slurmManagerV2 plainEnv (Inr intactTree) = Inr [unit42]"
  by code_simp

lemma discover_nested_ids:
  "map_sum id (map cg_id) (discover slurmManagerV2 plainEnv (Inr nestedTree)) = Inr [''42'', ''42'']"
  by code_simp

lemma visit_cgroups:
  "ws_cgroups (visit c env st p) =
     ws_cgroups st @ (case rootUnit c env p of None \<Rightarrow> [] | Some u \<Rightarrow> [u])"
  by (simp add: visit_def walkFn_def rootUnit_def Let_def split: option.splits)

lemma foldl_visit_cgroups:
  "ws_cgroups (foldl (visit c env) st ps) = ws_cgroups st @ List.map_filter (rootUnit c env) ps"
proof (induction ps arbitrary: st)
  case Nil
  then show ?case by (simp add: List.map_filter_simps)
next
  case (Cons p ps)
  then show ?case by (simp add: visit_cgroups List.map_filter_simps split: option.splits)
qed

lemma mergeCgroup_keeps [simp]:
  "cg_id (mergeCgroup st cg) = cg_id cg"
  "cg_uuid (mergeCgroup st cg) = cg_uuid cg"
  "cg_path (mergeCgroup st cg) = cg_path cg"
  by (simp_all add: mergeCgroup_def Let_def split: option.splits)

lemma discover_returns_iff:
  "(hasReadErr tree \<longrightarrow> (\<exists>e. discover c env (Inr tree) = Inl (ErrWalk e))) \<and>
   (\<not> hasReadErr tree \<longrightarrow>
      (\<exists>st. discover c env (Inr tree) =
              Inr (map (mergeCgroup st) (List.map_filter (rootUnit c env) (dirPaths (cm_mountPoint c) tree)))))"
proof (cases "hasReadErr tree")
  case True
  from walkDir_err[OF True, of c env "cm_mountPoint c"
        "\<lparr>ws_cgroups = [], ws_cgroupProcs = Map.empty, ws_cgroupChildren = Map.empty\<rparr>"]
  show ?thesis using True by (auto simp: discover_def WalkDir_def)
next
  case False
  let ?init = "\<lparr>ws_cgroups = [], ws_cgroupProcs = Map.empty, ws_cgroupChildren = Map.empty\<rparr>"
  let ?st = "foldl (visit c env) ?init (dirPaths (cm_mountPoint c) tree)"
  have "discover c env (Inr tree) = Inr (map (mergeCgroup ?st) (ws_cgroups ?st))"
    using walkDir_ok[OF False, of c env "cm_mountPoint c" ?init] by (simp add: discover_def WalkDir_def)
  then show ?thesis using False by (auto simp: foldl_visit_cgroups)
qed

lemma rootUnit_Some:
  assumes "rootUnit c env p = Some u"
  shows "cg_uuid u = cg_id u \<and> cg_id u \<noteq> [] \<and> \<not> cm_isChild c p \<and>
         (\<exists>sp. unescapeString env p = Some sp \<and> cp_abs (cg_path u) = sp \<and>
               1 < length (cm_idRegex c sp) \<and> cg_id u = TrimSpace (cm_idRegex c sp ! 1))"
  using assms by (auto simp: rootUnit_def split: option.splits if_splits)

lemma rootUnit_None:
  assumes "unescapeString env p = Some sp"
    and "length (cm_idRegex c sp) \<le> 1 \<or> TrimSpace (cm_idRegex c sp ! 1) = []"
  shows "rootUnit c env p = None"
  using assms by (auto simp: rootUnit_def split: option.splits)




text \<open>
  Claim C7, amended. The IDs of the returned root cgroups are, in order, the IDs that
  the visited directories contribute, one for every directory that is not a child and
  whose sanitized path yields a non-empty ID. Every returned unit has its uuid equal to
  its ID, which is the trimmed first capture group of \<open>idRegex\<close> on the unescaped path
  of its root directory; a directory whose sanitized path does not match, or whose ID
  is empty, contributes no unit. An ID appears once when only one such directory yields it.
\<close>

theorem discovered_units:
  assumes "discover c env (Inr tree) = Inr units"
  shows "map cg_id units = List.map_filter (unitId c env) (dirPaths (cm_mountPoint c) tree) \<and>
         (\<forall>u \<in> set units.
            cg_uuid u = cg_id u \<and> cg_id u \<noteq> [] \<and>
            (\<exists>p \<in> set (dirPaths (cm_mountPoint c) tree). \<exists>sp.
               unescapeString env p = Some sp \<and> cp_abs (cg_path u) = sp \<and>
               1 < length (cm_idRegex c sp) \<and> cg_id u = TrimSpace (cm_idRegex c sp ! 1) \<and>
               \<not> cm_isChild c p)) \<and>
         (\<forall>p sp. unescapeString env p = Some sp \<and>
                 (length (cm_idRegex c sp) \<le> 1 \<or> TrimSpace (cm_idRegex c sp ! 1) = []) \<longrightarrow>
                 unitId c env p = None) \<and>
         (distinct (List.map_filter (unitId c env) (dirPaths (cm_mountPoint c) tree)) \<longrightarrow>
            distinct (map cg_id units))"
proof -
  let ?ps = "dirPaths (cm_mountPoint c) tree"
  from assms discover_returns_iff[of tree c env] obtain st where
    units: "units = map (mergeCgroup st) (List.map_filter (rootUnit c env) ?ps)"
    by (cases "hasReadErr tree") auto
  have ids: "map cg_id units = List.map_filter (unitId c env) ?ps"
    by (simp add: units unitId_def List.map_filter_def comp_def)
       (induction ?ps; auto split: option.splits)
  have each: "\<forall>u \<in> set units.
            cg_uuid u = cg_id u \<and> cg_id u \<noteq> [] \<and>
            (\<exists>p \<in> set ?ps. \<exists>sp.
               unescapeString env p = Some sp \<and> cp_abs (cg_path u) = sp \<and>
               1 < length (cm_idRegex c sp) \<and> cg_id u = TrimSpace (cm_idRegex c sp ! 1) \<and>
               \<not> cm_isChild c p)"
  proof
    fix u assume "u \<in> set units"
    then obtain u0 p where u0: "u = mergeCgroup st u0" "p \<in> set ?ps" "rootUnit c env p = Some u0"
      by (auto simp: units List.map_filter_def)
    from rootUnit_Some[OF u0(3)] u0(1,2)
    show "cg_uuid u = cg_id u \<and> cg_id u \<noteq> [] \<and>
            (\<exists>p \<in> set ?ps. \<exists>sp.
               unescapeString env p = Some sp \<and> cp_abs (cg_path u) = sp \<and>
               1 < length (cm_idRegex c sp) \<and> cg_id u = TrimSpace (cm_idRegex c sp ! 1) \<and>
               \<not> cm_isChild c p)"
      by auto
  qed
  have none: "\<forall>p sp. unescapeString env p = Some sp \<and>
                 (length (cm_idRegex c sp) \<le> 1 \<or> TrimSpace (cm_idRegex c sp ! 1) = []) \<longrightarrow>
                 unitId c env p = None"
    using rootUnit_None[of env _ _ c] by (auto simp: unitId_def)
  show ?thesis using ids each none by simp
qed

text \<open>Job 42 with two steps beside a \<open>system\<close> directory: one unit, of ID 42.\<close>

theorem discovered_units_witness:
  "discover slurmManagerV2 plainEnv (Inr intactTree) = Inr [unit42] \<and>
   List.map_filter (unitId slurmManagerV2 plainEnv) (dirPaths (cm_mountPoint slurmManagerV2) intactTree) = [''42''] \<and>
   cg_uuid unit42 = cg_id unit42 \<and>
   cp_abs (cg_path unit42) = ''/sys/fs/cgroup/system.slice/slurmstepd.scope/job_42'' \<and>
   slurmCgroupPathRegex ''/sys/fs/cgroup/system.slice/slurmstepd.scope/job_42''
     = [''/sys/fs/cgroup/system.slice/slurmstepd.scope/job_42'', ''42''] \<and>
   slurmCgroupPathRegex ''/sys/fs/cgroup/system.slice/slurmstepd.scope/system'' = [] \<and>
   unitId slurmManagerV2 plainEnv ''/sys/fs/cgroup/system.slice/slurmstepd.scope/system'' = None \<and>
   distinct (map cg_id [unit42])"
proof -
  have i: "cg_id unit42 = ''42''" "cg_uuid unit42 = ''42''"
    "cp_abs (cg_path unit42) = ''/sys/fs/cgroup/system.slice/slurmstepd.scope/job_42''"
    by (simp_all add: unit42_def)
  have r: "slurmCgroupPathRegex ''/sys/fs/cgroup/system.slice/slurmstepd.scope/job_42''
     = [''/sys/fs/cgroup/system.slice/slurmstepd.scope/job_42'', ''42'']"
    "slurmCgroupPathRegex ''/sys/fs/cgroup/system.slice/slurmstepd.scope/system'' = []"
    by code_simp+
  have e: "unescapeString plainEnv ''/sys/fs/cgroup/system.slice/slurmstepd.scope/system''
             = Some ''/sys/fs/cgroup/system.slice/slurmstepd.scope/system''"
    by (simp add: plainEnv_def)
  have re: "cm_idRegex slurmManagerV2 = slurmCgroupPathRegex" by (simp add: slurmManagerV2_def)
  from discovered_units[OF discover_intact]
  have ids: "map cg_id [unit42] =
        List.map_filter (unitId slurmManagerV2 plainEnv) (dirPaths (cm_mountPoint slurmManagerV2) intactTree)"
    and none: "\<forall>p sp. unescapeString plainEnv p = Some sp \<and>
                 (length (cm_idRegex slurmManagerV2 sp) \<le> 1 \<or> TrimSpace (cm_idRegex slurmManagerV2 sp ! 1) = []) \<longrightarrow>
                 unitId slurmManagerV2 plainEnv p = None"
    by blast+
  from none e r(2) re
  have "unitId slurmManagerV2 plainEnv ''/sys/fs/cgroup/system.slice/slurmstepd.scope/system'' = None"
    by simp
  then show ?thesis using ids[symmetric] i r discover_intact by simp
qed

text \<open>
  Claim C7, as stated, fails on uniqueness: a directory under the job's directory that
  is not a child by \<open>isChild\<close> yields the same ID, and the ID is returned twice.
\<close>

theorem duplicate_id_counterexample:
  "map_sum id (map cg_id) (discover slurmManagerV2 plainEnv (Inr nestedTree)) = Inr [''42'', ''42''] \<and>
   \<not> distinct [''42'', ''42''] \<and>
   \<not> cm_isChild slurmManagerV2 ''/sys/fs/cgroup/system.slice/slurmstepd.scope/job_42'' \<and>
   \<not> cm_isChild slurmManagerV2 ''/sys/fs/cgroup/system.slice/slurmstepd.scope/job_42/extra'' \<and>
   cm_isChild slurmManagerV2 ''/sys/fs/cgroup/system.slice/slurmstepd.scope/job_42/step_0''"
proof -
  have "\<not> cm_isChild slurmManagerV2 ''/sys/fs/cgroup/system.slice/slurmstepd.scope/job_42''"
    "\<not> cm_isChild slurmManagerV2 ''/sys/fs/cgroup/system.slice/slurmstepd.scope/job_42/extra''"
    "cm_isChild slurmManagerV2 ''/sys/fs/cgroup/system.slice/slurmstepd.scope/job_42/step_0''"
    by code_simp+
  then show ?thesis using discover_nested_ids by simp
qed

section \<open>The samples of a collection\<close>

text \<open>
  Claim C10. \<open>Update\<close> returns whenever the read of every unit returns. Every
  block-IO or RDMA sample that it sends has a strictly positive value, so a per-device
  value of zero is never sent; the eight per-unit CPU and memory samples of every unit are
  sent whatever their values are.
\<close>

theorem per_device_samples_positive:
  "((\<forall>m \<in> set metrics. readReturns c h (path m)) \<longrightarrow> (\<exists>samples. Update fl c h metrics = Some samples)) \<and>
   (\<forall>samples. Update fl c h metrics = Some samples \<longrightarrow>
      (\<forall>s \<in> set samples. isPerDevice (desc s) \<longrightarrow> 0 < val s) \<and>
      (\<exists>ms. list_all2 (\<lambda>m m'. update fl c h m = Some m') metrics ms \<and>
            (\<forall>m' \<in> set ms. set (unitSamples fl c m') \<subseteq> set samples)))"
  using Update_returns[of metrics c h fl] Update_samples[of fl c h metrics] by blast

lemma full_readReturns: "readReturns slurmV2 fullHost job42"
  by code_simp

text \<open>
  A unit with zero bytes written to \<open>sda\<close>, zero handles on \<open>mlx5_1\<close> and a zero
  memory cache: the zero cache is sent, the zero per-device values are not.
\<close>

theorem per_device_samples_positive_witness:
  "readReturns slurmV2 fullHost (path (newMetric job42 ''42'')) \<and>
   Update exactFpu slurmV2 fullHost [newMetric job42 ''42''] = Some fullSamples \<and>
   map_of (blkioWriteBytes fullMetric) ''sda'' = Some 0 \<and>
   map_of (rdmaHCAHandles fullMetric) ''mlx5_1'' = Some 0 \<and>
   memoryCache fullMetric = 0 \<and>
   \<not> (\<exists>s \<in> set fullSamples. isPerDevice (desc s) \<and> val s \<le> 0) \<and>
   set (unitSamples exactFpu slurmV2 fullMetric) \<subseteq> set fullSamples"
proof -
  have rr: "readReturns slurmV2 fullHost (path (newMetric job42 ''42''))"
    using full_readReturns by (simp add: newMetric_def)
  then have all: "\<forall>m \<in> set [newMetric job42 ''42'']. readReturns slurmV2 fullHost (path m)" by simp
  from per_device_samples_positive[of "[newMetric job42 ''42'']" slurmV2 fullHost exactFpu] all
  obtain samples where ret: "Update exactFpu slurmV2 fullHost [newMetric job42 ''42''] = Some samples"
    by blast
  with full_Update have eq: "samples = fullSamples" by simp
  from per_device_samples_positive[of "[newMetric job42 ''42'']" slurmV2 fullHost exactFpu] ret eq
  obtain ms where pos: "\<forall>s \<in> set fullSamples. isPerDevice (desc s) \<longrightarrow> 0 < val s"
    and ms: "list_all2 (\<lambda>m m'. update exactFpu slurmV2 fullHost m = Some m') [newMetric job42 ''42''] ms"
    and sub: "\<forall>m' \<in> set ms. set (unitSamples exactFpu slurmV2 m') \<subseteq> set fullSamples"
    by blast
  from ms have "ms = [fullMetric]" by (auto simp: list_all2_Cons1 full_update)
  with sub have "set (unitSamples exactFpu slurmV2 fullMetric) \<subseteq> set fullSamples" by simp
  moreover have "map_of (blkioWriteBytes fullMetric) ''sda'' = Some 0"
    "map_of (rdmaHCAHandles fullMetric) ''mlx5_1'' = Some 0" "memoryCache fullMetric = 0"
    by (simp_all add: fullMetric_def)
  moreover have "\<not> (\<exists>s \<in> set fullSamples. isPerDevice (desc s) \<and> val s \<le> 0)"
    using pos by fastforce
  ultimately show ?thesis using rr ret eq by blast
qed
end
